(* ===== verification/Prelude.thy ===== *)
theory Prelude
  imports Complex_Main "HOL-Library.Word" "HOL-Library.AList"
begin

text \<open>
  Shared vocabulary of the development: octet strings and their big- and little-endian
  readings (the \<open>struct\<close> and \<open>int.to_bytes\<close> formats the code uses), Python slices,
  Python dictionaries as association lists in insertion order, and the generic lemmas on
  lists and dictionaries that every component uses.
\<close>

unbundle bit_operations_syntax

named_theorems wire_simps \<open>lengths and readings of octet strings\<close>
named_theorems dict_simps \<open>Python dictionaries as association lists\<close>

type_synonym byte = "8 word"
type_synonym bytes = "byte list"

text \<open>A dictionary keeps its insertion order; keys are distinct.\<close>

type_synonym ('k, 'v) dict = "('k \<times> 'v) list"

abbreviation dict_ok :: "('k, 'v) dict \<Rightarrow> bool" where
  "dict_ok d \<equiv> distinct (map fst d)"

abbreviation dict_get :: "('k, 'v) dict \<Rightarrow> 'k \<Rightarrow> 'v option" where
  "dict_get d k \<equiv> map_of d k"

abbreviation dict_set :: "'k \<Rightarrow> 'v \<Rightarrow> ('k, 'v) dict \<Rightarrow> ('k, 'v) dict" where
  "dict_set k v d \<equiv> AList.update k v d"

abbreviation dict_pop :: "'k \<Rightarrow> ('k, 'v) dict \<Rightarrow> ('k, 'v) dict" where
  "dict_pop k d \<equiv> AList.delete k d"

abbreviation dict_has :: "('k, 'v) dict \<Rightarrow> 'k \<Rightarrow> bool" where
  "dict_has d k \<equiv> map_of d k \<noteq> None"

text \<open>Deleting a list of keys, as the loops \<open>for k in keys: d.pop(k, None)\<close> do.\<close>

definition dict_pop_all :: "'k list \<Rightarrow> ('k, 'v) dict \<Rightarrow> ('k, 'v) dict" where
  "dict_pop_all ks d = fold AList.delete ks d"

text \<open>\<open>OrderedDict.move_to_end\<close> and \<open>OrderedDict.popitem(last=False)\<close>.\<close>

definition dict_move_to_end :: "'k \<Rightarrow> ('k, 'v) dict \<Rightarrow> ('k, 'v) dict" where
  "dict_move_to_end k d = (case map_of d k of None \<Rightarrow> d | Some v \<Rightarrow> AList.delete k d @ [(k, v)])"

subsection \<open>Dictionaries\<close>

lemma dict_get_set [dict_simps]: "dict_get (dict_set k v d) = (dict_get d)(k \<mapsto> v)"
  by (rule update_conv')

lemma dict_get_pop [dict_simps]: "dict_get (dict_pop k d) = (dict_get d)(k := None)"
  by (rule delete_conv')

lemma dict_ok_set [intro]: "dict_ok d \<Longrightarrow> dict_ok (dict_set k v d)"
  by (rule distinct_update)

lemma dict_ok_pop [intro]: "dict_ok d \<Longrightarrow> dict_ok (dict_pop k d)"
  by (rule distinct_delete)

lemma dict_keys_set [dict_simps]:
  "fst ` set (dict_set k v d) = insert k (fst ` set d)"
  by (simp add: dom_update)

lemma dict_has_iff: "dict_has d k \<longleftrightarrow> k \<in> fst ` set d"
  by (simp add: map_of_eq_None_iff)

lemma length_dict_set:
  "length (dict_set k v d) = (if k \<in> fst ` set d then length d else Suc (length d))"
  by (induction d) auto

lemma dict_set_new: "k \<notin> fst ` set d \<Longrightarrow> dict_set k v d = d @ [(k, v)]"
  by (induction d) auto

lemma dict_set_subset: "set (dict_set k v d) \<subseteq> insert (k, v) (set d)"
  by (induction d) auto

lemma set_dict_set: "dict_ok d \<Longrightarrow> set (dict_set k v d) = insert (k, v) {e \<in> set d. fst e \<noteq> k}"
  by (induction d) (auto simp: image_iff)

lemma dict_pop_set [simp]: "dict_pop k (dict_set k v d) = dict_pop k d"
  by (induction d) auto

lemma dict_set_set [simp]: "dict_set k v (dict_set k v' d) = dict_set k v d"
  by (induction d) auto

lemma length_dict_pop_le: "length (dict_pop k d) \<le> length d"
  by (simp add: length_delete_le)

lemma set_dict_pop: "set (dict_pop k d) = {e \<in> set d. fst e \<noteq> k}"
  by (induction d) auto

lemma dict_pop_filter: "dict_pop k d = filter (\<lambda>e. fst e \<noteq> k) d"
  by (induction d) auto

lemma length_dict_pop:
  "dict_ok d \<Longrightarrow> k \<in> fst ` set d \<Longrightarrow> Suc (length (dict_pop k d)) = length d"
proof (induction d)
  case (Cons e d)
  show ?case
  proof (cases "fst e = k")
    case True
    with Cons.prems have "k \<notin> fst ` set d" by auto
    then have "filter (\<lambda>e. fst e \<noteq> k) d = d" by (auto simp: filter_id_conv)
    with True show ?thesis by (simp add: dict_pop_filter)
  next
    case False
    with Cons show ?thesis by (cases e) auto
  qed
qed simp

lemma dict_pop_all_filter: "dict_pop_all ks d = filter (\<lambda>e. fst e \<notin> set ks) d"
  unfolding dict_pop_all_def
  by (induction ks arbitrary: d) (auto simp: dict_pop_filter intro!: filter_cong)

lemma dict_pop_all_where:
  assumes "dict_ok d"
  shows "dict_pop_all (map fst (filter P d)) d = filter (\<lambda>e. \<not> P e) d"
proof -
  have "fst e \<in> fst ` {x \<in> set d. P x} \<longleftrightarrow> P e" if "e \<in> set d" for e
  proof
    assume "fst e \<in> fst ` {x \<in> set d. P x}"
    then obtain x where "x \<in> set d" "P x" "fst x = fst e" by auto
    moreover have "inj_on fst (set d)" using assms by (simp add: distinct_map)
    ultimately show "P e" using that by (metis inj_onD)
  qed (use that in auto)
  then show ?thesis unfolding dict_pop_all_filter by (intro filter_cong) auto
qed

lemma dict_ok_filter: "dict_ok d \<Longrightarrow> dict_ok (filter P d)"
  by (simp add: distinct_map_filter)

lemma dict_get_filter:
  "dict_ok d \<Longrightarrow> dict_get (filter P d) k =
     (case dict_get d k of None \<Rightarrow> None | Some v \<Rightarrow> if P (k, v) then Some v else None)"
proof (induction d)
  case (Cons e d)
  obtain k' v' where e: "e = (k', v')" by (cases e)
  have "k' \<notin> fst ` set d" using Cons.prems e by simp
  then have "dict_get d k' = None" by (simp add: map_of_eq_None_iff)
  with Cons e show ?case by (auto split: option.splits)
qed simp

lemma dict_move_filter:
  "dict_move_to_end k d =
     (case dict_get d k of None \<Rightarrow> d | Some v \<Rightarrow> filter (\<lambda>e. fst e \<noteq> k) d @ [(k, v)])"
  by (simp add: dict_move_to_end_def dict_pop_filter split: option.split)

lemma set_dict_move:
  assumes "dict_ok d"
  shows "set (dict_move_to_end k d) = set d"
proof (cases "dict_get d k")
  case None
  then show ?thesis by (simp add: dict_move_to_end_def)
next
  case (Some v)
  have "(k, v') \<in> set d \<Longrightarrow> v' = v" for v'
    using Some assms by (metis map_of_is_SomeI option.inject)
  with Some show ?thesis
    by (auto simp: dict_move_filter dest: map_of_SomeD)
qed

lemma dict_ok_move:
  assumes "dict_ok d"
  shows "dict_ok (dict_move_to_end k d)"
  using assms
  by (auto simp: dict_move_filter dict_ok_filter split: option.splits)

lemma length_dict_move:
  assumes "dict_ok d"
  shows "length (dict_move_to_end k d) = length d"
proof (cases "dict_get d k")
  case None
  then show ?thesis by (simp add: dict_move_to_end_def)
next
  case (Some v)
  then have "k \<in> fst ` set d" by (metis dict_has_iff option.discI)
  with assms Some length_dict_pop [of d k] show ?thesis
    by (simp add: dict_move_to_end_def)
qed

lemma dict_get_move:
  assumes "dict_ok d"
  shows "dict_get (dict_move_to_end k d) = dict_get d"
  using map_of_inject_set [of "dict_move_to_end k d" d] set_dict_move [OF assms] dict_ok_move [OF assms] assms
  by metis

lemma dict_get_tl:
  "dict_ok d \<Longrightarrow> d \<noteq> [] \<Longrightarrow> dict_get (tl d) k = (if k = fst (hd d) then None else dict_get d k)"
  by (cases d) (auto simp: map_of_eq_None_iff)

subsection \<open>Slices and octet strings\<close>

text \<open>\<open>xs[a:b]\<close> for indices that are not negative.\<close>

definition py_slice :: "nat \<Rightarrow> nat \<Rightarrow> 'a list \<Rightarrow> 'a list" where
  "py_slice a b xs = take (b - a) (drop a xs)"

lemma length_py_slice [simp]: "length (py_slice a b xs) = min (b - a) (length xs - a)"
  by (simp add: py_slice_def)

lemma slice_append_mid:
  "length xs = a \<Longrightarrow> length ys = b - a \<Longrightarrow> py_slice a b (xs @ ys @ zs) = ys"
  by (simp add: py_slice_def)

fun be_bytes :: "nat \<Rightarrow> int \<Rightarrow> bytes" where
  "be_bytes 0 v = []"
| "be_bytes (Suc n) v = be_bytes n (v div 256) @ [word_of_int v]"

definition be_int :: "bytes \<Rightarrow> int" where
  "be_int bs = foldl (\<lambda>a b. a * 256 + uint b) 0 bs"

definition le_bytes :: "nat \<Rightarrow> int \<Rightarrow> bytes" where
  "le_bytes n v = rev (be_bytes n v)"

definition le_int :: "bytes \<Rightarrow> int" where
  "le_int bs = be_int (rev bs)"

lemma length_be_bytes [simp]: "length (be_bytes n v) = n"
  by (induction n arbitrary: v) auto

lemma length_le_bytes [simp]: "length (le_bytes n v) = n"
  by (simp add: le_bytes_def)

lemma be_int_Nil [simp]: "be_int [] = 0"
  by (simp add: be_int_def)

lemma be_int_snoc [simp]: "be_int (bs @ [b]) = be_int bs * 256 + uint b"
  by (simp add: be_int_def)

lemma uint_byte_range: "0 \<le> uint (b :: byte)" "uint (b :: byte) < 256"
  using unsigned_greater_eq [of b] unsigned_less [of b] by simp_all

lemma be_int_range: "0 \<le> be_int bs" "be_int bs < 256 ^ length bs"
proof (induction bs rule: rev_induct)
  case (snoc b bs)
  case 1
  show ?case using snoc.IH(1) uint_byte_range(1) [of b] by simp
next
  case (snoc b bs)
  case 2
  have "be_int bs + 1 \<le> 256 ^ length bs" using snoc.IH(2) by simp
  then have "(be_int bs + 1) * 256 \<le> 256 ^ length bs * 256" by (rule mult_right_mono) simp
  then show ?case using uint_byte_range(2) [of b] by (simp add: algebra_simps)
qed simp_all

lemma be_int_be_bytes: "0 \<le> v \<Longrightarrow> v < 256 ^ n \<Longrightarrow> be_int (be_bytes n v) = v"
proof (induction n arbitrary: v)
  case (Suc n)
  have "v div 256 < 256 ^ n"
    using Suc.prems by (simp add: div_less_iff_less_mult mult.commute)
  with Suc have "be_int (be_bytes n (v div 256)) = v div 256" by simp
  then show ?case by (simp add: uint_word_of_int)
qed simp

lemma be_bytes_be_int: "length bs = n \<Longrightarrow> be_bytes n (be_int bs) = bs"
proof (induction bs arbitrary: n rule: rev_induct)
  case (snoc b bs)
  then obtain m where n: "n = Suc m" "length bs = m" by auto
  have "(be_int bs * 256 + uint b) div 256 = be_int bs"
    using uint_byte_range [of b] by simp
  moreover have "word_of_int (be_int bs * 256 + uint b) = b"
  proof -
    have "(word_of_int (be_int bs * 256) :: byte) = 0"
      by (rule word_of_int_eq_iff [THEN iffD2, of _ 0, simplified]) (simp add: take_bit_eq_mod)
    then show ?thesis by (simp flip: wi_hom_add)
  qed
  ultimately show ?case using snoc n by simp
qed simp

lemma le_int_le_bytes: "0 \<le> v \<Longrightarrow> v < 256 ^ n \<Longrightarrow> le_int (le_bytes n v) = v"
  by (simp add: le_int_def le_bytes_def be_int_be_bytes)

lemma le_int_range: "0 \<le> le_int bs" "le_int bs < 256 ^ length bs"
  using be_int_range [of "rev bs"] by (simp_all add: le_int_def)

lemma le_bytes_le_int: "length bs = n \<Longrightarrow> le_bytes n (le_int bs) = bs"
  by (simp add: le_int_def le_bytes_def be_bytes_be_int)

end
