(* ===== verification/Errors.thy ===== *)
theory Errors
  imports Prelude
begin

text \<open>
  The exception classes of \<open>exceptions.py\<close>, the built-in exceptions the modelled code
  raises or catches, and the subclass relation its \<open>except\<close> clauses depend on. An operation
  that raises returns \<open>Inl e\<close>; the message text is not modelled.
\<close>

datatype exn =
    BitChatError | ConfigurationError | CommandError | ApplicationError
  | ProtocolError | PacketEncodingError | PacketDecodingError
  | UnsupportedProtocolVersionError | UnknownMessageTypeError | InvalidPacketError
  | InsufficientPacketBytesError | CorruptPaddingError
  | FragmentationError | InvalidFragmentError | FragmentPayloadError
  | FragmentLimitExceededError
  | CryptoError | InvalidKeyError | InvalidSignatureError | SignatureVerificationError
  | KeyExchangeError | EncryptionError | DecryptionError | InvalidNonceError
  | NoiseError | NoiseStateError | ReplayError | AuthenticationError
  | BLEError | BLEScanError | BLEConnectionError | BLEGATTError | BLETransportError
  | FramingError
  | PyException | ValueError | TypeError | KeyError | IndexError | StructError
  | RuntimeError | AssertionError | ConnectionError | OSError | TimeoutError
  | ArithmeticError | OverflowError | UnicodeDecodeError | JSONDecodeError
  | InvalidTag | InvalidSignature

text \<open>The base class each \<open>class\<close> statement names.\<close>

fun base_class :: "exn \<Rightarrow> exn option" where
  "base_class BitChatError = Some PyException"
| "base_class ConfigurationError = Some BitChatError"
| "base_class CommandError = Some BitChatError"
| "base_class ApplicationError = Some BitChatError"
| "base_class ProtocolError = Some BitChatError"
| "base_class PacketEncodingError = Some ProtocolError"
| "base_class PacketDecodingError = Some ProtocolError"
| "base_class UnsupportedProtocolVersionError = Some PacketDecodingError"
| "base_class UnknownMessageTypeError = Some PacketDecodingError"
| "base_class InvalidPacketError = Some ProtocolError"
| "base_class InsufficientPacketBytesError = Some PacketDecodingError"
| "base_class CorruptPaddingError = Some PacketDecodingError"
| "base_class FragmentationError = Some ProtocolError"
| "base_class InvalidFragmentError = Some FragmentationError"
| "base_class FragmentPayloadError = Some InvalidFragmentError"
| "base_class FragmentLimitExceededError = Some FragmentationError"
| "base_class CryptoError = Some BitChatError"
| "base_class InvalidKeyError = Some CryptoError"
| "base_class InvalidSignatureError = Some CryptoError"
| "base_class SignatureVerificationError = Some CryptoError"
| "base_class KeyExchangeError = Some CryptoError"
| "base_class EncryptionError = Some CryptoError"
| "base_class DecryptionError = Some CryptoError"
| "base_class InvalidNonceError = Some CryptoError"
| "base_class NoiseError = Some CryptoError"
| "base_class NoiseStateError = Some NoiseError"
| "base_class ReplayError = Some NoiseError"
| "base_class AuthenticationError = Some NoiseError"
| "base_class BLEError = Some BitChatError"
| "base_class BLEScanError = Some BLEError"
| "base_class BLEConnectionError = Some BLEError"
| "base_class BLEGATTError = Some BLEError"
| "base_class BLETransportError = Some BLEError"
| "base_class FramingError = Some PyException"
| "base_class PyException = None"
| "base_class ValueError = Some PyException"
| "base_class TypeError = Some PyException"
| "base_class KeyError = Some PyException"
| "base_class IndexError = Some PyException"
| "base_class StructError = Some PyException"
| "base_class RuntimeError = Some PyException"
| "base_class AssertionError = Some PyException"
| "base_class OSError = Some PyException"
| "base_class ConnectionError = Some OSError"
| "base_class TimeoutError = Some OSError"
| "base_class ArithmeticError = Some PyException"
| "base_class OverflowError = Some ArithmeticError"
| "base_class UnicodeDecodeError = Some ValueError"
| "base_class JSONDecodeError = Some ValueError"
| "base_class InvalidTag = Some PyException"
| "base_class InvalidSignature = Some PyException"

text \<open>
  \<open>isinstance(e, c)\<close>: the class \<open>c\<close> is reached from \<open>e\<close> along at most six base-class
  links. The class tree is four links deep (\<open>FragmentPayloadError\<close> to \<open>PyException\<close> takes
  five steps), so the bound is enough; \<open>isinstance_unfold\<close> below shows it.
\<close>

fun isinstance_upto :: "nat \<Rightarrow> exn \<Rightarrow> exn \<Rightarrow> bool" where
  "isinstance_upto 0 e c = (e = c)"
| "isinstance_upto (Suc n) e c =
     (e = c \<or> (case base_class e of None \<Rightarrow> False | Some b \<Rightarrow> isinstance_upto n b c))"

definition isinstance :: "exn \<Rightarrow> exn \<Rightarrow> bool" where
  "isinstance e c = isinstance_upto 6 e c"

text \<open>\<open>try: r except cs as e: raise e' from e\<close>.\<close>

fun except_as :: "exn list \<Rightarrow> exn \<Rightarrow> exn + 'a \<Rightarrow> exn + 'a" where
  "except_as cs e' (Inr x) = Inr x"
| "except_as cs e' (Inl e) = (if list_ex (isinstance e) cs then Inl e' else Inl e)"

lemma except_as_Inr [simp]: "except_as cs e' r = Inr x \<longleftrightarrow> r = Inr x"
  by (cases r) auto

lemma isinstance_refl [simp]: "isinstance e e"
  by (simp add: isinstance_def eval_nat_numeral)

lemma isinstance_Exception: "isinstance e PyException"
  by (cases e) (simp_all add: isinstance_def eval_nat_numeral)

text \<open>The bound is enough: the walk satisfies the unbounded equation of \<open>isinstance\<close>.\<close>

lemma isinstance_unfold:
  "isinstance e c \<longleftrightarrow>
     e = c \<or> (case base_class e of None \<Rightarrow> False | Some b \<Rightarrow> isinstance b c)"
  by (cases e) (auto simp: isinstance_def eval_nat_numeral)

lemma decoding_errors [simp]:
  "isinstance UnsupportedProtocolVersionError PacketDecodingError"
  "isinstance UnknownMessageTypeError PacketDecodingError"
  "isinstance InsufficientPacketBytesError PacketDecodingError"
  "isinstance CorruptPaddingError PacketDecodingError"
  by (simp_all add: isinstance_def eval_nat_numeral)

lemma not_decoding_errors [simp]:
  "\<not> isinstance InvalidPacketError PacketDecodingError"
  "\<not> isinstance StructError PacketDecodingError"
  "\<not> isinstance ValueError PacketDecodingError"
  by (simp_all add: isinstance_def eval_nat_numeral)

lemma fragment_errors [simp]:
  "isinstance FragmentPayloadError InvalidFragmentError"
  "isinstance InvalidFragmentError FragmentationError"
  "isinstance FragmentLimitExceededError FragmentationError"
  "isinstance FragmentPayloadError FragmentationError"
  "\<not> isinstance FragmentLimitExceededError InvalidFragmentError"
  by (simp_all add: isinstance_def eval_nat_numeral)

lemma noise_errors [simp]:
  "isinstance NoiseStateError NoiseError"
  "isinstance ReplayError NoiseError"
  "isinstance AuthenticationError NoiseError"
  "isinstance NoiseError CryptoError"
  "\<not> isinstance InvalidNonceError DecryptionError"
  "\<not> isinstance InvalidNonceError NoiseError"
  by (simp_all add: isinstance_def eval_nat_numeral)

end
