(* ===== verification/Py_Str.thy ===== *)
theory Py_Str
  imports Prelude "HOL-Library.Sublist" "HOL-Library.List_Lexorder" "HOL-Library.Char_ord"
begin

text \<open>
  The Python string operations the code uses, on \<open>string\<close> (a list of code points below 256):
  \<open>strip\<close>, \<open>lower\<close>, \<open>split\<close>, \<open>startswith\<close>, \<open>in\<close>, lexicographic comparison, and the
  hexadecimal conversions \<open>bytes.hex\<close> and \<open>bytes.fromhex\<close>.
\<close>

definition py_isspace :: "char \<Rightarrow> bool" where
  "py_isspace c = (let n = (of_char c :: nat) in
     (9 \<le> n \<and> n \<le> 13) \<or> (28 \<le> n \<and> n \<le> 32) \<or> n = 133 \<or> n = 160)"

definition py_lstrip :: "string \<Rightarrow> string" where
  "py_lstrip s = dropWhile py_isspace s"

definition py_strip :: "string \<Rightarrow> string" where
  "py_strip s = rev (dropWhile py_isspace (rev (dropWhile py_isspace s)))"

definition py_lower_char :: "char \<Rightarrow> char" where
  "py_lower_char c = (let n = (of_char c :: nat) in
     if (65 \<le> n \<and> n \<le> 90) \<or> (192 \<le> n \<and> n \<le> 222 \<and> n \<noteq> 215)
     then char_of (n + 32) else c)"

definition py_lower :: "string \<Rightarrow> string" where
  "py_lower s = map py_lower_char s"

definition py_startswith :: "string \<Rightarrow> string \<Rightarrow> bool" where
  "py_startswith s p = (take (length p) s = p)"

text \<open>\<open>p in s\<close> for strings.\<close>

fun py_in :: "string \<Rightarrow> string \<Rightarrow> bool" where
  "py_in p [] = (p = [])"
| "py_in p (c # cs) = (py_startswith (c # cs) p \<or> py_in p cs)"

text \<open>\<open>s.split()\<close> and \<open>s.split(maxsplit=n)\<close> on runs of white space.\<close>

function py_split :: "string \<Rightarrow> string list" where
  "py_split s = (let t = dropWhile py_isspace s in
     if t = [] then []
     else takeWhile (\<lambda>c. \<not> py_isspace c) t # py_split (dropWhile (\<lambda>c. \<not> py_isspace c) t))"
  by pat_completeness auto
termination
proof (relation "measure length", goal_cases)
  case (2 s t)
  obtain c cs where t: "t = c # cs" using 2(2) by (auto simp: neq_Nil_conv)
  have "\<not> py_isspace c" using 2(1) t hd_dropWhile [of py_isspace s] by (metis list.discI list.sel(1))
  then have "length (dropWhile (\<lambda>c. \<not> py_isspace c) t) \<le> length cs"
    by (simp add: t length_dropWhile_le)
  moreover have "length t \<le> length s" using 2(1) by (simp add: length_dropWhile_le)
  ultimately show ?case using t by simp
qed simp

declare py_split.simps [simp del]

fun py_split_max :: "nat \<Rightarrow> string \<Rightarrow> string list" where
  "py_split_max 0 s = (let t = dropWhile py_isspace s in if t = [] then [] else [t])"
| "py_split_max (Suc n) s = (let t = dropWhile py_isspace s in
     if t = [] then []
     else takeWhile (\<lambda>c. \<not> py_isspace c) t
            # py_split_max n (dropWhile (\<lambda>c. \<not> py_isspace c) t))"

text \<open>\<open>s.split(sep, 1)\<close> for a one-character separator: the part before the first \<open>sep\<close>.\<close>

definition py_before :: "char \<Rightarrow> string \<Rightarrow> string" where
  "py_before sep s = takeWhile (\<lambda>c. c \<noteq> sep) s"

text \<open>\<open>s.encode("utf-8")\<close> of code points below 256.\<close>

definition py_utf8_char :: "char \<Rightarrow> bytes" where
  "py_utf8_char c = (let n = (of_char c :: nat) in
     if n < 128 then [word_of_nat n] else [word_of_nat (192 + n div 64), word_of_nat (128 + n mod 64)])"

definition py_utf8 :: "string \<Rightarrow> bytes" where
  "py_utf8 s = concat (map py_utf8_char s)"

subsection \<open>Hexadecimal\<close>

definition hexdigit :: "nat \<Rightarrow> char" where
  "hexdigit n = ''0123456789abcdef'' ! n"

definition byte_hex :: "byte \<Rightarrow> string" where
  "byte_hex b = [hexdigit (unat b div 16), hexdigit (unat b mod 16)]"

definition bytes_hex :: "bytes \<Rightarrow> string" where
  "bytes_hex bs = concat (map byte_hex bs)"

definition hexval :: "char \<Rightarrow> nat option" where
  "hexval c = (let n = (of_char c :: nat) in
     if 48 \<le> n \<and> n \<le> 57 then Some (n - 48)
     else if 97 \<le> n \<and> n \<le> 102 then Some (n - 87)
     else if 65 \<le> n \<and> n \<le> 70 then Some (n - 55)
     else None)"

definition ascii_space :: "char \<Rightarrow> bool" where
  "ascii_space c = (let n = (of_char c :: nat) in (9 \<le> n \<and> n \<le> 13) \<or> n = 32)"

text \<open>\<open>bytes.fromhex\<close>: pairs of hexadecimal digits, with ASCII white space between pairs.
  \<open>None\<close> stands for the \<open>ValueError\<close> it raises.\<close>

fun bytes_fromhex :: "string \<Rightarrow> bytes option" where
  "bytes_fromhex [] = Some []"
| "bytes_fromhex [c] = (if ascii_space c then Some [] else None)"
| "bytes_fromhex (c # d # cs) =
     (if ascii_space c then bytes_fromhex (d # cs)
      else case (hexval c, hexval d) of
             (Some h, Some l) \<Rightarrow> map_option ((#) (word_of_nat (16 * h + l))) (bytes_fromhex cs)
           | _ \<Rightarrow> None)"

lemma less_16_cases: "(n::nat) < 16 \<Longrightarrow> n \<in> {0, 1, 2, 3, 4, 5, 6, 7} \<union> (+) 8 ` {0, 1, 2, 3, 4, 5, 6, 7}"
  by (simp add: image_iff) presburger

lemma hexval_hexdigit [simp]: "n < 16 \<Longrightarrow> hexval (hexdigit n) = Some n"
  by (drule less_16_cases) (auto simp: hexval_def hexdigit_def)

lemma ascii_space_hexdigit [simp]: "n < 16 \<Longrightarrow> \<not> ascii_space (hexdigit n)"
  by (drule less_16_cases) (auto simp: ascii_space_def hexdigit_def)

lemma py_lower_hexdigit [simp]: "n < 16 \<Longrightarrow> py_lower_char (hexdigit n) = hexdigit n"
  by (drule less_16_cases) (auto simp: py_lower_char_def hexdigit_def)

lemma py_isspace_hexdigit [simp]: "n < 16 \<Longrightarrow> \<not> py_isspace (hexdigit n)"
  by (drule less_16_cases) (auto simp: py_isspace_def hexdigit_def)

lemma unat_byte_less: "unat (b :: byte) < 256"
  using unsigned_less [of b] by simp

lemma byte_nibbles [simp]:
  "unat (b :: byte) div 16 < 16" "unat (b :: byte) mod 16 < 16"
  using unat_byte_less [of b] by (simp_all add: div_less_iff_less_mult)

lemma bytes_hex_Nil [simp]: "bytes_hex [] = []"
  by (simp add: bytes_hex_def)

lemma bytes_hex_Cons:
  "bytes_hex (b # bs) = hexdigit (unat b div 16) # hexdigit (unat b mod 16) # bytes_hex bs"
  by (simp add: bytes_hex_def byte_hex_def)

lemma length_bytes_hex [simp, wire_simps]: "length (bytes_hex bs) = 2 * length bs"
  by (induction bs) (simp_all add: bytes_hex_Cons)

lemma fromhex_hex [simp]: "bytes_fromhex (bytes_hex bs) = Some bs"
  by (induction bs) (simp_all add: bytes_hex_Cons)

lemma bytes_hex_inject [simp]: "bytes_hex a = bytes_hex b \<longleftrightarrow> a = b"
  using fromhex_hex by (metis option.inject)

lemma py_lower_bytes_hex [simp]: "py_lower (bytes_hex bs) = bytes_hex bs"
  by (induction bs) (simp_all add: bytes_hex_Cons py_lower_def)

lemma no_space_bytes_hex: "c \<in> set (bytes_hex bs) \<Longrightarrow> \<not> py_isspace c"
  by (induction bs) (auto simp: bytes_hex_Cons)

lemma dropWhile_no_hit: "(\<And>x. x \<in> set xs \<Longrightarrow> \<not> P x) \<Longrightarrow> dropWhile P xs = xs"
  by (cases xs) auto

lemma py_strip_no_space:
  assumes "\<And>c. c \<in> set s \<Longrightarrow> \<not> py_isspace c"
  shows "py_strip s = s"
proof -
  have "dropWhile py_isspace s = s" "dropWhile py_isspace (rev s) = rev s"
    using assms by (auto intro!: dropWhile_no_hit)
  then show ?thesis by (simp add: py_strip_def)
qed

lemma py_strip_bytes_hex [simp]: "py_strip (bytes_hex bs) = bytes_hex bs"
  by (rule py_strip_no_space) (rule no_space_bytes_hex)

lemma py_lower_char_idem [simp]: "py_lower_char (py_lower_char c) = py_lower_char c"
proof -
  let ?n = "of_char c :: nat"
  have n: "?n < 256" by simp
  show ?thesis
  proof (cases "(65 \<le> ?n \<and> ?n \<le> 90) \<or> (192 \<le> ?n \<and> ?n \<le> 222 \<and> ?n \<noteq> 215)")
    case True
    then have "of_char (char_of (?n + 32) :: char) = ?n + 32"
      by (auto simp: of_char_of)
    with True show ?thesis by (auto simp: py_lower_char_def Let_def)
  next
    case False
    then show ?thesis by (auto simp: py_lower_char_def Let_def)
  qed
qed

lemma py_lower_idem [simp]: "py_lower (py_lower s) = py_lower s"
  by (simp add: py_lower_def)

lemma py_lower_Nil [simp]: "py_lower [] = []"
  by (simp add: py_lower_def)

lemma py_lower_eq_Nil [simp]: "py_lower s = [] \<longleftrightarrow> s = []"
  by (simp add: py_lower_def)

lemma length_py_lower [simp]: "length (py_lower s) = length s"
  by (simp add: py_lower_def)

lemma py_startswith_Nil [simp]: "py_startswith s []"
  by (simp add: py_startswith_def)

lemma py_startswith_iff: "py_startswith s p \<longleftrightarrow> prefix p s"
  by (auto simp: py_startswith_def prefix_def) (metis append_take_drop_id)

lemma py_in_iff: "py_in p s \<longleftrightarrow> sublist p s"
  by (induction s) (auto simp: py_startswith_iff sublist_Cons_right)

end
