(* ===== verification/Packet.thy ===== *)
theory Packet
  imports Errors Py_Str
begin

text \<open>
  \<open>protocol/constants.py\<close> and \<open>protocol/packet.py\<close>: the wire constants, the message types,
  the immutable packet record, the validation its constructor performs, the factory
  \<open>create\<close>, and the hexadecimal form of peer identifiers.
\<close>

subsection \<open>Constants\<close>

definition CURRENT_PROTOCOL_VERSION :: int where [simp]: "CURRENT_PROTOCOL_VERSION = 1"

definition FLAG_HAS_RECIPIENT :: int where [simp]: "FLAG_HAS_RECIPIENT = 1"
definition FLAG_HAS_SIGNATURE :: int where [simp]: "FLAG_HAS_SIGNATURE = 2"
definition FLAG_IS_COMPRESSED :: int where [simp]: "FLAG_IS_COMPRESSED = 4"

definition SENDER_ID_SIZE :: nat where [simp]: "SENDER_ID_SIZE = 8"
definition RECIPIENT_ID_SIZE :: nat where [simp]: "RECIPIENT_ID_SIZE = 8"
definition SIGNATURE_SIZE :: nat where [simp]: "SIGNATURE_SIZE = 64"
definition BROADCAST_RECIPIENT :: bytes where "BROADCAST_RECIPIENT = replicate 8 255"

definition FIXED_HEADER_SIZE :: nat where [simp]: "FIXED_HEADER_SIZE = 14"
definition MINIMUM_PACKET_SIZE :: nat where
  [simp]: "MINIMUM_PACKET_SIZE = FIXED_HEADER_SIZE + SENDER_ID_SIZE"

definition BLOCK_SIZES :: "nat list" where "BLOCK_SIZES = [256, 512, 1024, 2048]"
definition PADDING_OVERHEAD_ESTIMATE :: nat where [simp]: "PADDING_OVERHEAD_ESTIMATE = 16"
definition MAX_PADDING_SIZE :: nat where [simp]: "MAX_PADDING_SIZE = 255"

definition FRAGMENTATION_THRESHOLD :: nat where [simp]: "FRAGMENTATION_THRESHOLD = 500"
definition FRAGMENT_CHUNK_SIZE :: nat where [simp]: "FRAGMENT_CHUNK_SIZE = 150"
definition FRAGMENT_HEADER_SIZE :: nat where [simp]: "FRAGMENT_HEADER_SIZE = 13"
definition FRAGMENT_ID_SIZE :: nat where [simp]: "FRAGMENT_ID_SIZE = 8"

definition MAX_FRAGMENTS_PER_ASSEMBLY :: nat where [simp]: "MAX_FRAGMENTS_PER_ASSEMBLY = 1000"
definition MAX_ACTIVE_ASSEMBLIES :: nat where [simp]: "MAX_ACTIVE_ASSEMBLIES = 100"
definition MAX_REASSEMBLED_BYTES :: nat where [simp]: "MAX_REASSEMBLED_BYTES = 150000"

datatype MessageType =
    Announce | KeyExchange | Leave | Message
  | FragmentStart | FragmentContinue | FragmentEnd
  | ChannelAnnounce | ChannelRetention | DeliveryAck | DeliveryStatusRequest | ReadReceipt
  | NoiseHandshakeInit | NoiseHandshakeResp | NoiseEncrypted | NoiseIdentityAnnounce
  | VersionHello | VersionAck | ProtocolAck | ProtocolNack | SystemValidation
  | HandshakeRequest

fun mt_value :: "MessageType \<Rightarrow> int" where
  "mt_value Announce = 0x01"
| "mt_value KeyExchange = 0x02"
| "mt_value Leave = 0x03"
| "mt_value Message = 0x04"
| "mt_value FragmentStart = 0x05"
| "mt_value FragmentContinue = 0x06"
| "mt_value FragmentEnd = 0x07"
| "mt_value ChannelAnnounce = 0x08"
| "mt_value ChannelRetention = 0x09"
| "mt_value DeliveryAck = 0x0A"
| "mt_value DeliveryStatusRequest = 0x0B"
| "mt_value ReadReceipt = 0x0C"
| "mt_value NoiseHandshakeInit = 0x10"
| "mt_value NoiseHandshakeResp = 0x11"
| "mt_value NoiseEncrypted = 0x12"
| "mt_value NoiseIdentityAnnounce = 0x13"
| "mt_value VersionHello = 0x20"
| "mt_value VersionAck = 0x21"
| "mt_value ProtocolAck = 0x22"
| "mt_value ProtocolNack = 0x23"
| "mt_value SystemValidation = 0x24"
| "mt_value HandshakeRequest = 0x25"

definition message_types :: "MessageType list" where
  "message_types = [Announce, KeyExchange, Leave, Message,
     FragmentStart, FragmentContinue, FragmentEnd,
     ChannelAnnounce, ChannelRetention, DeliveryAck, DeliveryStatusRequest, ReadReceipt,
     NoiseHandshakeInit, NoiseHandshakeResp, NoiseEncrypted, NoiseIdentityAnnounce,
     VersionHello, VersionAck, ProtocolAck, ProtocolNack, SystemValidation, HandshakeRequest]"

text \<open>\<open>MessageType(n)\<close>; \<open>None\<close> is its \<open>ValueError\<close>.\<close>

definition MessageType_of :: "int \<Rightarrow> MessageType option" where
  "MessageType_of n = find (\<lambda>m. mt_value m = n) message_types"

lemma MessageType_of_value [simp]: "MessageType_of (mt_value m) = Some m"
  by (cases m) (simp_all add: MessageType_of_def message_types_def)

lemma MessageType_of_Some: "MessageType_of n = Some m \<Longrightarrow> mt_value m = n"
  unfolding MessageType_of_def by (auto simp: find_Some_iff)

lemma mt_value_range: "0 < mt_value m" "mt_value m < 256"
  by (cases m; simp)+

subsection \<open>The packet\<close>

record packet =
  version :: int
  message_type :: MessageType
  ttl :: int
  timestamp :: int
  flags :: int
  sender_id :: bytes
  recipient_id :: "bytes option"
  payload :: bytes
  signature :: "bytes option"

definition has_recipient :: "packet \<Rightarrow> bool" where
  "has_recipient p = (flags p AND FLAG_HAS_RECIPIENT \<noteq> 0)"

definition has_signature :: "packet \<Rightarrow> bool" where
  "has_signature p = (flags p AND FLAG_HAS_SIGNATURE \<noteq> 0)"

definition is_compressed :: "packet \<Rightarrow> bool" where
  "is_compressed p = (flags p AND FLAG_IS_COMPRESSED \<noteq> 0)"

text \<open>The checks of \<open>__post_init__\<close>, in its order. The \<open>isinstance\<close> tests are the types
  of the record's fields.\<close>

definition BitchatPacket :: "packet \<Rightarrow> exn + packet" where
  "BitchatPacket p =
     (if \<not> (0 \<le> version p \<and> version p \<le> 255) then Inl InvalidPacketError
      else if \<not> (0 \<le> ttl p \<and> ttl p \<le> 255) then Inl InvalidPacketError
      else if \<not> (0 \<le> timestamp p \<and> timestamp p \<le> 0xFFFFFFFFFFFFFFFF) then Inl InvalidPacketError
      else if \<not> (0 \<le> flags p \<and> flags p \<le> 255) then Inl InvalidPacketError
      else if length (sender_id p) \<noteq> SENDER_ID_SIZE then Inl InvalidPacketError
      else case
        (case recipient_id p of
           Some r \<Rightarrow>
             if length r \<noteq> RECIPIENT_ID_SIZE then Some InvalidPacketError
             else if flags p AND FLAG_HAS_RECIPIENT = 0 then Some InvalidPacketError
             else None
         | None \<Rightarrow>
             if flags p AND FLAG_HAS_RECIPIENT \<noteq> 0 then Some InvalidPacketError else None)
      of Some e \<Rightarrow> Inl e
       | None \<Rightarrow>
          if length (payload p) > 65535 then Inl InvalidPacketError
          else case
            (case signature p of
               Some s \<Rightarrow>
                 if length s \<noteq> SIGNATURE_SIZE then Some InvalidPacketError
                 else if flags p AND FLAG_HAS_SIGNATURE = 0 then Some InvalidPacketError
                 else None
             | None \<Rightarrow>
                 if flags p AND FLAG_HAS_SIGNATURE \<noteq> 0 then Some InvalidPacketError else None)
          of Some e \<Rightarrow> Inl e
           | None \<Rightarrow> Inr p)"

text \<open>
  \<open>create\<close>: the flags are computed from the optional fields. \<open>now\<close> is \<open>int(time.time() * 1000)\<close>.
\<close>

definition BitchatPacket_create ::
  "int \<Rightarrow> MessageType \<Rightarrow> bytes \<Rightarrow> bytes \<Rightarrow> bytes option \<Rightarrow> bytes option \<Rightarrow> int \<Rightarrow> int option
     \<Rightarrow> int \<Rightarrow> bool \<Rightarrow> exn + packet" where
  "BitchatPacket_create now mt sender pl recipient sig tt ts ver compressed =
     (let ts' = (case ts of None \<Rightarrow> now | Some t \<Rightarrow> t);
          f0 = 0;
          f1 = (if recipient \<noteq> None then f0 OR FLAG_HAS_RECIPIENT else f0);
          f2 = (if sig \<noteq> None then f1 OR FLAG_HAS_SIGNATURE else f1);
          f3 = (if compressed then f2 OR FLAG_IS_COMPRESSED else f2)
      in BitchatPacket
           \<lparr>version = ver, message_type = mt, ttl = tt, timestamp = ts', flags = f3,
            sender_id = sender, recipient_id = recipient, payload = pl, signature = sig\<rparr>)"

text \<open>The defaults of \<open>create\<close> that the session coordinator relies on.\<close>

definition create_default ::
  "int \<Rightarrow> MessageType \<Rightarrow> bytes \<Rightarrow> bytes \<Rightarrow> bytes option \<Rightarrow> exn + packet" where
  "create_default now mt sender pl recipient =
     BitchatPacket_create now mt sender pl recipient None 7 None CURRENT_PROTOCOL_VERSION False"

text \<open>\<open>dataclasses.replace(packet, ttl=t)\<close> runs the constructor again.\<close>

definition replace_ttl :: "packet \<Rightarrow> int \<Rightarrow> exn + packet" where
  "replace_ttl p t = BitchatPacket (p\<lparr>ttl := t\<rparr>)"

definition sender_id_hex :: "packet \<Rightarrow> string" where
  "sender_id_hex p = bytes_hex (sender_id p)"

definition recipient_id_hex :: "packet \<Rightarrow> string option" where
  "recipient_id_hex p = map_option bytes_hex (recipient_id p)"

definition peer_id_to_hex :: "bytes \<Rightarrow> exn + string" where
  "peer_id_to_hex peer_id =
     (if length peer_id \<noteq> SENDER_ID_SIZE then Inl InvalidPacketError else Inr (bytes_hex peer_id))"

definition peer_id_from_hex :: "string \<Rightarrow> exn + bytes" where
  "peer_id_from_hex hex_str =
     (case bytes_fromhex hex_str of
        None \<Rightarrow> Inl InvalidPacketError
      | Some raw \<Rightarrow>
          if length raw \<noteq> SENDER_ID_SIZE then Inl InvalidPacketError else Inr raw)"

subsection \<open>The type invariant of a packet\<close>

definition valid_packet :: "packet \<Rightarrow> bool" where
  "valid_packet p \<longleftrightarrow>
     0 \<le> version p \<and> version p < 256 \<and> 0 \<le> ttl p \<and> ttl p < 256 \<and>
     0 \<le> timestamp p \<and> timestamp p < 2 ^ 64 \<and> 0 \<le> flags p \<and> flags p < 256 \<and>
     length (sender_id p) = 8 \<and>
     (has_recipient p \<longleftrightarrow> recipient_id p \<noteq> None) \<and>
     (\<forall>r \<in> set_option (recipient_id p). length r = 8) \<and>
     length (payload p) \<le> 65535 \<and>
     (has_signature p \<longleftrightarrow> signature p \<noteq> None) \<and>
     (\<forall>s \<in> set_option (signature p). length s = 64)"

lemma BitchatPacket_eq:
  "BitchatPacket p = (if valid_packet p then Inr p else Inl InvalidPacketError)"
  by (auto simp: BitchatPacket_def valid_packet_def has_recipient_def has_signature_def
           split: option.splits)

lemma BitchatPacket_Inr [simp]: "BitchatPacket p = Inr q \<longleftrightarrow> q = p \<and> valid_packet p"
  by (auto simp: BitchatPacket_eq)

lemma valid_packet_ttl [simp]:
  "valid_packet p \<Longrightarrow> valid_packet (p\<lparr>ttl := t\<rparr>) \<longleftrightarrow> 0 \<le> t \<and> t < 256"
  by (auto simp: valid_packet_def has_recipient_def has_signature_def)

lemma replace_ttl_valid:
  "valid_packet p \<Longrightarrow> 0 \<le> t \<Longrightarrow> t < 256 \<Longrightarrow> replace_ttl p t = Inr (p\<lparr>ttl := t\<rparr>)"
  by (simp add: replace_ttl_def)

text \<open>The flags \<open>create\<close> computes, for every choice of the three options.\<close>

definition create_flags :: "bool \<Rightarrow> bool \<Rightarrow> bool \<Rightarrow> int" where
  "create_flags r s c = (if r then 1 else 0) + (if s then 2 else 0) + (if c then 4 else 0)"

lemma create_flags_eq:
  "(let f0 = 0; f1 = (if r then f0 OR FLAG_HAS_RECIPIENT else f0);
        f2 = (if s then f1 OR FLAG_HAS_SIGNATURE else f1)
    in if c then f2 OR FLAG_IS_COMPRESSED else f2) = create_flags r s c"
  by (cases r; cases s; cases c) (simp_all add: create_flags_def)

lemma create_flags_bits [simp]:
  "create_flags r s c AND 1 = (if r then 1 else 0)"
  "create_flags r s c AND 2 = (if s then 2 else 0)"
  "create_flags r s c AND 4 = (if c then 4 else 0)"
  "0 \<le> create_flags r s c" "create_flags r s c < 256"
  by (cases r; cases s; cases c; simp add: create_flags_def)+

end
