(* ===== verification/Interfaces.thy ===== *)
theory Interfaces
  imports Prelude
begin

text \<open>
  The interfaces between components, as locales, and the lemmas their clients use: machines that
  keep an invariant while they answer a list of events, caches that remember what they accepted,
  and sliding-window rate limiters. Each locale is interpreted on the model's own definitions in
  the theory of the component that provides the operations.
\<close>

subsection \<open>Runs of a machine\<close>

fun run :: "('s \<Rightarrow> 'e \<Rightarrow> 's \<times> 'o) \<Rightarrow> 's \<Rightarrow> 'e list \<Rightarrow> 's \<times> 'o list" where
  "run step s [] = (s, [])"
| "run step s (e # es) =
     (let (s1, out) = step s e; (s2, outs) = run step s1 es in (s2, out # outs))"

lemma fst_run_Cons [simp]: "fst (run step s (e # es)) = fst (run step (fst (step s e)) es)"
  by (simp add: split_def Let_def)

lemma snd_run_Cons [simp]: "snd (run step s (e # es)) = snd (step s e) # snd (run step (fst (step s e)) es)"
  by (simp add: split_def Let_def)

declare run.simps(2) [simp del]

lemma length_run [simp]: "length (snd (run step s es)) = length es"
  by (induction es arbitrary: s) auto

lemma fst_run_append: "fst (run step s (es @ fs)) = fst (run step (fst (run step s es)) fs)"
  by (induction es arbitrary: s) auto

lemma snd_run_append:
  "snd (run step s (es @ fs)) = snd (run step s es) @ snd (run step (fst (run step s es)) fs)"
  by (induction es arbitrary: s) auto

text \<open>The events that were answered with \<open>True\<close>.\<close>

definition answered :: "'e list \<Rightarrow> bool list \<Rightarrow> 'e list" where
  "answered es outs = map fst (filter snd (zip es outs))"

lemma answered_Nil [simp]: "answered [] outs = []"
  by (simp add: answered_def)

lemma answered_Cons [simp]:
  "answered (e # es) (b # bs) = (if b then e # answered es bs else answered es bs)"
  by (simp add: answered_def)

lemma answered_append:
  "length es = length bs \<Longrightarrow> answered (es @ es') (bs @ bs') = answered es bs @ answered es' bs'"
  by (simp add: answered_def)

lemma set_answered: "set (answered es bs) \<subseteq> set es"
  by (auto simp: answered_def dest: set_zip_leftD)

subsection \<open>A machine with an invariant\<close>

locale machine =
  fixes step :: "'s \<Rightarrow> 'e \<Rightarrow> 's \<times> 'o" and inv :: "'s \<Rightarrow> bool"
  assumes step_inv: "inv s \<Longrightarrow> inv (fst (step s e))"
begin

lemma run_inv: "inv s \<Longrightarrow> inv (fst (run step s es))"
  by (induction es arbitrary: s) (auto intro: step_inv)

lemma run_output:
  assumes "inv s" and "\<And>s e. inv s \<Longrightarrow> Q (snd (step s e))" and "out \<in> set (snd (run step s es))"
  shows "Q out"
  using assms(1,3) by (induction es arbitrary: s) (auto intro: step_inv assms(2))

end

subsection \<open>Caches that remember what they accepted\<close>

text \<open>
  An event is a time and an item; \<open>True\<close> means that the item was accepted as new.
  \<open>remembered i t n s\<close>: the identity \<open>i\<close>, accepted at time \<open>t\<close> or later, is in the cache with at
  most \<open>n\<close> newer entries.
\<close>

locale remembering_cache = machine step inv
  for step :: "'s \<Rightarrow> real \<times> 'x \<Rightarrow> 's \<times> bool" and inv :: "'s \<Rightarrow> bool" +
  fixes ident :: "'x \<Rightarrow> 'i" and remembered :: "'i \<Rightarrow> real \<Rightarrow> nat \<Rightarrow> 's \<Rightarrow> bool"
    and capacity :: "'s \<Rightarrow> nat" and lifetime :: "'s \<Rightarrow> real"
  assumes step_limits: "inv s \<Longrightarrow> capacity (fst (step s e)) = capacity s \<and> lifetime (fst (step s e)) = lifetime s"
    and accept_remembers: "inv s \<Longrightarrow> snd (step s (t, x)) \<Longrightarrow> remembered (ident x) t 0 (fst (step s (t, x)))"
    and keeps: "inv s \<Longrightarrow> remembered i t0 n s \<Longrightarrow> Suc n < capacity s \<Longrightarrow>
      (ident x = i \<Longrightarrow> t - t0 \<le> lifetime s) \<Longrightarrow> remembered i t0 (Suc n) (fst (step s (t, x)))"
    and refuses: "inv s \<Longrightarrow> remembered (ident x) t0 n s \<Longrightarrow> t - t0 \<le> lifetime s \<Longrightarrow> \<not> snd (step s (t, x))"
begin

lemma not_again:
  assumes "inv s" "remembered i t0 n s" "n + length es \<le> capacity s" "n < capacity s"
    and "\<forall>e \<in> set es. ident (snd e) = i \<longrightarrow> fst e - t0 \<le> lifetime s"
  shows "\<forall>e \<in> set (answered es (snd (run step s es))). ident (snd e) \<noteq> i"
  using assms
proof (induction es arbitrary: s n)
  case (Cons e es)
  obtain t x where e: "e = (t, x)" by (cases e)
  have head: "ident x = i \<Longrightarrow> \<not> snd (step s (t, x))"
    using refuses [of s x t0 n t] Cons.prems e by auto
  show ?case
  proof (cases "es = []")
    case True
    with head e show ?thesis by auto
  next
    case False
    then have less: "Suc n < capacity s" using Cons.prems(3) by (cases es) auto
    let ?s = "fst (step s (t, x))"
    note lims = step_limits [OF Cons.prems(1), of "(t, x)"]
    have "remembered i t0 (Suc n) ?s"
      using Cons.prems e by (intro keeps [OF _ _ less]) auto
    then have "\<forall>e \<in> set (answered es (snd (run step ?s es))). ident (snd e) \<noteq> i"
      using Cons.prems lims less by (intro Cons.IH) (auto intro: step_inv)
    with head e show ?thesis by auto
  qed
qed simp

lemma accepted_at_most_once:
  assumes "inv s" "length es \<le> capacity s"
    and "\<And>e e'. e \<in> set es \<Longrightarrow> e' \<in> set es \<Longrightarrow> fst e' - fst e \<le> lifetime s"
  shows "distinct (map (ident \<circ> snd) (answered es (snd (run step s es))))"
  using assms
proof (induction es arbitrary: s)
  case (Cons e es)
  obtain t x where e: "e = (t, x)" by (cases e)
  let ?s = "fst (step s (t, x))"
  note lims = step_limits [OF Cons.prems(1), of "(t, x)"]
  have inv: "inv ?s" using Cons.prems(1) by (rule step_inv)
  have near: "\<forall>e' \<in> set es. fst e' - t \<le> lifetime s"
    using Cons.prems(3) [of "(t, x)"] e by auto
  have tl: "distinct (map (ident \<circ> snd) (answered es (snd (run step ?s es))))"
    using Cons.prems lims by (intro Cons.IH inv) auto
  show ?case
  proof (cases "snd (step s (t, x))")
    case True
    have "\<forall>e \<in> set (answered es (snd (run step ?s es))). ident (snd e) \<noteq> ident x"
      by (rule not_again [OF inv accept_remembers [OF Cons.prems(1) True]])
         (use Cons.prems(2) lims near in auto)
    with True tl e show ?thesis by (auto simp: comp_def image_iff)
  next
    case False
    with tl e show ?thesis by (simp add: comp_def)
  qed
qed simp

end

subsection \<open>Sliding-window rate limiters\<close>

text \<open>
  \<open>log s k\<close>: the times of the accepted requests of \<open>k\<close> the limiter still holds. The client sees
  each step only through the log restricted to the last \<open>window\<close> seconds.
\<close>

definition recent :: "real \<Rightarrow> real \<Rightarrow> real list \<Rightarrow> real list" where
  "recent window now ts = filter (\<lambda>t. now - t \<le> window) ts"

lemma recent_recent: "now \<le> now' \<Longrightarrow> recent w now' (recent w now ts) = recent w now' ts"
  by (auto simp: recent_def intro!: filter_cong)

locale sliding_window = machine step inv
  for step :: "'s \<Rightarrow> real \<times> 'k \<Rightarrow> 's \<times> bool" and inv :: "'s \<Rightarrow> bool" +
  fixes log :: "'s \<Rightarrow> 'k \<Rightarrow> real list" and window :: real and limit :: "'s \<Rightarrow> nat"
  assumes limit_step: "inv s \<Longrightarrow> limit (fst (step s e)) = limit s"
    and other: "inv s \<Longrightarrow> k' \<noteq> k \<Longrightarrow> recent window now (log (fst (step s (now, k))) k') = recent window now (log s k')"
    and accepted: "inv s \<Longrightarrow> snd (step s (now, k)) \<Longrightarrow>
      recent window now (log (fst (step s (now, k))) k) = recent window now (log s k) @ [now]"
    and below: "inv s \<Longrightarrow> snd (step s (now, k)) \<Longrightarrow> length (recent window now (log s k)) < max 1 (limit s)"
    and refused: "inv s \<Longrightarrow> \<not> snd (step s (now, k)) \<Longrightarrow>
      recent window now (log (fst (step s (now, k))) k) = recent window now (log s k)"
    and window: "0 \<le> window"
begin

definition times :: "'k \<Rightarrow> (real \<times> 'k) list \<Rightarrow> bool list \<Rightarrow> real list" where
  "times k es outs = map fst (filter (\<lambda>e. snd e = k) (answered es outs))"

lemma log_run:
  assumes "inv s" "sorted (map fst (es @ [(now, k)]))"
  shows "recent window now (log (fst (run step s es)) k)
     = recent window now (log s k @ times k es (snd (run step s es)))"
  using assms(2)
proof (induction es arbitrary: now rule: rev_induct)
  case Nil
  then show ?case by (simp add: times_def)
next
  case (snoc e es)
  obtain t k' where e: "e = (t, k')" by (cases e)
  let ?s = "fst (run step s es)"
  have t: "t \<le> now" and sorted: "sorted (map fst (es @ [(t, k)]))"
    using snoc.prems e by (auto simp: sorted_append)
  have IH: "recent window t (log ?s k) = recent window t (log s k @ times k es (snd (run step s es)))"
    by (rule snoc.IH [OF sorted])
  have now: "recent window now l = recent window now (recent window t l)" for l
    by (rule recent_recent [OF t, symmetric])
  have step: "recent window t (log (fst (step ?s (t, k'))) k) =
      recent window t (log ?s k) @ (if k' = k \<and> snd (step ?s (t, k')) then [t] else [])"
    using other [of ?s k k' t] accepted [of ?s t k] refused [of ?s t k] run_inv [OF assms(1)] by auto
  have ans: "times k (es @ [e]) (snd (run step s (es @ [e]))) = times k es (snd (run step s es))
      @ (if k' = k \<and> snd (step ?s (t, k')) then [t] else [])"
    by (simp add: times_def answered_append snd_run_append e)
  have "recent window t (times k es (snd (run step s es)) @ (if k' = k \<and> snd (step ?s (t, k')) then [t] else []))
     = recent window t (times k es (snd (run step s es))) @ (if k' = k \<and> snd (step ?s (t, k')) then [t] else [])"
    using window by (simp add: recent_def)
  then have "recent window t (log (fst (step ?s (t, k'))) k) =
      recent window t (log s k @ times k (es @ [e]) (snd (run step s (es @ [e]))))"
    unfolding step IH ans by (simp add: recent_def)
  then show ?case using now e by (simp add: fst_run_append) metis
qed

lemma limit_run: "inv s \<Longrightarrow> limit (fst (run step s es)) = limit s"
  by (induction es arbitrary: s) (auto simp: limit_step step_inv)

text \<open>From an empty log, at most \<open>limit\<close> requests of one key are accepted in any window.\<close>

lemma window_bound:
  assumes "inv s" "sorted (map fst es)" "log s k = []"
  shows "length (filter (\<lambda>t. t0 \<le> t \<and> t \<le> t0 + window) (times k es (snd (run step s es)))) \<le> max 1 (limit s)"
  using assms(2)
proof (induction es rule: rev_induct)
  case (snoc e es)
  obtain t k' where e: "e = (t, k')" by (cases e)
  let ?s = "fst (run step s es)" and ?in = "\<lambda>t. t0 \<le> t \<and> t \<le> t0 + window"
  let ?ts = "times k es (snd (run step s es))"
  have ans: "times k (es @ [e]) (snd (run step s (es @ [e]))) =
      ?ts @ (if k' = k \<and> snd (step ?s (t, k')) then [t] else [])"
    by (simp add: times_def answered_append snd_run_append e)
  have sorted: "sorted (map fst es)" "sorted (map fst (es @ [(t, k)]))"
    using snoc.prems e by (simp_all add: sorted_append)
  show ?case
  proof (cases "k' = k \<and> snd (step ?s (t, k')) \<and> ?in t")
    case True
    have "filter ?in ?ts = filter ?in (recent window t ?ts)"
      using True by (auto simp: recent_def intro!: filter_cong)
    then have "length (filter ?in ?ts) \<le> length (recent window t ?ts)"
      by (metis length_filter_le)
    also have "recent window t ?ts = recent window t (log ?s k)"
      using log_run [OF assms(1) sorted(2)] assms(3) by simp
    also have "length \<dots> < max 1 (limit s)" using below [of ?s t k] True run_inv [OF assms(1)]
      unfolding limit_run [OF assms(1)] by blast
    finally show ?thesis using True by (simp add: ans)
  next
    case False
    then have "filter ?in (times k (es @ [e]) (snd (run step s (es @ [e])))) = filter ?in ?ts"
      by (auto simp: ans)
    with snoc.IH [OF sorted(1)] show ?thesis by simp
  qed
qed (simp add: times_def)

end

subsection \<open>Machines that spend an identity once\<close>

text \<open>
  A step may use up an identity (the counter of an accepted message, the nonce of a sealed one),
  read from its event and its answer. What is spent stays spent, and only a fresh identity is used.
\<close>

locale one_shot = machine step inv
  for step :: "'s \<Rightarrow> 'e \<Rightarrow> 's \<times> 'o" and inv :: "'s \<Rightarrow> bool" +
  fixes ident :: "'e \<Rightarrow> 'o \<Rightarrow> 'i option" and spent :: "'s \<Rightarrow> 'i set"
  assumes spent_mono: "inv s \<Longrightarrow> spent s \<subseteq> spent (fst (step s e))"
    and fresh: "inv s \<Longrightarrow> ident e (snd (step s e)) = Some i \<Longrightarrow> i \<notin> spent s"
    and spends: "inv s \<Longrightarrow> ident e (snd (step s e)) = Some i \<Longrightarrow> i \<in> spent (fst (step s e))"
begin

definition used :: "'e list \<Rightarrow> 'o list \<Rightarrow> 'i list" where
  "used es outs = List.map_filter (\<lambda>(e, out). ident e out) (zip es outs)"

lemma used_Cons: "used (e # es) (out # outs) =
    (case ident e out of None \<Rightarrow> used es outs | Some i \<Rightarrow> i # used es outs)"
  by (simp add: used_def map_filter_simps split: option.split)

lemma used_once:
  "inv s \<Longrightarrow> distinct (used es (snd (run step s es))) \<and> set (used es (snd (run step s es))) \<inter> spent s = {}"
proof (induction es arbitrary: s)
  case Nil
  then show ?case by (simp add: used_def map_filter_simps)
next
  case (Cons e es)
  let ?s = "fst (step s e)"
  have inv: "inv ?s" using Cons.prems by (rule step_inv)
  note IH = Cons.IH [OF inv]
  show ?case
  proof (cases "ident e (snd (step s e))")
    case None
    with IH spent_mono [OF Cons.prems, of e] show ?thesis by (auto simp: used_Cons)
  next
    case (Some i)
    have "i \<notin> spent s" "i \<in> spent ?s"
      using fresh [OF Cons.prems Some] spends [OF Cons.prems Some] by auto
    with IH spent_mono [OF Cons.prems, of e] Some show ?thesis by (auto simp: used_Cons)
  qed
qed

end

subsection \<open>Codecs\<close>

text \<open>An encoder and a decoder with the round trip on the messages that are \<open>good\<close>.\<close>

locale message_codec =
  fixes encode :: "'a \<Rightarrow> 'e + bytes" and decode :: "bytes \<Rightarrow> 'e + 'a" and good :: "'a \<Rightarrow> bool"
  assumes roundtrip: "good x \<Longrightarrow> \<exists>w. encode x = Inr w \<and> decode w = Inr x"
begin

lemma encode_injective: "good x \<Longrightarrow> good y \<Longrightarrow> encode x = encode y \<Longrightarrow> x = y"
  using roundtrip [of x] roundtrip [of y] by auto

lemma encode_list:
  "\<forall>x \<in> set xs. good x \<Longrightarrow> \<exists>ws. map encode xs = map Inr ws \<and> map decode ws = map Inr xs"
proof (induction xs)
  case (Cons x xs)
  obtain w where "encode x = Inr w" "decode w = Inr x" using roundtrip Cons.prems by auto
  moreover obtain ws where "map encode xs = map Inr ws" "map decode ws = map Inr xs" using Cons by auto
  ultimately show ?case by (intro exI [of _ "w # ws"]) simp
qed simp

end

end
