(* ===== verification/Codec.thy ===== *)
theory Codec
  imports Packet Interfaces
begin

text \<open>
  \<open>protocol/encoder.py\<close> and \<open>protocol/decoder.py\<close>: the wire form of a packet, random block
  padding, and the defensive decoder. \<open>os.urandom\<close> is the argument \<open>urandom\<close>, which maps the
  number of octets asked for to the octets returned.
\<close>

definition urandom_ok :: "(nat \<Rightarrow> bytes) \<Rightarrow> bool" where
  "urandom_ok urandom \<longleftrightarrow> (\<forall>n. length (urandom n) = n)"

subsection \<open>Encoder\<close>

fun first_block :: "nat \<Rightarrow> nat list \<Rightarrow> nat option" where
  "first_block total_size [] = None"
| "first_block total_size (b # bs) = (if total_size \<le> b then Some b else first_block total_size bs)"

definition get_optimal_block_size :: "nat \<Rightarrow> nat" where
  "get_optimal_block_size unpadded_size =
     (let total_size = unpadded_size + PADDING_OVERHEAD_ESTIMATE in
      case first_block total_size BLOCK_SIZES of Some b \<Rightarrow> b | None \<Rightarrow> unpadded_size)"

definition pad_packet_data :: "(nat \<Rightarrow> bytes) \<Rightarrow> bytes \<Rightarrow> nat option \<Rightarrow> bytes" where
  "pad_packet_data urandom data target =
     (let target_size = (case target of None \<Rightarrow> get_optimal_block_size (length data)
                                      | Some t \<Rightarrow> t)
      in if length data \<ge> target_size then data
         else let padding_needed = target_size - length data in
           if padding_needed > MAX_PADDING_SIZE then data
           else data @ urandom (padding_needed - 1) @ [word_of_nat padding_needed])"

text \<open>\<open>struct.pack(">BBBQBH", ...)\<close>, which raises \<open>struct.error\<close> outside the field widths.\<close>

definition pack_header :: "int \<Rightarrow> int \<Rightarrow> int \<Rightarrow> int \<Rightarrow> int \<Rightarrow> nat \<Rightarrow> exn + bytes" where
  "pack_header ver mt tt ts fl plen =
     (if 0 \<le> ver \<and> ver < 256 \<and> 0 \<le> mt \<and> mt < 256 \<and> 0 \<le> tt \<and> tt < 256 \<and>
         0 \<le> ts \<and> ts < 2 ^ 64 \<and> 0 \<le> fl \<and> fl < 256 \<and> plen < 65536
      then Inr (be_bytes 1 ver @ be_bytes 1 mt @ be_bytes 1 tt @ be_bytes 8 ts @
                be_bytes 1 fl @ be_bytes 2 (int plen))
      else Inl StructError)"

definition encode_packet :: "(nat \<Rightarrow> bytes) \<Rightarrow> packet \<Rightarrow> bool \<Rightarrow> exn + bytes" where
  "encode_packet urandom p add_padding =
     (case pack_header (version p) (mt_value (message_type p)) (ttl p) (timestamp p) (flags p)
             (length (payload p)) of
        Inl e \<Rightarrow> Inl PacketEncodingError
      | Inr header \<Rightarrow>
         (case (if has_recipient p then
                  (case recipient_id p of
                     None \<Rightarrow> Inl PacketEncodingError
                   | Some r \<Rightarrow> if length r \<noteq> RECIPIENT_ID_SIZE then Inl PacketEncodingError
                              else Inr r)
                else Inr []) of
            Inl e \<Rightarrow> Inl e
          | Inr rpart \<Rightarrow>
             (case (if has_signature p then
                      (case signature p of
                         None \<Rightarrow> Inl PacketEncodingError
                       | Some s \<Rightarrow> if length s \<noteq> SIGNATURE_SIZE then Inl PacketEncodingError
                                  else Inr s)
                    else Inr []) of
                Inl e \<Rightarrow> Inl e
              | Inr spart \<Rightarrow>
                 let raw_unpadded = concat [header, sender_id p, rpart, payload p, spart] in
                 if add_padding then Inr (pad_packet_data urandom raw_unpadded None)
                 else Inr raw_unpadded)))"

subsection \<open>Decoder\<close>

definition unpad_packet_data :: "bytes \<Rightarrow> bytes" where
  "unpad_packet_data data =
     (if data = [] then []
      else let padding_length = unat (last data) in
        if padding_length = 0 \<or> padding_length > length data \<or> padding_length > MAX_PADDING_SIZE
        then data
        else take (length data - padding_length) data)"

text \<open>\<open>struct.unpack(">BBBQBH", ...)\<close>, which raises \<open>struct.error\<close> unless given 14 octets.\<close>

definition unpack_header :: "bytes \<Rightarrow> exn + int \<times> int \<times> int \<times> int \<times> int \<times> nat" where
  "unpack_header d =
     (if length d \<noteq> 14 then Inl StructError
      else Inr (be_int (py_slice 0 1 d), be_int (py_slice 1 2 d), be_int (py_slice 2 3 d),
                be_int (py_slice 3 11 d), be_int (py_slice 11 12 d), nat (be_int (py_slice 12 14 d))))"

definition expected_unpadded_size :: "bool \<Rightarrow> bool \<Rightarrow> nat \<Rightarrow> nat" where
  "expected_unpadded_size hr hs payload_len =
     FIXED_HEADER_SIZE + SENDER_ID_SIZE + (if hr then RECIPIENT_ID_SIZE else 0)
     + payload_len + (if hs then SIGNATURE_SIZE else 0)"

text \<open>Step 6 of \<open>decode_packet\<close>: the length check and the strict padding check.\<close>

definition strip_padding :: "nat \<Rightarrow> bytes \<Rightarrow> exn + bytes" where
  "strip_padding expected data =
     (if length data < expected then Inl PacketDecodingError
      else if length data = expected then Inr data
      else let padding_needed = length data - expected; last_byte = unat (last data) in
        if padding_needed > MAX_PADDING_SIZE \<or> last_byte \<noteq> padding_needed \<or> last_byte = 0
        then Inl PacketDecodingError
        else Inr (take expected data))"

text \<open>Step 7: the fields behind the fixed header.\<close>

definition extract_fields ::
  "bool \<Rightarrow> bool \<Rightarrow> nat \<Rightarrow> bytes \<Rightarrow> bytes \<times> bytes option \<times> bytes \<times> bytes option" where
  "extract_fields hr hs payload_len unpadded =
     (let o1 = FIXED_HEADER_SIZE;
          sender = py_slice o1 (o1 + SENDER_ID_SIZE) unpadded;
          o2 = o1 + SENDER_ID_SIZE;
          recipient = (if hr then Some (py_slice o2 (o2 + RECIPIENT_ID_SIZE) unpadded) else None);
          o3 = (if hr then o2 + RECIPIENT_ID_SIZE else o2);
          pl = py_slice o3 (o3 + payload_len) unpadded;
          o4 = o3 + payload_len;
          sig = (if hs then Some (py_slice o4 (o4 + SIGNATURE_SIZE) unpadded) else None)
      in (sender, recipient, pl, sig))"

definition decode_packet :: "bytes \<Rightarrow> exn + packet" where
  "decode_packet data =
     (if length data < MINIMUM_PACKET_SIZE then Inl PacketDecodingError
      else case unpack_header (take FIXED_HEADER_SIZE data) of
        Inl e \<Rightarrow> Inl PacketDecodingError
      | Inr (ver, msg_type_raw, tt, ts, fl, payload_len) \<Rightarrow>
         if ver \<noteq> CURRENT_PROTOCOL_VERSION then Inl UnsupportedProtocolVersionError
         else case MessageType_of msg_type_raw of
           None \<Rightarrow> Inl UnknownMessageTypeError
         | Some mt \<Rightarrow>
            let hr = (fl AND FLAG_HAS_RECIPIENT \<noteq> 0); hs = (fl AND FLAG_HAS_SIGNATURE \<noteq> 0) in
            (case strip_padding (expected_unpadded_size hr hs payload_len) data of
               Inl e \<Rightarrow> Inl e
             | Inr unpadded \<Rightarrow>
                (case extract_fields hr hs payload_len unpadded of
                   (sender, recipient, pl, sig) \<Rightarrow>
                     (case BitchatPacket
                        \<lparr>version = ver, message_type = mt, ttl = tt, timestamp = ts, flags = fl,
                         sender_id = sender, recipient_id = recipient, payload = pl,
                         signature = sig\<rparr> of
                        Inl e \<Rightarrow> Inl PacketDecodingError
                      | Inr p \<Rightarrow> Inr p))))"

subsection \<open>The canonical wire form\<close>

text \<open>The layout of the protocol document, as a specification of the encoder.\<close>

definition wire_header :: "packet \<Rightarrow> bytes" where
  "wire_header p = be_bytes 1 (version p) @ be_bytes 1 (mt_value (message_type p)) @
     be_bytes 1 (ttl p) @ be_bytes 8 (timestamp p) @ be_bytes 1 (flags p) @
     be_bytes 2 (int (length (payload p)))"

definition wire :: "packet \<Rightarrow> bytes" where
  "wire p = wire_header p @ sender_id p @ (case recipient_id p of None \<Rightarrow> [] | Some r \<Rightarrow> r) @
     payload p @ (case signature p of None \<Rightarrow> [] | Some s \<Rightarrow> s)"

definition padding_ok :: "bytes \<Rightarrow> bool" where
  "padding_ok pad \<longleftrightarrow> pad = [] \<or> (length pad \<le> 255 \<and> unat (last pad) = length pad)"

lemma padding_ok_Nil [simp]: "padding_ok []"
  by (simp add: padding_ok_def)

lemma length_wire_header [simp, wire_simps]: "length (wire_header p) = 14"
  by (simp add: wire_header_def)

lemma length_wire:
  "valid_packet p \<Longrightarrow>
     length (wire p) = expected_unpadded_size (has_recipient p) (has_signature p) (length (payload p))"
  by (auto simp: wire_def valid_packet_def expected_unpadded_size_def split: option.splits)

lemma encode_unpadded: "valid_packet p \<Longrightarrow> encode_packet urandom p False = Inr (wire p)"
  using mt_value_range [of "message_type p"]
  by (auto simp: encode_packet_def pack_header_def wire_def wire_header_def valid_packet_def
           split: option.splits)

lemma encode_padded:
  "valid_packet p \<Longrightarrow> encode_packet urandom p True = Inr (pad_packet_data urandom (wire p) None)"
  using mt_value_range [of "message_type p"]
  by (auto simp: encode_packet_def pack_header_def wire_def wire_header_def valid_packet_def
           split: option.splits)

lemma unat_of_nat_byte [simp]: "n < 256 \<Longrightarrow> unat (word_of_nat n :: byte) = n"
  by (simp add: unat_of_nat)

lemma padding_ok_delimited:
  "urandom_ok urandom \<Longrightarrow> 0 < k \<Longrightarrow> k \<le> 255 \<Longrightarrow>
     padding_ok (urandom (k - 1) @ [word_of_nat k])"
  by (simp add: urandom_ok_def padding_ok_def)

lemma pad_packet_data_form:
  assumes "urandom_ok urandom"
  shows "\<exists>pad. pad_packet_data urandom data t = data @ pad \<and> padding_ok pad"
proof -
  let ?t = "case t of None \<Rightarrow> get_optimal_block_size (length data) | Some t \<Rightarrow> t"
  show ?thesis
  proof (cases "length data \<ge> ?t \<or> ?t - length data > MAX_PADDING_SIZE")
    case True
    then have "pad_packet_data urandom data t = data @ []"
      by (auto simp: pad_packet_data_def Let_def)
    then show ?thesis using padding_ok_Nil by blast
  next
    case False
    then have "pad_packet_data urandom data t =
        data @ (urandom (?t - length data - 1) @ [word_of_nat (?t - length data)])"
      by (auto simp: pad_packet_data_def Let_def simp del: of_nat_diff)
    moreover have "padding_ok (urandom (?t - length data - 1) @ [word_of_nat (?t - length data)])"
      using False by (intro padding_ok_delimited [OF assms]) auto
    ultimately show ?thesis by blast
  qed
qed

lemma encode_form:
  assumes "valid_packet p" "urandom_ok urandom"
  shows "\<exists>pad. encode_packet urandom p b = Inr (wire p @ pad) \<and> padding_ok pad"
proof (cases b)
  case True
  then show ?thesis
    using pad_packet_data_form [OF assms(2)] assms(1) by (simp add: encode_padded)
next
  case False
  then show ?thesis using assms(1) by (auto simp: encode_unpadded)
qed


subsection \<open>Decoding the wire form\<close>

lemma slice_0: "py_slice 0 b xs = take b xs"
  by (simp add: py_slice_def)

lemma unpack_wire_header:
  assumes "valid_packet p"
  shows "unpack_header (wire_header p) =
    Inr (version p, mt_value (message_type p), ttl p, timestamp p, flags p, length (payload p))"
proof -
  let ?v = "be_bytes 1 (version p)" and ?m = "be_bytes 1 (mt_value (message_type p))"
    and ?t = "be_bytes 1 (ttl p)" and ?s = "be_bytes 8 (timestamp p)"
    and ?f = "be_bytes 1 (flags p)" and ?l = "be_bytes 2 (int (length (payload p)))"
  have sl: "py_slice 0 1 (wire_header p) = ?v" "py_slice 1 2 (wire_header p) = ?m"
    "py_slice 2 3 (wire_header p) = ?t" "py_slice 3 11 (wire_header p) = ?s"
    "py_slice 11 12 (wire_header p) = ?f" "py_slice 12 14 (wire_header p) = ?l"
    by (simp_all add: wire_header_def py_slice_def)
  have "be_int ?v = version p" "be_int ?m = mt_value (message_type p)" "be_int ?t = ttl p"
    "be_int ?s = timestamp p" "be_int ?f = flags p" "be_int ?l = int (length (payload p))"
    using assms mt_value_range [of "message_type p"]
    by (intro be_int_be_bytes; simp add: valid_packet_def)+
  then show ?thesis unfolding unpack_header_def sl by simp
qed

lemma strip_padding_append:
  "padding_ok pad \<Longrightarrow> strip_padding (length w) (w @ pad) = Inr w"
  by (cases "pad = []") (auto simp: strip_padding_def padding_ok_def)

lemma strip_padding_Inr:
  assumes "strip_padding n d = Inr w"
  shows "length w = n \<and> (\<exists>pad. d = w @ pad \<and> padding_ok pad)"
proof (cases "length d = n")
  case True
  with assms show ?thesis by (auto simp: strip_padding_def intro: exI [of _ "[]"])
next
  case False
  let ?pad = "drop n d"
  from False assms have w: "w = take n d" "n < length d" "length d - n \<le> 255"
    "unat (last d) = length d - n"
    by (auto simp: strip_padding_def Let_def split: if_splits)
  then have "d = w @ ?pad" "padding_ok ?pad" "length w = n"
    by (auto simp: padding_ok_def)
  then show ?thesis by blast
qed

lemma extract_fields_append:
  assumes "length H = 14" "length S = 8" "length P = n"
    and "length R = (if hr then 8 else 0)" "length G = (if hs then 64 else 0)"
  shows "extract_fields hr hs n (H @ S @ R @ P @ G) =
    (S, if hr then Some R else None, P, if hs then Some G else None)"
  using assms by (cases hr; cases hs) (simp_all add: extract_fields_def py_slice_def)

lemma extract_wire:
  assumes "valid_packet p"
  shows "extract_fields (has_recipient p) (has_signature p) (length (payload p)) (wire p) =
    (sender_id p, recipient_id p, payload p, signature p)"
  unfolding wire_def
  by (subst extract_fields_append) (use assms in \<open>auto simp: valid_packet_def split: option.splits\<close>)

lemma decode_wire:
  assumes "valid_packet p" "version p = 1" "padding_ok pad"
  shows "decode_packet (wire p @ pad) = Inr p"
proof -
  have len: "22 \<le> length (wire p)"
    using assms(1) by (simp add: length_wire expected_unpadded_size_def)
  have hdr: "take 14 (wire p) = wire_header p"
    by (simp add: wire_def)
  have rec: "\<lparr>version = 1, message_type = message_type p, ttl = ttl p,
      timestamp = timestamp p, flags = flags p, sender_id = sender_id p,
      recipient_id = recipient_id p, payload = payload p, signature = signature p\<rparr> = p"
    using assms(2) by (cases p) simp
  have strip: "strip_padding (expected_unpadded_size (has_recipient p) (has_signature p)
      (length (payload p))) (wire p @ pad) = Inr (wire p)"
    using strip_padding_append [OF assms(3), of "wire p"] assms(1) by (simp add: length_wire)
  show ?thesis
    using len assms strip extract_wire [OF assms(1)]
    by (simp add: decode_packet_def hdr unpack_wire_header Let_def rec BitchatPacket_eq
        has_recipient_def has_signature_def)
qed

lemma slice_drop: "a \<le> b \<Longrightarrow> py_slice a b d @ drop b d = drop a d"
  by (metis append_take_drop_id drop_drop le_add_diff_inverse2 py_slice_def)

lemma unpack_header_Inr:
  assumes "unpack_header d = Inr (ver, mt, tt, ts, fl, n)"
  shows "d = be_bytes 1 ver @ be_bytes 1 mt @ be_bytes 1 tt @ be_bytes 8 ts @ be_bytes 1 fl @
      be_bytes 2 (int n)"
proof -
  from assms have l: "length d = 14" and f: "ver = be_int (py_slice 0 1 d)"
    "mt = be_int (py_slice 1 2 d)" "tt = be_int (py_slice 2 3 d)" "ts = be_int (py_slice 3 11 d)"
    "fl = be_int (py_slice 11 12 d)" "int n = be_int (py_slice 12 14 d)"
    by (auto simp: unpack_header_def be_int_range split: if_splits)
  have b: "be_bytes 1 ver = py_slice 0 1 d" "be_bytes 1 mt = py_slice 1 2 d"
    "be_bytes 1 tt = py_slice 2 3 d" "be_bytes 8 ts = py_slice 3 11 d" "be_bytes 1 fl = py_slice 11 12 d"
    "be_bytes 2 (int n) = py_slice 12 14 d"
    unfolding f using l by (intro be_bytes_be_int; simp)+
  have "py_slice 12 14 d = drop 12 d" using l slice_drop [of 12 14 d] by simp
  moreover have "py_slice 11 12 d @ drop 12 d = drop 11 d" "py_slice 3 11 d @ drop 11 d = drop 3 d"
    "py_slice 2 3 d @ drop 3 d = drop 2 d" "py_slice 1 2 d @ drop 2 d = drop 1 d"
    "py_slice 0 1 d @ drop 1 d = d"
    using slice_drop [of 0 1 d] by (simp_all add: slice_drop)
  ultimately show ?thesis unfolding b by simp
qed

lemma extract_fields_Inr:
  assumes "extract_fields hr hs n w = (S, R, P, G)"
    and "length w = expected_unpadded_size hr hs n"
  shows "w = take 14 w @ S @ (case R of None \<Rightarrow> [] | Some r \<Rightarrow> r) @ P @
      (case G of None \<Rightarrow> [] | Some g \<Rightarrow> g)"
    and "length S = 8" "length P = n"
    and "(R \<noteq> None) = hr" "(G \<noteq> None) = hs"
proof -
  let ?o3 = "if hr then 30 else 22"
  have f: "S = py_slice 14 22 w" "R = (if hr then Some (py_slice 22 30 w) else None)"
    "P = py_slice ?o3 (?o3 + n) w"
    "G = (if hs then Some (py_slice (?o3 + n) (?o3 + n + 64) w) else None)"
    using assms(1) by (auto simp: extract_fields_def Let_def)
  have l: "length w = ?o3 + n + (if hs then 64 else 0)"
    using assms(2) by (simp add: expected_unpadded_size_def)
  have "(case G of None \<Rightarrow> [] | Some g \<Rightarrow> g) = drop (?o3 + n) w"
    using l slice_drop [of "?o3 + n" "?o3 + n + 64" w] by (simp add: f)
  moreover have "P @ drop (?o3 + n) w = drop ?o3 w" by (simp add: f slice_drop)
  moreover have "(case R of None \<Rightarrow> [] | Some r \<Rightarrow> r) @ drop ?o3 w = drop 22 w"
    by (simp add: f slice_drop)
  moreover have "S @ drop 22 w = drop 14 w" by (simp add: f slice_drop)
  ultimately show "w = take 14 w @ S @ (case R of None \<Rightarrow> [] | Some r \<Rightarrow> r) @ P @
      (case G of None \<Rightarrow> [] | Some g \<Rightarrow> g)"
    by simp
  show "length S = 8" "length P = n" using l by (auto simp: f)
  show "(R \<noteq> None) = hr" "(G \<noteq> None) = hs" by (simp_all add: f)
qed

lemma decode_sound:
  assumes "decode_packet d = Inr p"
  shows "valid_packet p \<and> version p = 1 \<and> (\<exists>pad. d = wire p @ pad \<and> padding_ok pad)"
proof -
  from assms obtain ver mtr tt ts fl n mt w S R P G where
    un: "unpack_header (take 14 d) = Inr (ver, mtr, tt, ts, fl, n)" and v: "ver = 1"
    and mt: "MessageType_of mtr = Some mt"
    and st: "strip_padding (expected_unpadded_size (fl AND 1 \<noteq> 0) (fl AND 2 \<noteq> 0) n) d = Inr w"
    and ex: "extract_fields (fl AND 1 \<noteq> 0) (fl AND 2 \<noteq> 0) n w = (S, R, P, G)"
    and p: "p = \<lparr>version = ver, message_type = mt, ttl = tt, timestamp = ts, flags = fl,
         sender_id = S, recipient_id = R, payload = P, signature = G\<rparr>" and ok: "valid_packet p"
    by (auto simp: decode_packet_def Let_def split: if_splits sum.splits option.splits prod.splits)
  from strip_padding_Inr [OF st] obtain pad where
    lw: "length w = expected_unpadded_size (fl AND 1 \<noteq> 0) (fl AND 2 \<noteq> 0) n"
    and d: "d = w @ pad" "padding_ok pad" by blast
  note fields = extract_fields_Inr [OF ex lw]
  have "take 14 d = take 14 w" using d(1) lw by (simp add: expected_unpadded_size_def)
  then have "take 14 w = wire_header p"
    using unpack_header_Inr [OF un] fields(3) MessageType_of_Some [OF mt] by (simp add: wire_header_def p)
  then have "w = wire p" using fields(1) by (simp add: wire_def p)
  with d ok v show ?thesis by (auto simp: p)
qed

subsection \<open>The length of an encoded packet\<close>

definition padded_size :: "nat \<Rightarrow> nat" where
  "padded_size n = (let t = get_optimal_block_size n in
     if t \<le> n \<or> t - n > 255 then n else t)"

lemma length_pad_packet_data [wire_simps]:
  "urandom_ok urandom \<Longrightarrow> length (pad_packet_data urandom d None) = padded_size (length d)"
  by (auto simp: pad_packet_data_def padded_size_def urandom_ok_def Let_def)

lemma length_encode [wire_simps]:
  assumes "valid_packet p" "urandom_ok urandom" "encode_packet urandom p b = Inr w"
  shows "length w = (if b then padded_size (length (wire p)) else length (wire p))"
  using assms by (cases b) (auto simp: encode_padded encode_unpadded length_pad_packet_data)

lemma get_optimal_block_size_cases:
  "get_optimal_block_size n =
     (if n \<le> 240 then 256 else if n \<le> 496 then 512 else if n \<le> 1008 then 1024
      else if n \<le> 2032 then 2048 else n)"
  by (simp add: get_optimal_block_size_def BLOCK_SIZES_def)

lemma padded_size_cases:
  "padded_size n =
     (if n = 0 then 0 else if n \<le> 240 then 256 else if 257 \<le> n \<and> n \<le> 496 then 512
      else if 769 \<le> n \<and> n \<le> 1008 then 1024
      else if 1793 \<le> n \<and> n \<le> 2032 then 2048 else n)"
  by (auto simp: padded_size_def get_optimal_block_size_cases Let_def)

lemma padded_size_ge: "n \<le> padded_size n"
  by (auto simp: padded_size_cases)

text \<open>The encoder without padding, as the TCP transport uses it, and the decoder are a codec.\<close>

interpretation plain: message_codec "\<lambda>p. encode_packet urandom p False" decode_packet
  "\<lambda>p. valid_packet p \<and> version p = 1" for urandom
proof
  fix p assume "valid_packet p \<and> version p = 1"
  then show "\<exists>w. encode_packet urandom p False = Inr w \<and> decode_packet w = Inr p"
    using decode_wire [of p "[]"] by (simp add: encode_unpadded padding_ok_def)
qed

subsection \<open>Properties\<close>

definition zeros :: "nat \<Rightarrow> bytes" where
  "zeros n = replicate n 0"

lemma urandom_ok_zeros [simp]: "urandom_ok zeros"
  by (simp add: urandom_ok_def zeros_def)

definition sample_packet :: packet where
  "sample_packet = \<lparr>version = 1, message_type = Message, ttl = 7, timestamp = 1000, flags = 1,
     sender_id = replicate 8 1, recipient_id = Some (replicate 8 2), payload = [104, 105],
     signature = None\<rparr>"

lemma valid_sample [simp]: "valid_packet sample_packet"
  by (simp add: valid_packet_def sample_packet_def has_recipient_def has_signature_def)

lemma version_sample [simp]: "version sample_packet = 1"
  by (simp add: sample_packet_def)

text \<open>
  C3. Round trip of the wire format: every valid packet of the current protocol version is
  encoded without error, with or without block padding and whatever octets the random source
  returns, and decoding the result gives back exactly that packet.
\<close>

theorem decode_encode_roundtrip:
  assumes "valid_packet p" and "version p = CURRENT_PROTOCOL_VERSION" and "urandom_ok urandom"
  shows "\<exists>w. encode_packet urandom p add_padding = Inr w \<and> decode_packet w = Inr p"
proof -
  obtain pad where "encode_packet urandom p add_padding = Inr (wire p @ pad)" "padding_ok pad"
    using encode_form [OF assms(1,3)] by blast
  then show ?thesis using decode_wire assms by auto
qed

theorem decode_encode_roundtrip_witness:
  "\<exists>w. encode_packet zeros sample_packet True = Inr w \<and> decode_packet w = Inr sample_packet"
  by (rule decode_encode_roundtrip) simp_all

text \<open>
  C4. Exactness of the decoder: \<open>decode_packet\<close> accepts precisely the octet strings that are the
  canonical layout of a valid version-1 packet followed by no padding or by 1 to 255 octets
  whose last one is their number; everything else (truncated, corrupted, other versions) is
  rejected. In particular no octet string decodes to a packet that violates the invariant.
\<close>

theorem decode_packet_exact:
  "decode_packet d = Inr p \<longleftrightarrow>
     valid_packet p \<and> version p = 1 \<and> (\<exists>pad. d = wire p @ pad \<and> padding_ok pad)"
  using decode_sound decode_wire by blast

text \<open>
  Every rejection of the decoder is a \<open>PacketDecodingError\<close> or one of its subclasses, so the
  \<open>except PacketDecodingError\<close> clauses of the transports catch all of them: no octet string
  makes \<open>struct.error\<close> or \<open>InvalidPacketError\<close> escape.
\<close>

theorem decode_errors_are_decoding_errors:
  assumes "decode_packet d = Inl e"
  shows "isinstance e PacketDecodingError"
  using assms
  by (auto simp: decode_packet_def strip_padding_def Let_def
           split: if_splits sum.splits option.splits prod.splits)

theorem decode_errors_are_decoding_errors_witness:
  "decode_packet [1, 2, 3] = Inl PacketDecodingError
     \<and> isinstance PacketDecodingError PacketDecodingError"
proof -
  have h: "decode_packet [1, 2, 3] = Inl PacketDecodingError"
    by (simp add: decode_packet_def)
  show ?thesis using h decode_errors_are_decoding_errors [OF h] by simp
qed

lemma unpad_delimited:
  "padding_ok pad \<Longrightarrow> pad \<noteq> [] \<Longrightarrow> unpad_packet_data (d @ pad) = d"
  by (auto simp: unpad_packet_data_def padding_ok_def Let_def)

text \<open>
  Padding: a padded string has one of the block sizes, or is left alone when no block is
  within 255 octets; and whenever padding was added, \<open>unpad_packet_data\<close> removes exactly it.
\<close>

theorem pad_unpad:
  assumes "urandom_ok urandom"
  shows "(pad_packet_data urandom d None = d \<and> padded_size (length d) = length d) \<or>
     (length (pad_packet_data urandom d None) \<in> set BLOCK_SIZES \<and>
      unpad_packet_data (pad_packet_data urandom d None) = d)"
proof -
  obtain pad where p: "pad_packet_data urandom d None = d @ pad" "padding_ok pad"
    using pad_packet_data_form [OF assms] by blast
  have len: "length (d @ pad) = padded_size (length d)"
    using length_pad_packet_data [OF assms, of d] p by simp
  show ?thesis
  proof (cases "pad = []")
    case True
    with p len show ?thesis by simp
  next
    case False
    with len have "length (d @ pad) \<in> {256, 512, 1024, 2048}"
      by (auto simp: padded_size_cases split: if_splits)
    with unpad_delimited [OF p(2) False] p(1) show ?thesis by (simp add: BLOCK_SIZES_def)
  qed
qed

theorem pad_unpad_witness:
  "(pad_packet_data zeros [1, 2] None = [1, 2] \<and> padded_size (length [1, 2 :: byte]) = length [1, 2 :: byte]) \<or>
     (length (pad_packet_data zeros [1, 2] None) \<in> set BLOCK_SIZES \<and>
      unpad_packet_data (pad_packet_data zeros [1, 2] None) = [1, 2])"
  by (rule pad_unpad) simp

end
