(* ===== verification/Fragmentation.thy ===== *)
theory Fragmentation
  imports Codec
begin

text \<open>
  \<open>protocol/fragmentation.py\<close>: splitting an encoded packet into fragment packets, and the
  13-octet fragment header. \<open>os.urandom\<close> is an argument as in \<open>Codec\<close>; \<open>now\<close> is
  \<open>int(time.time() * 1000)\<close>.
\<close>

definition should_fragment_bytes :: "bytes \<Rightarrow> bool" where
  "should_fragment_bytes data = (length data > FRAGMENTATION_THRESHOLD)"

definition should_fragment :: "(nat \<Rightarrow> bytes) \<Rightarrow> packet \<Rightarrow> exn + bool" where
  "should_fragment urandom p =
     (case encode_packet urandom p True of Inl e \<Rightarrow> Inl e
      | Inr data \<Rightarrow> Inr (should_fragment_bytes data))"

definition generate_fragment_id :: "(nat \<Rightarrow> bytes) \<Rightarrow> bytes" where
  "generate_fragment_id urandom = urandom FRAGMENT_ID_SIZE"

text \<open>\<open>[data[i : i + c] for i in range(0, len(data), c)]\<close>.\<close>

definition chunk_list :: "bytes \<Rightarrow> nat \<Rightarrow> bytes list" where
  "chunk_list data c =
     map (\<lambda>k. py_slice (k * c) (k * c + c) data) [0 ..< (length data + c - 1) div c]"

definition split_chunks :: "bytes \<Rightarrow> int \<Rightarrow> exn + bytes list" where
  "split_chunks data chunk_size =
     (if chunk_size < 1 then Inl ValueError
      else if data = [] then Inr []
      else let chunks = chunk_list data (nat chunk_size) in
        if length chunks > 0xFFFF then Inl FragmentLimitExceededError
        else if length chunks > MAX_FRAGMENTS_PER_ASSEMBLY then Inl FragmentLimitExceededError
        else Inr chunks)"

definition create_fragment_payload ::
  "bytes \<Rightarrow> int \<Rightarrow> int \<Rightarrow> int \<Rightarrow> bytes \<Rightarrow> exn + bytes" where
  "create_fragment_payload fragment_id index tot orig_type chunk_data =
     (if length fragment_id \<noteq> FRAGMENT_ID_SIZE then Inl InvalidFragmentError
      else if tot \<le> 0 then Inl InvalidFragmentError
      else if tot > 0xFFFF then Inl FragmentLimitExceededError
      else if tot > int MAX_FRAGMENTS_PER_ASSEMBLY then Inl FragmentLimitExceededError
      else if \<not> (0 \<le> index \<and> index < tot) then Inl InvalidFragmentError
      else if \<not> (0 \<le> orig_type \<and> orig_type \<le> 255) then Inl InvalidFragmentError
      else Inr (fragment_id @ be_bytes 2 index @ be_bytes 2 tot @ be_bytes 1 orig_type
                @ chunk_data))"

definition parse_fragment_payload :: "bytes \<Rightarrow> exn + bytes \<times> int \<times> int \<times> int \<times> bytes" where
  "parse_fragment_payload pl =
     (if length pl < FRAGMENT_HEADER_SIZE then Inl FragmentPayloadError
      else let fragment_id = py_slice 0 8 pl;
               index = be_int (py_slice 8 10 pl);
               tot = be_int (py_slice 10 12 pl);
               orig_type = be_int (py_slice 12 13 pl)
        in if tot \<le> 0 then Inl InvalidFragmentError
           else if \<not> (0 \<le> index \<and> index < tot) then Inl InvalidFragmentError
           else if tot > int MAX_FRAGMENTS_PER_ASSEMBLY then Inl FragmentLimitExceededError
           else Inr (fragment_id, index, tot, orig_type, drop FRAGMENT_HEADER_SIZE pl))"

definition fragment_type :: "int \<Rightarrow> int \<Rightarrow> MessageType" where
  "fragment_type index tot =
     (if index = 0 then FragmentStart
      else if index = tot - 1 then FragmentEnd
      else FragmentContinue)"

text \<open>The body of the loop over \<open>enumerate(chunks)\<close>: one fragment packet.\<close>

definition make_fragment ::
  "bytes \<Rightarrow> bytes \<Rightarrow> int \<Rightarrow> int \<Rightarrow> int \<Rightarrow> int \<Rightarrow> int \<Rightarrow> bytes \<Rightarrow> exn + packet" where
  "make_fragment frag_id sender tt ts orig_type tot index chunk =
     (case create_fragment_payload frag_id index tot orig_type chunk of
        Inl e \<Rightarrow> Inl e
      | Inr pl \<Rightarrow> BitchatPacket
          \<lparr>version = CURRENT_PROTOCOL_VERSION, message_type = fragment_type index tot,
           ttl = tt, timestamp = ts, flags = 0, sender_id = sender, recipient_id = None,
           payload = pl, signature = None\<rparr>)"

fun make_fragments :: "(int \<Rightarrow> bytes \<Rightarrow> exn + packet) \<Rightarrow> int \<Rightarrow> bytes list \<Rightarrow> exn + packet list" where
  "make_fragments f index [] = Inr []"
| "make_fragments f index (chunk # chunks) =
     (case f index chunk of
        Inl e \<Rightarrow> Inl e
      | Inr p \<Rightarrow> (case make_fragments f (index + 1) chunks of
                    Inl e \<Rightarrow> Inl e
                  | Inr ps \<Rightarrow> Inr (p # ps)))"

definition fragment_encoded_packet ::
  "(nat \<Rightarrow> bytes) \<Rightarrow> int \<Rightarrow> bytes \<Rightarrow> bytes \<Rightarrow> int \<Rightarrow> bytes option \<Rightarrow> int \<Rightarrow> int option
     \<Rightarrow> exn + packet list" where
  "fragment_encoded_packet urandom now encoded sender orig_type fragment_id tt ts =
     (if \<not> should_fragment_bytes encoded then Inr []
      else if length sender \<noteq> SENDER_ID_SIZE then Inl PacketEncodingError
      else let frag_id = (case fragment_id of None \<Rightarrow> generate_fragment_id urandom | Some f \<Rightarrow> f) in
        if length frag_id \<noteq> FRAGMENT_ID_SIZE then Inl InvalidFragmentError
        else case split_chunks encoded (int FRAGMENT_CHUNK_SIZE) of
          Inl e \<Rightarrow> Inl e
        | Inr chunks \<Rightarrow>
            make_fragments
              (make_fragment frag_id sender tt (case ts of None \<Rightarrow> now | Some t \<Rightarrow> t) orig_type
                 (int (length chunks)))
              0 chunks)"

text \<open>\<open>u1\<close> answers the padding's call of \<open>os.urandom\<close>, \<open>u2\<close> that of the fragment identifier.\<close>

definition fragment_packet ::
  "(nat \<Rightarrow> bytes) \<Rightarrow> (nat \<Rightarrow> bytes) \<Rightarrow> int \<Rightarrow> packet \<Rightarrow> bytes option \<Rightarrow> exn + packet list" where
  "fragment_packet u1 u2 now p fragment_id =
     (case encode_packet u1 p True of
        Inl e \<Rightarrow> Inl e
      | Inr encoded \<Rightarrow>
          if \<not> should_fragment_bytes encoded then Inr []
          else fragment_encoded_packet u2 now encoded (sender_id p) (mt_value (message_type p))
                 fragment_id (ttl p) (Some (timestamp p)))"

text \<open>The \<open>k\<close>-th packet is encoded with the \<open>k\<close>-th answers of the random source.\<close>

fun encode_fragments_from :: "(nat \<Rightarrow> nat \<Rightarrow> bytes) \<Rightarrow> nat \<Rightarrow> packet list \<Rightarrow> exn + bytes list" where
  "encode_fragments_from us k [] = Inr []"
| "encode_fragments_from us k (p # ps) =
     (case encode_packet (us k) p True of
        Inl e \<Rightarrow> Inl e
      | Inr w \<Rightarrow> (case encode_fragments_from us (Suc k) ps of
                    Inl e \<Rightarrow> Inl e
                  | Inr ws \<Rightarrow> Inr (w # ws)))"

definition encode_fragment_packets :: "(nat \<Rightarrow> nat \<Rightarrow> bytes) \<Rightarrow> packet list \<Rightarrow> exn + bytes list" where
  "encode_fragment_packets us fragments = encode_fragments_from us 0 fragments"

subsection \<open>Chunks\<close>

lemma take_slice: "take a xs @ py_slice a (a + c) xs = take (a + c) xs"
  by (simp add: py_slice_def take_add)

lemma concat_slices: "concat (map (\<lambda>k. py_slice (k * c) (k * c + c) d) [0 ..< n]) = take (n * c) d"
  by (induction n) (simp_all add: take_slice add.commute [of c])

lemma length_chunk_list: "length (chunk_list d c) = (length d + c - 1) div c"
  by (simp add: chunk_list_def)

lemma chunk_count_covers:
  assumes "0 < (c :: nat)"
  shows "n \<le> (n + c - 1) div c * c"
proof -
  have "n + c - 1 = (n + c - 1) div c * c + (n + c - 1) mod c" by simp
  moreover have "(n + c - 1) mod c < c" using assms by simp
  ultimately show ?thesis by linarith
qed

lemma concat_chunk_list: "0 < c \<Longrightarrow> concat (chunk_list d c) = d"
  using chunk_count_covers [of c "length d"] by (simp add: chunk_list_def concat_slices)

lemma chunk_count_less:
  assumes "k < (n + c - 1) div c" "0 < (c :: nat)"
  shows "k * c < n"
proof -
  have "Suc k * c \<le> n + c - 1"
    using assms by (metis Suc_leI div_times_less_eq_dividend le_trans mult_le_mono1)
  then show ?thesis using assms(2) by simp
qed

lemma chunk_list_nth:
  "k < length (chunk_list d c) \<Longrightarrow> chunk_list d c ! k = py_slice (k * c) (k * c + c) d"
  by (simp add: chunk_list_def)

lemma chunk_list_lengths:
  assumes "0 < c" "x \<in> set (chunk_list d c)"
  shows "1 \<le> length x" "length x \<le> c"
proof -
  obtain k where k: "k < (length d + c - 1) div c" "x = py_slice (k * c) (k * c + c) d"
    using assms(2) by (auto simp: chunk_list_def)
  from chunk_count_less [OF k(1) assms(1)] k(2) assms(1)
  show "1 \<le> length x" "length x \<le> c" by auto
qed

lemma split_chunks_eq:
  "d \<noteq> [] \<Longrightarrow> length d \<le> 150000 \<Longrightarrow>
     split_chunks d (int FRAGMENT_CHUNK_SIZE) = Inr (chunk_list d FRAGMENT_CHUNK_SIZE)"
  by (auto simp: split_chunks_def length_chunk_list Let_def)

subsection \<open>The fragment header\<close>

lemma create_fragment_payload_eq:
  assumes "length fid = 8" "0 \<le> i" "i < n" "n \<le> 1000" "0 \<le> mt" "mt \<le> 255"
  shows "create_fragment_payload fid i n mt c =
     Inr (fid @ be_bytes 2 i @ be_bytes 2 n @ be_bytes 1 mt @ c)"
  using assms by (simp add: create_fragment_payload_def)

lemma parse_created:
  assumes "length fid = 8" "0 \<le> i" "i < n" "n \<le> 1000" "0 \<le> mt" "mt \<le> 255"
  shows "parse_fragment_payload (fid @ be_bytes 2 i @ be_bytes 2 n @ be_bytes 1 mt @ c) =
     Inr (fid, i, n, mt, c)"
proof -
  let ?pl = "fid @ be_bytes 2 i @ be_bytes 2 n @ be_bytes 1 mt @ c"
  have sl: "py_slice 0 8 ?pl = fid" "py_slice 8 10 ?pl = be_bytes 2 i"
    "py_slice 10 12 ?pl = be_bytes 2 n" "py_slice 12 13 ?pl = be_bytes 1 mt" "drop 13 ?pl = c"
    using assms(1) by (simp_all add: py_slice_def)
  have "be_int (be_bytes 2 i) = i" "be_int (be_bytes 2 n) = n" "be_int (be_bytes 1 mt) = mt"
    using assms by (intro be_int_be_bytes; simp)+
  then show ?thesis using assms by (simp only: parse_fragment_payload_def sl Let_def) simp
qed

lemma parse_fragment_payload_Inr:
  assumes "parse_fragment_payload pl = Inr (fid, i, n, mt, c)"
  shows "pl = fid @ be_bytes 2 i @ be_bytes 2 n @ be_bytes 1 mt @ c" "length fid = 8"
    "0 \<le> i" "i < n" "n \<le> 1000" "0 \<le> mt" "mt \<le> 255" "0 < n"
proof -
  from assms have l: "13 \<le> length pl" and f: "fid = py_slice 0 8 pl" "i = be_int (py_slice 8 10 pl)"
    "n = be_int (py_slice 10 12 pl)" "mt = be_int (py_slice 12 13 pl)" "c = drop 13 pl"
    and r: "0 \<le> i" "i < n" "n \<le> 1000"
    by (auto simp: parse_fragment_payload_def Let_def split: if_splits)
  have b: "be_bytes 2 i = py_slice 8 10 pl" "be_bytes 2 n = py_slice 10 12 pl"
    "be_bytes 1 mt = py_slice 12 13 pl"
    unfolding f using l by (intro be_bytes_be_int; simp)+
  show "pl = fid @ be_bytes 2 i @ be_bytes 2 n @ be_bytes 1 mt @ c"
    unfolding b using slice_drop [of 0 8 pl] slice_drop [of 8 10 pl] slice_drop [of 10 12 pl]
      slice_drop [of 12 13 pl] by (simp add: f)
  show "length fid = 8" using l by (simp add: f)
  have "length (py_slice 12 13 pl) = 1" using l by simp
  then show "0 \<le> mt" "mt \<le> 255" using be_int_range [of "py_slice 12 13 pl"] by (simp_all add: f)
  show "0 \<le> i" "i < n" "n \<le> 1000" "0 < n" using r by auto
qed

subsection \<open>The fragments of a packet\<close>

text \<open>The \<open>k\<close>-th fragment of the encoded octets \<open>w\<close> of packet \<open>p\<close>, in closed form.\<close>

definition fragment_count :: "bytes \<Rightarrow> nat" where
  "fragment_count w = (length w + 149) div 150"

definition fragment_at :: "bytes \<Rightarrow> packet \<Rightarrow> bytes \<Rightarrow> nat \<Rightarrow> packet" where
  "fragment_at fid p w k =
     \<lparr>version = 1, message_type = fragment_type (int k) (int (fragment_count w)), ttl = ttl p,
      timestamp = timestamp p, flags = 0, sender_id = sender_id p, recipient_id = None,
      payload = fid @ be_bytes 2 (int k) @ be_bytes 2 (int (fragment_count w))
        @ be_bytes 1 (mt_value (message_type p)) @ py_slice (k * 150) (k * 150 + 150) w,
      signature = None\<rparr>"

lemma make_fragments_ok:
  "(\<And>k. k < length cs \<Longrightarrow> f (i + int k) (cs ! k) = Inr (g k)) \<Longrightarrow>
     make_fragments f i cs = Inr (map g [0 ..< length cs])"
proof (induction cs arbitrary: i g)
  case (Cons c cs)
  have "f i c = Inr (g 0)" using Cons.prems [of 0] by simp
  moreover have "make_fragments f (i + 1) cs = Inr (map (\<lambda>k. g (Suc k)) [0 ..< length cs])"
    using Cons.prems [of "Suc _"] by (intro Cons.IH) (simp add: algebra_simps)
  ultimately show ?case by (simp add: map_upt_Suc del: upt_Suc)
qed simp

lemma length_slice_bounds:
  "k < fragment_count w \<Longrightarrow> 1 \<le> length (py_slice (k * 150) (k * 150 + 150) w)"
  "length (py_slice (k * 150) (k * 150 + 150) w) \<le> 150"
  using chunk_count_less [of k "length w" 150] by (auto simp: fragment_count_def)

lemma valid_fragment_at [simp]:
  assumes "valid_packet p" "length fid = 8"
  shows "valid_packet (fragment_at fid p w k)"
  using assms length_slice_bounds(2) [of k w]
  by (auto simp: valid_packet_def fragment_at_def has_recipient_def has_signature_def)

lemma length_wire_le: "valid_packet p \<Longrightarrow> length (wire p) \<le> 65629"
  by (simp add: length_wire expected_unpadded_size_def valid_packet_def)

lemma fragment_packet_eq:
  assumes "valid_packet p" "urandom_ok u1" "encode_packet u1 p True = Inr w" "500 < length w"
    "length fid = 8"
  shows "fragment_packet u1 u2 now p (Some fid) = Inr (map (fragment_at fid p w) [0 ..< fragment_count w])"
proof -
  have "length w = padded_size (length (wire p))"
    using length_encode [OF assms(1,2,3)] by simp
  then have w: "w \<noteq> []" "length w \<le> 65629"
    using length_wire_le [OF assms(1)] assms(4) by (auto simp: padded_size_cases split: if_splits)
  let ?cs = "chunk_list w FRAGMENT_CHUNK_SIZE" let ?n = "fragment_count w"
  have n: "length ?cs = ?n" "?n \<le> 1000"
    using w by (simp_all add: length_chunk_list fragment_count_def)
  have mk: "make_fragment fid (sender_id p) (ttl p) (timestamp p) (mt_value (message_type p)) (int ?n)
      (0 + int k) (?cs ! k) = Inr (fragment_at fid p w k)" if "k < length ?cs" for k
  proof -
    have "k < ?n" using that n by simp
    then show ?thesis
      using valid_fragment_at [OF assms(1,5), of w k] chunk_list_nth [OF that] n(2) assms(5)
        mt_value_range [of "message_type p"]
      by (simp add: make_fragment_def create_fragment_payload_eq fragment_at_def)
  qed
  have "make_fragments (make_fragment fid (sender_id p) (ttl p) (timestamp p)
      (mt_value (message_type p)) (int ?n)) 0 ?cs = Inr (map (fragment_at fid p w) [0 ..< length ?cs])"
    by (rule make_fragments_ok) (rule mk)
  moreover have "length (sender_id p) = 8" using assms(1) by (auto simp: valid_packet_def)
  ultimately show ?thesis
    using w assms(3,4,5) n
    by (simp add: fragment_packet_def fragment_encoded_packet_def should_fragment_bytes_def
        split_chunks_eq [unfolded FRAGMENT_CHUNK_SIZE_def, simplified])
qed

lemma length_wire_fragment:
  assumes "valid_packet p" "length fid = 8" "k < fragment_count w"
  shows "36 \<le> length (wire (fragment_at fid p w k))" "length (wire (fragment_at fid p w k)) \<le> 185"
  using assms length_wire [OF valid_fragment_at [OF assms(1,2), of w k]] length_slice_bounds(1) [OF assms(3)]
    length_slice_bounds(2) [of k w]
  by (simp_all add: expected_unpadded_size_def fragment_at_def has_recipient_def has_signature_def)

lemma fragment_wire:
  assumes "valid_packet p" "length fid = 8" "k < fragment_count w" "urandom_ok u"
  shows "\<exists>e. encode_packet u (fragment_at fid p w k) True = Inr e \<and> length e = 256
     \<and> \<not> should_fragment_bytes e \<and> decode_packet e = Inr (fragment_at fid p w k)"
proof -
  note v = valid_fragment_at [OF assms(1,2), of w k]
  obtain pad where e: "encode_packet u (fragment_at fid p w k) True = Inr (wire (fragment_at fid p w k) @ pad)"
    and pad: "padding_ok pad" using encode_form [OF v assms(4)] by blast
  have "length (wire (fragment_at fid p w k) @ pad) = 256"
    using length_encode [OF v assms(4) e] length_wire_fragment [OF assms(1-3)]
    by (auto simp: padded_size_cases)
  moreover have "decode_packet (wire (fragment_at fid p w k) @ pad) = Inr (fragment_at fid p w k)"
    using v by (rule decode_wire) (simp_all add: fragment_at_def pad)
  ultimately show ?thesis using e by (auto simp: should_fragment_bytes_def)
qed

lemma concat_fragment_chunks:
  "concat (map (\<lambda>k. py_slice (k * 150) (k * 150 + 150) w) [0 ..< fragment_count w]) = w"
  using concat_chunk_list [of 150 w] by (simp add: chunk_list_def fragment_count_def add.commute)

lemma parse_fragment_at:
  assumes "length fid = 8" "k < fragment_count w" "fragment_count w \<le> 1000"
  shows "parse_fragment_payload (payload (fragment_at fid p w k)) =
     Inr (fid, int k, int (fragment_count w), mt_value (message_type p), py_slice (k * 150) (k * 150 + 150) w)"
proof -
  have "0 \<le> int k" "int k < int (fragment_count w)" "int (fragment_count w) \<le> 1000"
    "0 \<le> mt_value (message_type p)" "mt_value (message_type p) \<le> 255"
    using assms(2,3) mt_value_range [of "message_type p"] by simp_all
  from parse_created [OF assms(1) this] show ?thesis by (simp only: fragment_at_def packet.simps)
qed

subsection \<open>Properties\<close>

definition big_packet :: packet where
  "big_packet = sample_packet\<lparr>payload := replicate 600 7\<rparr>"

lemma valid_big [simp]: "valid_packet big_packet"
  by (simp add: valid_packet_def big_packet_def sample_packet_def has_recipient_def has_signature_def)

text \<open>
  Fragmentation never fails on a valid packet: it yields no fragments when the encoded
  packet has at most 500 octets, and otherwise at most 438 fragments (the limit is 1000), each
  of which is a valid packet, is encoded to exactly 256 octets, so that it is never itself above
  the fragmentation threshold, and is decoded back to itself by a receiver.
\<close>

theorem fragment_packet_total:
  assumes "valid_packet p" and "urandom_ok u1" and "urandom_ok u" and "length fid = FRAGMENT_ID_SIZE"
  shows "\<exists>fs. fragment_packet u1 u2 now p (Some fid) = Inr fs \<and> length fs \<le> 438 \<and>
     (fs = [] \<longleftrightarrow> should_fragment u1 p = Inr False) \<and>
     (\<forall>f \<in> set fs. valid_packet f \<and>
        (\<exists>e. encode_packet u f True = Inr e \<and> length e = 256 \<and> \<not> should_fragment_bytes e
             \<and> decode_packet e = Inr f))"
proof -
  have fid: "length fid = 8" using assms(4) by simp
  obtain pad where e: "encode_packet u1 p True = Inr (wire p @ pad)"
    using encode_form [OF assms(1,2)] by blast
  let ?w = "wire p @ pad"
  show ?thesis
  proof (cases "500 < length ?w")
    case True
    have "length ?w \<le> 65629" using length_encode [OF assms(1,2) e] length_wire_le [OF assms(1)] True
      by (auto simp: padded_size_cases split: if_splits)
    then have n: "fragment_count ?w \<le> 438" "0 < fragment_count ?w"
      using True by (auto simp: fragment_count_def div_greater_zero_iff)
    show ?thesis
      using fragment_packet_eq [OF assms(1,2) e True fid, of u2 now] n True e
        fragment_wire [OF assms(1) fid _ assms(3), of _ ?w] assms(1) fid
      by (intro exI [of _ "map (fragment_at fid p ?w) [0 ..< fragment_count ?w]"])
         (auto simp: should_fragment_def should_fragment_bytes_def simp del: length_append)
  next
    case False
    then show ?thesis
      using e by (simp add: fragment_packet_def should_fragment_def should_fragment_bytes_def)
  qed
qed

theorem fragment_packet_total_witness:
  "\<exists>fs. fragment_packet zeros zeros 0 big_packet (Some (replicate 8 9)) = Inr fs \<and> length fs \<le> 438 \<and>
     (fs = [] \<longleftrightarrow> should_fragment zeros big_packet = Inr False) \<and>
     (\<forall>f \<in> set fs. valid_packet f \<and>
        (\<exists>e. encode_packet zeros f True = Inr e \<and> length e = 256 \<and> \<not> should_fragment_bytes e
             \<and> decode_packet e = Inr f))"
  by (rule fragment_packet_total) simp_all

text \<open>
  The 13-octet fragment header: a fragment payload that is created without error is parsed
  back to the same identifier, index, total, original type and data; and a payload that parses
  is exactly the one \<open>create_fragment_payload\<close> builds from the parsed fields.
\<close>

theorem fragment_header_roundtrip:
  "create_fragment_payload fid i n mt c = Inr pl \<longleftrightarrow> parse_fragment_payload pl = Inr (fid, i, n, mt, c)"
proof
  assume "create_fragment_payload fid i n mt c = Inr pl"
  then have b: "length fid = 8" "0 \<le> i" "i < n" "n \<le> 1000" "0 \<le> mt" "mt \<le> 255"
    and "pl = fid @ be_bytes 2 i @ be_bytes 2 n @ be_bytes 1 mt @ c"
    by (auto simp: create_fragment_payload_def split: if_splits)
  then show "parse_fragment_payload pl = Inr (fid, i, n, mt, c)" using parse_created [OF b] by simp
next
  assume "parse_fragment_payload pl = Inr (fid, i, n, mt, c)"
  note h = parse_fragment_payload_Inr [OF this]
  show "create_fragment_payload fid i n mt c = Inr pl"
    using create_fragment_payload_eq [OF h(2-7), of c] by (simp only: h(1))
qed

end
