(* ===== verification/Reassembly.thy ===== *)
theory Reassembly
  imports Fragmentation
begin

text \<open>
  \<open>protocol/reassembly.py\<close>: the bounded out-of-order fragment collector. The assemblies are an
  ordered dictionary keyed by sender and fragment identifier, oldest first; \<open>time.monotonic()\<close>
  is the argument \<open>now\<close>. A method that may raise returns the state it leaves and the exception
  or the value.
\<close>

record assembly =
  asm_sender_id :: bytes
  asm_fragment_id :: bytes
  asm_total :: int
  asm_type :: int
  asm_chunks :: "(int, bytes) dict"
  asm_created_at :: real
  asm_bytes :: nat

record reassembler =
  max_active :: int
  max_fragments :: int
  max_bytes :: int
  assemblies :: "(bytes \<times> bytes, assembly) dict"

definition FragmentReassembler :: "int \<Rightarrow> int \<Rightarrow> int \<Rightarrow> reassembler" where
  "FragmentReassembler ma mf mb =
     \<lparr>max_active = ma, max_fragments = mf, max_bytes = mb, assemblies = []\<rparr>"

definition default_reassembler :: reassembler where
  "default_reassembler = FragmentReassembler (int MAX_ACTIVE_ASSEMBLIES)
     (int MAX_FRAGMENTS_PER_ASSEMBLY) (int MAX_REASSEMBLED_BYTES)"

definition active_assembly_count :: "reassembler \<Rightarrow> nat" where
  "active_assembly_count r = length (assemblies r)"

definition reasm_clear :: "reassembler \<Rightarrow> reassembler" where
  "reasm_clear r = r\<lparr>assemblies := []\<rparr>"

definition reasm_prune_stale :: "real \<Rightarrow> real \<Rightarrow> reassembler \<Rightarrow> reassembler \<times> nat" where
  "reasm_prune_stale now max_age r =
     (let stale_keys = map fst (filter (\<lambda>e. now - asm_created_at (snd e) > max_age) (assemblies r))
      in (r\<lparr>assemblies := dict_pop_all stale_keys (assemblies r)\<rparr>, length stale_keys))"

definition drop_assembly :: "bytes \<times> bytes \<Rightarrow> reassembler \<Rightarrow> reassembler" where
  "drop_assembly key r = r\<lparr>assemblies := dict_pop key (assemblies r)\<rparr>"

text \<open>The end of \<open>_insert_chunk\<close>: the size limit, the update of the assembly, completion.\<close>

definition joined_chunks :: "(int, bytes) dict \<Rightarrow> nat \<Rightarrow> bytes" where
  "joined_chunks cs n = concat (map (\<lambda>i. the (dict_get cs (int i))) [0 ..< n])"

definition store_chunk ::
  "bytes \<times> bytes \<Rightarrow> assembly \<Rightarrow> int \<Rightarrow> bytes \<Rightarrow> reassembler \<Rightarrow> reassembler \<times> (exn + bytes option)" where
  "store_chunk key a index chunk_data r =
     (if int (asm_bytes a + length chunk_data) > max_bytes r
      then (drop_assembly key r, Inl FragmentLimitExceededError)
      else
        let a' = a\<lparr>asm_chunks := dict_set index chunk_data (asm_chunks a),
                   asm_bytes := asm_bytes a + length chunk_data\<rparr>;
            r' = r\<lparr>assemblies := dict_set key a' (assemblies r)\<rparr>
        in if int (length (asm_chunks a')) = asm_total a' then
             (if \<exists>i \<in> set [0 ..< nat (asm_total a')]. \<not> dict_has (asm_chunks a') (int i)
              then (r', Inr None)
              else (drop_assembly key r', Inr (Some (joined_chunks (asm_chunks a') (nat (asm_total a'))))))
           else (r', Inr None))"

text \<open>The branch for a new key: \<open>popitem(last=False)\<close> at the limit, which raises \<open>KeyError\<close> on
  an empty dictionary.\<close>

definition open_assembly ::
  "real \<Rightarrow> bytes \<Rightarrow> bytes \<Rightarrow> int \<Rightarrow> int \<Rightarrow> reassembler \<Rightarrow> exn + reassembler \<times> assembly" where
  "open_assembly now sender fid tot ot r =
     (let a = \<lparr>asm_sender_id = sender, asm_fragment_id = fid, asm_total = tot, asm_type = ot,
               asm_chunks = [], asm_created_at = now, asm_bytes = 0\<rparr>
      in if int (length (assemblies r)) \<ge> max_active r then
           (if assemblies r = [] then Inl KeyError
            else Inr (r\<lparr>assemblies := dict_set (sender, fid) a (tl (assemblies r))\<rparr>, a))
         else Inr (r\<lparr>assemblies := dict_set (sender, fid) a (assemblies r)\<rparr>, a))"

definition insert_chunk ::
  "real \<Rightarrow> bytes \<Rightarrow> bytes \<Rightarrow> int \<Rightarrow> int \<Rightarrow> int \<Rightarrow> bytes \<Rightarrow> reassembler
     \<Rightarrow> reassembler \<times> (exn + bytes option)" where
  "insert_chunk now sender fid index tot ot chunk_data r =
     (if tot \<le> 0 then (r, Inl InvalidFragmentError)
      else if \<not> (0 \<le> index \<and> index < tot) then (r, Inl InvalidFragmentError)
      else if tot > max_fragments r then (r, Inl FragmentLimitExceededError)
      else let key = (sender, fid) in
        case dict_get (assemblies r) key of
          Some a \<Rightarrow>
            let r1 = r\<lparr>assemblies := dict_move_to_end key (assemblies r)\<rparr> in
            if asm_total a \<noteq> tot then (drop_assembly key r1, Inl InvalidFragmentError)
            else if asm_type a \<noteq> ot then (drop_assembly key r1, Inl InvalidFragmentError)
            else (case dict_get (asm_chunks a) index of
                    Some c \<Rightarrow>
                      if c = chunk_data then (r1, Inr None)
                      else (drop_assembly key r1, Inl InvalidFragmentError)
                  | None \<Rightarrow> store_chunk key a index chunk_data r1)
        | None \<Rightarrow>
            (case open_assembly now sender fid tot ot r of
               Inl e \<Rightarrow> (r, Inl e)
             | Inr (r1, a) \<Rightarrow> store_chunk key a index chunk_data r1))"

definition add_fragment_packet ::
  "real \<Rightarrow> packet \<Rightarrow> reassembler \<Rightarrow> reassembler \<times> (exn + bytes option)" where
  "add_fragment_packet now p r =
     (if message_type p \<notin> {FragmentStart, FragmentContinue, FragmentEnd}
      then (r, Inl InvalidFragmentError)
      else case parse_fragment_payload (payload p) of
        Inl e \<Rightarrow> (r, Inl e)
      | Inr (fid, index, tot, ot, data) \<Rightarrow>
          if index = 0 \<and> message_type p \<noteq> FragmentStart then (r, Inl InvalidFragmentError)
          else if index = tot - 1 \<and> message_type p \<noteq> FragmentEnd then (r, Inl InvalidFragmentError)
          else if 0 < index \<and> index < tot - 1 \<and> message_type p \<noteq> FragmentContinue
          then (r, Inl InvalidFragmentError)
          else insert_chunk now (sender_id p) fid index tot ot data r)"

definition add_fragment ::
  "real \<Rightarrow> bytes \<Rightarrow> bytes \<Rightarrow> reassembler \<Rightarrow> reassembler \<times> (exn + bytes option)" where
  "add_fragment now sender pl r =
     (case parse_fragment_payload pl of
        Inl e \<Rightarrow> (r, Inl e)
      | Inr (fid, index, tot, ot, data) \<Rightarrow> insert_chunk now sender fid index tot ot data r)"

subsection \<open>The invariant\<close>

definition asm_ok :: "int \<Rightarrow> int \<Rightarrow> bytes \<times> bytes \<Rightarrow> assembly \<Rightarrow> bool" where
  "asm_ok mf mb key a \<longleftrightarrow>
     key = (asm_sender_id a, asm_fragment_id a) \<and> asm_total a \<le> mf \<and>
     dict_ok (asm_chunks a) \<and> (\<forall>i \<in> fst ` set (asm_chunks a). 0 \<le> i \<and> i < asm_total a) \<and>
     int (length (asm_chunks a)) < asm_total a \<and>
     asm_bytes a = sum_list (map (length \<circ> snd) (asm_chunks a)) \<and>
     (asm_chunks a \<noteq> [] \<longrightarrow> int (asm_bytes a) \<le> mb)"

definition reasm_ok :: "reassembler \<Rightarrow> bool" where
  "reasm_ok r \<longleftrightarrow>
     dict_ok (assemblies r) \<and> int (length (assemblies r)) \<le> max 0 (max_active r) \<and>
     (\<forall>e \<in> set (assemblies r). asm_ok (max_fragments r) (max_bytes r) (fst e) (snd e))"

definition same_config :: "reassembler \<Rightarrow> reassembler \<Rightarrow> bool" where
  "same_config r r' \<longleftrightarrow> max_active r' = max_active r \<and> max_fragments r' = max_fragments r
     \<and> max_bytes r' = max_bytes r"

lemma reasm_ok_new: "reasm_ok (FragmentReassembler ma mf mb)"
  by (simp add: reasm_ok_def FragmentReassembler_def)

lemma reasm_ok_drop: "reasm_ok r \<Longrightarrow> reasm_ok (drop_assembly key r)"
  using length_dict_pop_le [of key "assemblies r"]
  by (auto simp: reasm_ok_def drop_assembly_def set_dict_pop)

lemma reasm_ok_move: "reasm_ok r \<Longrightarrow> reasm_ok (r\<lparr>assemblies := dict_move_to_end key (assemblies r)\<rparr>)"
  by (simp add: reasm_ok_def dict_ok_move length_dict_move set_dict_move)

lemma all_keys_covered:
  assumes "dict_ok cs" "\<forall>i \<in> fst ` set cs. 0 \<le> i \<and> i < n" "int (length cs) = n" "0 \<le> j" "j < n"
  shows "dict_has cs j"
proof -
  have "fst ` set cs \<subseteq> {0 ..< n}" using assms(2) by auto
  moreover have "card (fst ` set cs) = card {0 ..< n}"
    using distinct_card [of "map fst cs"] assms(1,3) by simp
  ultimately have "fst ` set cs = {0 ..< n}" by (simp add: card_subset_eq)
  with assms(4,5) show ?thesis by (subst dict_has_iff) simp
qed

lemma reasm_ok_put:
  assumes "reasm_ok r" "asm_ok (max_fragments r) (max_bytes r) key a" "key \<in> fst ` set (assemblies r)"
  shows "reasm_ok (r\<lparr>assemblies := dict_set key a (assemblies r)\<rparr>)"
  using assms dict_set_subset [of key a "assemblies r"]
  by (auto simp: reasm_ok_def length_dict_set)

text \<open>Storing a chunk under a fresh index of a present assembly keeps the invariant.\<close>

lemma store_chunk_ok:
  assumes "reasm_ok r" "dict_get (assemblies r) key = Some a" "0 \<le> index" "index < asm_total a"
    "dict_get (asm_chunks a) index = None"
  shows "reasm_ok (fst (store_chunk key a index c r))"
proof -
  have a: "asm_ok (max_fragments r) (max_bytes r) key a"
    using assms(1,2) by (force simp: reasm_ok_def dest: map_of_SomeD)
  let ?cs = "dict_set index c (asm_chunks a)"
  let ?a' = "a\<lparr>asm_chunks := ?cs, asm_bytes := asm_bytes a + length c\<rparr>"
  have new: "?cs = asm_chunks a @ [(index, c)]" using assms(5) by (simp add: dict_set_new map_of_eq_None_iff)
  have key: "key \<in> fst ` set (assemblies r)" using assms(2) by (metis dict_has_iff option.discI)
  let ?r' = "r\<lparr>assemblies := dict_set key ?a' (assemblies r)\<rparr>"
  have idx: "\<forall>i \<in> fst ` set ?cs. 0 \<le> i \<and> i < asm_total a" "dict_ok ?cs"
    using a assms(3,4,5) by (auto simp: asm_ok_def dict_keys_set)
  show ?thesis
  proof (cases "int (asm_bytes a + length c) > max_bytes r")
    case True
    then show ?thesis using assms(1) by (simp add: store_chunk_def reasm_ok_drop)
  next
    case False
    show ?thesis
    proof (cases "int (length ?cs) = asm_total a")
      case True
      then have "\<not> (\<exists>i \<in> set [0 ..< nat (asm_total a)]. \<not> dict_has ?cs (int i))"
        using all_keys_covered [OF idx(2,1)] by auto
      then have "fst (store_chunk key a index c r) = drop_assembly key ?r'"
        using False True by (simp add: store_chunk_def Let_def)
      moreover have "drop_assembly key ?r' = drop_assembly key r"
        by (simp add: drop_assembly_def)
      ultimately show ?thesis using reasm_ok_drop [OF assms(1)] by simp
    next
      case neq: False
      then have "asm_ok (max_fragments r) (max_bytes r) key ?a'"
        using a idx False new by (auto simp: asm_ok_def)
      then show ?thesis
        using False neq reasm_ok_put [OF assms(1) _ key] by (simp add: store_chunk_def Let_def)
    qed
  qed
qed

lemma open_assembly_Inr:
  assumes "reasm_ok r" "open_assembly now sender fid tot ot r = Inr (r1, a)"
    "dict_get (assemblies r) (sender, fid) = None" "0 < tot" "tot \<le> max_fragments r"
  shows "reasm_ok r1" "same_config r r1" "dict_get (assemblies r1) (sender, fid) = Some a"
    "a = \<lparr>asm_sender_id = sender, asm_fragment_id = fid, asm_total = tot, asm_type = ot,
          asm_chunks = [], asm_created_at = now, asm_bytes = 0\<rparr>"
proof -
  let ?l = "if int (length (assemblies r)) \<ge> max_active r then tl (assemblies r) else assemblies r"
  show a: "a = \<lparr>asm_sender_id = sender, asm_fragment_id = fid, asm_total = tot, asm_type = ot,
          asm_chunks = [], asm_created_at = now, asm_bytes = 0\<rparr>"
    and c: "same_config r r1" and g: "dict_get (assemblies r1) (sender, fid) = Some a"
    using assms(2) by (auto simp: open_assembly_def same_config_def dict_simps Let_def split: if_splits)
  have r1: "r1 = r\<lparr>assemblies := dict_set (sender, fid) a ?l\<rparr>"
    and ne: "int (length (assemblies r)) \<ge> max_active r \<longrightarrow> assemblies r \<noteq> []"
    using assms(2) by (auto simp: open_assembly_def Let_def split: if_splits)
  have sub: "set ?l \<subseteq> set (assemblies r)" "dict_ok ?l"
    using assms(1) by (cases "assemblies r"; auto simp: reasm_ok_def)+
  have "(sender, fid) \<notin> fst ` set ?l" using sub(1) assms(3) by (auto simp: map_of_eq_None_iff)
  then have set1: "assemblies r1 = ?l @ [((sender, fid), a)]" by (simp add: r1 dict_set_new)
  have "int (length (assemblies r1)) \<le> max 0 (max_active r)"
    using assms(1) ne unfolding set1 by (cases "assemblies r") (auto simp: reasm_ok_def)
  moreover have "dict_ok (assemblies r1)" using sub(2) by (auto simp: r1)
  moreover have "asm_ok (max_fragments r) (max_bytes r) (sender, fid) a"
    using assms(4,5) by (simp add: a asm_ok_def)
  ultimately show "reasm_ok r1"
    using assms(1) sub(1) c unfolding reasm_ok_def same_config_def set1 by auto
qed

lemma insert_chunk_reasm_ok:
  assumes "reasm_ok r"
  shows "reasm_ok (fst (insert_chunk now sender fid i tot ot c r))"
proof -
  consider "\<not> (0 < tot \<and> 0 \<le> i \<and> i < tot \<and> tot \<le> max_fragments r)"
    | (found) a where "0 < tot" "0 \<le> i" "i < tot" "tot \<le> max_fragments r"
        "dict_get (assemblies r) (sender, fid) = Some a"
    | (new) "0 < tot" "0 \<le> i" "i < tot" "tot \<le> max_fragments r"
        "dict_get (assemblies r) (sender, fid) = None"
    by fastforce
  then show ?thesis
  proof cases
    case 1
    then have "fst (insert_chunk now sender fid i tot ot c r) = r" by (auto simp: insert_chunk_def)
    with assms show ?thesis by simp
  next
    case found
    let ?r1 = "r\<lparr>assemblies := dict_move_to_end (sender, fid) (assemblies r)\<rparr>"
    have r1: "reasm_ok ?r1" "dict_get (assemblies ?r1) (sender, fid) = Some a"
      using reasm_ok_move [OF assms] found(5) assms by (simp_all add: dict_get_move reasm_ok_def)
    have "asm_total a = tot \<Longrightarrow> dict_get (asm_chunks a) i = None \<Longrightarrow>
        reasm_ok (fst (store_chunk (sender, fid) a i c ?r1))"
      using store_chunk_ok [OF r1] found(2,3) by simp
    then show ?thesis
      using found r1(1) reasm_ok_drop [OF r1(1)]
      by (auto simp: insert_chunk_def Let_def split: option.splits)
  next
    case new
    show ?thesis
    proof (cases "open_assembly now sender fid tot ot r")
      case (Inl e)
      with new assms show ?thesis by (simp add: insert_chunk_def)
    next
      case (Inr ra)
      obtain r1 a where ra: "ra = (r1, a)" by (cases ra)
      note o = open_assembly_Inr [OF assms Inr [unfolded ra] new(5,1,4)]
      have "reasm_ok (fst (store_chunk (sender, fid) a i c r1))"
        using store_chunk_ok [OF o(1,3)] new(2,3) o(4) by simp
      then show ?thesis using new Inr ra by (simp add: insert_chunk_def)
    qed
  qed
qed

lemma add_fragment_packet_cases:
  obtains e where "add_fragment_packet now q r = (r, Inl e)"
  | fid i n mt c where "parse_fragment_payload (payload q) = Inr (fid, i, n, mt, c)"
      "add_fragment_packet now q r = insert_chunk now (sender_id q) fid i n mt c r"
proof (cases "parse_fragment_payload (payload q)")
  case (Inl e)
  then have "\<exists>e. add_fragment_packet now q r = (r, Inl e)" by (auto simp: add_fragment_packet_def)
  with that(1) show thesis by blast
next
  case (Inr t)
  obtain fid i n mt c where "t = (fid, i, n, mt, c)" by (cases t)
  with Inr have "(\<exists>e. add_fragment_packet now q r = (r, Inl e)) \<or>
      add_fragment_packet now q r = insert_chunk now (sender_id q) fid i n mt c r"
    by (auto simp: add_fragment_packet_def)
  with that Inr \<open>t = _\<close> show thesis by blast
qed

lemma add_fragment_packet_reasm_ok:
  "reasm_ok r \<Longrightarrow> reasm_ok (fst (add_fragment_packet now q r))"
  by (rule add_fragment_packet_cases [of now q r]) (simp_all add: insert_chunk_reasm_ok)

subsection \<open>What an insertion leaves of the other assemblies\<close>

lemma store_chunk_config: "same_config r (fst (store_chunk key a i c r))"
  by (simp add: store_chunk_def same_config_def drop_assembly_def Let_def)

lemma store_chunk_other:
  "k' \<noteq> key \<Longrightarrow> dict_get (assemblies (fst (store_chunk key a i c r))) k' = dict_get (assemblies r) k'"
  by (simp add: store_chunk_def drop_assembly_def Let_def dict_simps)

lemma store_chunk_keys:
  "fst ` set (assemblies (fst (store_chunk key a i c r))) \<subseteq> insert key (fst ` set (assemblies r))"
  by (auto simp: store_chunk_def drop_assembly_def Let_def dict_keys_set set_dict_pop)

lemma insert_chunk_config: "same_config r (fst (insert_chunk now sender fid i tot ot c r))"
  using store_chunk_config
  by (auto simp: insert_chunk_def open_assembly_def same_config_def drop_assembly_def Let_def
           split: option.split)

text \<open>Another sender, or another fragment identifier, is disturbed only by the eviction of the
  oldest assembly when a new one is opened at the limit.\<close>

lemma insert_chunk_other:
  assumes "reasm_ok r" "k' \<noteq> (sender, fid)"
    and "dict_has (assemblies r) (sender, fid) \<or> int (length (assemblies r)) < max_active r
         \<or> k' \<noteq> fst (hd (assemblies r))"
  shows "dict_get (assemblies (fst (insert_chunk now sender fid i tot ot c r))) k'
     = dict_get (assemblies r) k'"
  using assms
  by (auto simp: insert_chunk_def open_assembly_def drop_assembly_def Let_def dict_simps store_chunk_other
         dict_get_move reasm_ok_def dict_get_tl split: option.split)

lemma insert_chunk_keys:
  assumes "reasm_ok r"
  shows "fst ` set (assemblies (fst (insert_chunk now sender fid i tot ot c r)))
     \<subseteq> insert (sender, fid) (fst ` set (assemblies r))"
proof (cases "\<not> (0 < tot \<and> 0 \<le> i \<and> i < tot \<and> tot \<le> max_fragments r)")
  case True
  then have "fst (insert_chunk now sender fid i tot ot c r) = r" by (auto simp: insert_chunk_def)
  then show ?thesis by auto
next
  case False
  have mv: "set (dict_move_to_end (sender, fid) (assemblies r)) = set (assemblies r)"
    using assms by (simp add: set_dict_move reasm_ok_def)
  have tl: "fst ` set (tl (assemblies r)) \<subseteq> fst ` set (assemblies r)"
    by (cases "assemblies r") auto
  note sk = store_chunk_keys [of "(sender, fid)"]
  show ?thesis
  proof (cases "dict_get (assemblies r) (sender, fid)")
    case (Some a)
    then show ?thesis
      using False mv sk [of a i c "r\<lparr>assemblies := dict_move_to_end (sender, fid) (assemblies r)\<rparr>"]
      by (auto simp: insert_chunk_def drop_assembly_def Let_def set_dict_pop split: option.split)
  next
    case None
    show ?thesis
    proof (cases "open_assembly now sender fid tot ot r")
      case (Inr ra)
      obtain r1 a where ra: "ra = (r1, a)" by (cases ra)
      have "assemblies r1 = dict_set (sender, fid) a (tl (assemblies r))
          \<or> assemblies r1 = dict_set (sender, fid) a (assemblies r)"
        using Inr unfolding ra by (auto simp: open_assembly_def Let_def split: if_splits)
      then have "fst ` set (assemblies r1) \<subseteq> insert (sender, fid) (fst ` set (assemblies r))"
        using tl by (elim disjE) (simp_all only: dict_keys_set, blast+)
      then have "fst ` set (assemblies (fst (store_chunk (sender, fid) a i c r1)))
          \<subseteq> insert (sender, fid) (fst ` set (assemblies r))"
        using sk [of a i c r1] by blast
      then show ?thesis using False None Inr ra by (simp add: insert_chunk_def)
    qed (use False None in \<open>auto simp: insert_chunk_def\<close>)
  qed
qed

subsection \<open>Progress of one assembly\<close>

text \<open>The chunks \<open>g k\<close> for \<open>k \<in> K\<close> have been collected.\<close>

definition collected :: "(nat \<Rightarrow> bytes) \<Rightarrow> nat set \<Rightarrow> (int, bytes) dict \<Rightarrow> nat \<Rightarrow> bool" where
  "collected g K cs b \<longleftrightarrow> dict_ok cs \<and> fst ` set cs = int ` K \<and>
     (\<forall>k \<in> K. dict_get cs (int k) = Some (g k)) \<and> b = (\<Sum>k \<in> K. length (g k))"

definition in_progress ::
  "bytes \<times> bytes \<Rightarrow> nat \<Rightarrow> int \<Rightarrow> (nat \<Rightarrow> bytes) \<Rightarrow> nat set \<Rightarrow> reassembler \<Rightarrow> bool" where
  "in_progress key n ot g K r \<longleftrightarrow>
     (if K = {} then dict_get (assemblies r) key = None
      else \<exists>a. dict_get (assemblies r) key = Some a \<and> asm_total a = int n \<and> asm_type a = ot \<and>
             collected g K (asm_chunks a) (asm_bytes a))"

lemma collected_step:
  assumes "collected g K cs b" "k \<notin> K" "finite K"
  shows "collected g (insert k K) (dict_set (int k) (g k) cs) (b + length (g k))"
  using assms by (auto simp: collected_def dict_simps)

lemma collected_length:
  assumes "collected g K cs b"
  shows "length cs = card K"
proof -
  have "length cs = card (fst ` set cs)"
    using assms distinct_card [of "map fst cs"] by (simp add: collected_def)
  also have "\<dots> = card K" using assms by (simp add: collected_def card_image)
  finally show ?thesis .
qed

lemma store_chunk_progress:
  assumes a: "asm_total a = int n" "asm_type a = ot" "collected g K (asm_chunks a) (asm_bytes a)"
    and k: "k \<notin> K" "insert k K \<subseteq> {..<n}" and room: "int (\<Sum>k < n. length (g k)) \<le> max_bytes r"
  shows "if insert k K = {..<n}
     then snd (store_chunk key a (int k) (g k) r) = Inr (Some (concat (map g [0 ..< n]))) \<and>
          in_progress key n ot g {} (fst (store_chunk key a (int k) (g k) r))
     else snd (store_chunk key a (int k) (g k) r) = Inr None \<and>
          in_progress key n ot g (insert k K) (fst (store_chunk key a (int k) (g k) r))"
proof -
  have fin: "finite K" using k(2) finite_subset by auto
  let ?cs = "dict_set (int k) (g k) (asm_chunks a)"
  let ?b = "asm_bytes a + length (g k)"
  have c: "collected g (insert k K) ?cs ?b" using collected_step [OF a(3) k(1) fin] .
  then have "?b = (\<Sum>k \<in> insert k K. length (g k))" by (simp only: collected_def)
  also have "\<dots> \<le> (\<Sum>k < n. length (g k))" using k(2) by (intro sum_mono2) auto
  finally have "int ?b \<le> int (\<Sum>k < n. length (g k))" by (rule of_nat_mono)
  then have "int ?b \<le> max_bytes r" using room by (rule order_trans)
  then have fits: "\<not> int ?b > max_bytes r" by simp
  have len: "length ?cs = card (insert k K)" using collected_length [OF c] .
  show ?thesis
  proof (cases "insert k K = {..<n}")
    case True
    then have has: "\<not> (\<exists>i \<in> set [0 ..< n]. \<not> dict_has ?cs (int i))"
      and get: "\<And>i. i < n \<Longrightarrow> dict_get ?cs (int i) = Some (g i)"
      using c by (auto simp: collected_def)
    have "joined_chunks ?cs n = concat (map g [0 ..< n])"
      using get unfolding joined_chunks_def by (metis (mono_tags, lifting) atLeastLessThan_iff
          map_eq_conv option.sel set_upt)
    moreover have "store_chunk key a (int k) (g k) r =
        (drop_assembly key r, Inr (Some (joined_chunks ?cs n)))"
      using fits has True len a(1) by (simp add: store_chunk_def Let_def drop_assembly_def)
    ultimately show ?thesis
      using True by (simp add: in_progress_def drop_assembly_def dict_simps)
  next
    case False
    then have "card (insert k K) < n" using k(2) psubset_card_mono [of "{..<n}" "insert k K"] by auto
    then have "store_chunk key a (int k) (g k) r =
      (r\<lparr>assemblies := dict_set key (a\<lparr>asm_chunks := ?cs, asm_bytes := ?b\<rparr>) (assemblies r)\<rparr>, Inr None)"
      using fits len a(1) by (simp add: store_chunk_def Let_def)
    then show ?thesis using False a c by (simp add: in_progress_def dict_simps)
  qed
qed

lemma insert_chunk_progress:
  assumes ok: "reasm_ok r" and p: "in_progress (s, f) n ot g K r"
    and k: "k \<notin> K" "insert k K \<subseteq> {..<n}"
    and lim: "int (\<Sum>k < n. length (g k)) \<le> max_bytes r" "int n \<le> max_fragments r" "1 \<le> max_active r"
  shows "if insert k K = {..<n}
     then snd (insert_chunk now s f (int k) (int n) ot (g k) r) = Inr (Some (concat (map g [0 ..< n])))
     else snd (insert_chunk now s f (int k) (int n) ot (g k) r) = Inr None \<and>
          in_progress (s, f) n ot g (insert k K) (fst (insert_chunk now s f (int k) (int n) ot (g k) r))"
proof (cases "K = {}")
  case True
  have "\<exists>r1 a. open_assembly now s f (int n) ot r = Inr (r1, a)"
    using lim(3) by (auto simp: open_assembly_def Let_def)
  then obtain r1 a where o: "open_assembly now s f (int n) ot r = Inr (r1, a)" by blast
  have none: "dict_get (assemblies r) (s, f) = None" using p True by (simp add: in_progress_def)
  have "0 < int n" using k(2) by auto
  note oa = open_assembly_Inr [OF ok o none this lim(2)]
  have "insert_chunk now s f (int k) (int n) ot (g k) r = store_chunk (s, f) a (int k) (g k) r1"
    using k(2) lim none o by (auto simp: insert_chunk_def)
  moreover have "collected g K (asm_chunks a) (asm_bytes a)" using oa(4) True by (simp add: collected_def)
  moreover have "int (\<Sum>k < n. length (g k)) \<le> max_bytes r1" using oa(2) lim by (simp add: same_config_def)
  ultimately show ?thesis
    using store_chunk_progress [of a n ot g K k r1 "(s, f)"] oa(4) k by (simp split: if_splits)
next
  case False
  then obtain a where a: "dict_get (assemblies r) (s, f) = Some a" "asm_total a = int n" "asm_type a = ot"
    "collected g K (asm_chunks a) (asm_bytes a)" using p by (auto simp: in_progress_def)
  have "dict_get (asm_chunks a) (int k) = None"
    using a(4) k(1) by (auto simp: collected_def map_of_eq_None_iff)
  then have "insert_chunk now s f (int k) (int n) ot (g k) r = store_chunk (s, f) a (int k) (g k)
      (r\<lparr>assemblies := dict_move_to_end (s, f) (assemblies r)\<rparr>)"
    using k(2) lim a by (auto simp: insert_chunk_def Let_def)
  then show ?thesis
    using store_chunk_progress [OF a(2-4) k, of "r\<lparr>assemblies := dict_move_to_end (s, f) (assemblies r)\<rparr>" "(s, f)"]
      lim by (simp split: if_splits)
qed

lemma insert_chunk_duplicate:
  assumes ok: "reasm_ok r" and p: "in_progress (s, f) n ot g K r" and k: "k \<in> K" "K \<subseteq> {..<n}"
    and lim: "int n \<le> max_fragments r"
  shows "snd (insert_chunk now s f (int k) (int n) ot (g k) r) = Inr None"
    "in_progress (s, f) n ot g K (fst (insert_chunk now s f (int k) (int n) ot (g k) r))"
proof -
  obtain a where a: "dict_get (assemblies r) (s, f) = Some a" "asm_total a = int n" "asm_type a = ot"
    "collected g K (asm_chunks a) (asm_bytes a)" using p k(1) by (auto simp: in_progress_def split: if_splits)
  then have "dict_get (asm_chunks a) (int k) = Some (g k)" using k by (auto simp: collected_def)
  then have e: "insert_chunk now s f (int k) (int n) ot (g k) r =
      (r\<lparr>assemblies := dict_move_to_end (s, f) (assemblies r)\<rparr>, Inr None)"
    using k lim a by (auto simp: insert_chunk_def Let_def)
  show "snd (insert_chunk now s f (int k) (int n) ot (g k) r) = Inr None" by (simp add: e)
  show "in_progress (s, f) n ot g K (fst (insert_chunk now s f (int k) (int n) ot (g k) r))"
  proof -
    have "dict_get (assemblies (r\<lparr>assemblies := dict_move_to_end (s, f) (assemblies r)\<rparr>)) = dict_get (assemblies r)"
      using ok by (simp add: reasm_ok_def dict_get_move)
    with p show ?thesis unfolding e in_progress_def fst_conv by (simp only:)
  qed
qed

subsection \<open>Runs\<close>

text \<open>Packets arriving one after the other; the results are dropped.\<close>

definition arrive :: "(real \<times> packet) list \<Rightarrow> reassembler \<Rightarrow> reassembler" where
  "arrive es r = fold (\<lambda>(now, q) r. fst (add_fragment_packet now q r)) es r"

lemma arrive_Nil [simp]: "arrive [] r = r"
  by (simp add: arrive_def)

lemma arrive_snoc [simp]: "arrive (es @ [(now, q)]) r = fst (add_fragment_packet now q (arrive es r))"
  by (simp add: arrive_def)

lemma arrive_reasm_ok: "reasm_ok r \<Longrightarrow> reasm_ok (arrive es r)"
  by (induction es rule: rev_induct) (auto simp: add_fragment_packet_reasm_ok)

lemma add_fragment_packet_config: "same_config r (fst (add_fragment_packet now q r))"
  by (rule add_fragment_packet_cases [of now q r]) (simp_all add: insert_chunk_config, simp add: same_config_def)

lemma arrive_config: "same_config r (arrive es r)"
proof (induction es rule: rev_induct)
  case (snoc e es)
  obtain now q where "e = (now, q)" by (cases e)
  then show ?case using snoc add_fragment_packet_config [of "arrive es r" now q] by (simp add: same_config_def)
qed (simp add: same_config_def)

text \<open>A packet of another assembly, out of at most \<open>max_active\<close> assemblies named in \<open>Ks\<close>.\<close>

definition foreign :: "bytes \<times> bytes \<Rightarrow> (bytes \<times> bytes) set \<Rightarrow> packet \<Rightarrow> bool" where
  "foreign key Ks q \<longleftrightarrow>
     (case parse_fragment_payload (payload q) of
        Inl e \<Rightarrow> True
      | Inr (f, i, n, mt, c) \<Rightarrow> (sender_id q, f) \<noteq> key \<and> (sender_id q, f) \<in> Ks)"

lemma arrive_foreign:
  assumes "reasm_ok r" "foreign key Ks q" "finite Ks" "int (card Ks) \<le> max_active r"
    "fst ` set (assemblies r) \<subseteq> Ks"
  shows "dict_get (assemblies (fst (add_fragment_packet now q r))) key = dict_get (assemblies r) key
     \<and> fst ` set (assemblies (fst (add_fragment_packet now q r))) \<subseteq> Ks"
proof (cases rule: add_fragment_packet_cases [of now q r])
  case (1 e)
  with assms(5) show ?thesis by simp
next
  case (2 f i n mt c)
  have k: "(sender_id q, f) \<noteq> key" "(sender_id q, f) \<in> Ks"
    using assms(2) unfolding foreign_def 2(1) by simp_all
  have "int (length (assemblies r)) < max_active r" if "\<not> dict_has (assemblies r) (sender_id q, f)"
  proof -
    have "(sender_id q, f) \<notin> fst ` set (assemblies r)" using that by (simp add: map_of_eq_None_iff)
    then have "fst ` set (assemblies r) \<subset> Ks" using assms(5) k(2) by blast
    then have "card (fst ` set (assemblies r)) < card Ks" by (rule psubset_card_mono [OF assms(3)])
    moreover have "card (fst ` set (assemblies r)) = length (assemblies r)"
      using assms(1) distinct_card [of "map fst (assemblies r)"] by (simp add: reasm_ok_def)
    ultimately show ?thesis using assms(4) by simp
  qed
  then have "dict_has (assemblies r) (sender_id q, f) \<or> int (length (assemblies r)) < max_active r
      \<or> key \<noteq> fst (hd (assemblies r))" by satx
  note o = insert_chunk_other [OF assms(1) k(1) [symmetric] this]
  have "insert (sender_id q, f) (fst ` set (assemblies r)) \<subseteq> Ks" using assms(5) k(2) by simp
  note s = subset_trans [OF insert_chunk_keys [OF assms(1)] this]
  show ?thesis unfolding 2(2) by (intro conjI o s)
qed

subsection \<open>The fragments of a packet\<close>

lemma add_fragment_at:
  assumes "length fid = 8" "k < fragment_count w" "2 \<le> fragment_count w" "fragment_count w \<le> 1000"
  shows "add_fragment_packet now (fragment_at fid p w k) r =
     insert_chunk now (sender_id p) fid (int k) (int (fragment_count w)) (mt_value (message_type p))
       (py_slice (k * 150) (k * 150 + 150) w) r"
proof -
  have "message_type (fragment_at fid p w k) = fragment_type (int k) (int (fragment_count w))"
    "sender_id (fragment_at fid p w k) = sender_id p" by (simp_all add: fragment_at_def)
  then show ?thesis
    using parse_fragment_at [OF assms(1,2,4), of p] assms(2,3)
    by (auto simp: add_fragment_packet_def fragment_type_def)
qed

lemma sum_slices: "(\<Sum>k < fragment_count w. length (py_slice (k * 150) (k * 150 + 150) w)) = length w"
proof -
  have "length w = length (concat (map (\<lambda>k. py_slice (k * 150) (k * 150 + 150) w) [0 ..< fragment_count w]))"
    by (simp only: concat_fragment_chunks)
  also have "\<dots> = (\<Sum>k < fragment_count w. length (py_slice (k * 150) (k * 150 + 150) w))"
    unfolding length_concat map_map comp_def by (simp only: interv_sum_list_conv_sum_set_nat lessThan_atLeast0 set_upt)
  finally show ?thesis by (rule sym)
qed

lemma arrive_progress:
  assumes ok: "reasm_ok r" and fid: "length fid = 8" and n: "2 \<le> fragment_count w" "fragment_count w \<le> 1000"
    and lim: "int (length w) \<le> max_bytes r" "int (fragment_count w) \<le> max_fragments r"
    and Ks: "finite Ks" "int (card Ks) \<le> max_active r" "fst ` set (assemblies r) \<subseteq> Ks"
      "(sender_id p, fid) \<in> Ks" "dict_get (assemblies r) (sender_id p, fid) = None"
    and es: "\<forall>e \<in> set es. (\<exists>k < fragment_count w. k \<noteq> k0 \<and> snd e = fragment_at fid p w k)
      \<or> foreign (sender_id p, fid) Ks (snd e)" and k0: "k0 < fragment_count w"
  shows "\<exists>K. K \<subseteq> {..< fragment_count w} - {k0} \<and>
     (\<forall>k < fragment_count w. k \<noteq> k0 \<longrightarrow> fragment_at fid p w k \<in> snd ` set es \<longrightarrow> k \<in> K) \<and>
     fst ` set (assemblies (arrive es r)) \<subseteq> Ks \<and>
     in_progress (sender_id p, fid) (fragment_count w) (mt_value (message_type p))
       (\<lambda>k. py_slice (k * 150) (k * 150 + 150) w) K (arrive es r)"
  using es
proof (induction es rule: rev_induct)
  case Nil
  then show ?case using Ks by (auto simp: in_progress_def)
next
  case (snoc e es)
  let ?n = "fragment_count w" and ?g = "\<lambda>k. py_slice (k * 150) (k * 150 + 150) w"
    and ?key = "(sender_id p, fid)" and ?mt = "mt_value (message_type p)"
  obtain now q where e: "e = (now, q)" by (cases e)
  let ?r = "arrive es r"
  have ok': "reasm_ok ?r" using ok by (rule arrive_reasm_ok)
  have cf: "same_config r ?r" by (rule arrive_config)
  obtain K where K: "K \<subseteq> {..< ?n} - {k0}"
    "\<forall>k < ?n. k \<noteq> k0 \<longrightarrow> fragment_at fid p w k \<in> snd ` set es \<longrightarrow> k \<in> K"
    "fst ` set (assemblies ?r) \<subseteq> Ks" "in_progress ?key ?n ?mt ?g K ?r"
    using snoc by auto
  consider (own) k where "k < ?n" "k \<noteq> k0" "q = fragment_at fid p w k"
    | (other) "foreign ?key Ks q" using snoc.prems e by auto
  then show ?case
  proof cases
    case own
    have ins: "add_fragment_packet now q ?r = insert_chunk now (sender_id p) fid (int k) (int ?n) ?mt (?g k) ?r"
      unfolding own(3) by (rule add_fragment_at [OF fid own(1) n])
    have "in_progress ?key ?n ?mt ?g (insert k K) (fst (add_fragment_packet now q ?r))"
    proof (cases "k \<in> K")
      case True
      have lf: "int ?n \<le> max_fragments ?r" using lim cf by (simp add: same_config_def)
      have "K \<subseteq> {..< ?n}" using K(1) by blast
      then show ?thesis
        using insert_chunk_duplicate(2) [OF ok' K(4) True _ lf] True unfolding ins
        by (simp add: insert_absorb)
    next
      case False
      have "int (\<Sum>k < ?n. length (?g k)) \<le> max_bytes ?r" "int ?n \<le> max_fragments ?r"
        using lim cf by (simp_all only: sum_slices same_config_def)
      moreover have "1 \<le> max_active ?r"
        using Ks card_gt_0_iff [of Ks] cf by (auto simp: same_config_def)
      moreover have "insert k K \<subseteq> {..< ?n}" "insert k K \<noteq> {..< ?n}" using K(1) own k0 by auto
      ultimately show ?thesis
        using insert_chunk_progress [OF ok' K(4) False] unfolding ins by simp
    qed
    moreover have "fst ` set (assemblies (fst (add_fragment_packet now q ?r))) \<subseteq> Ks"
      unfolding ins using insert_chunk_keys [OF ok'] K(3) Ks(4) by (meson insert_subset order_trans subset_refl)
    moreover have "fragment_at fid p w k' = fragment_at fid p w k \<Longrightarrow> k' < ?n \<Longrightarrow> k' = k" for k'
      using parse_fragment_at [OF fid own(1) n(2), of p] parse_fragment_at [OF fid _ n(2), of k' p] by simp
    ultimately show ?thesis
      using K(1,2) own e by (intro exI [of _ "insert k K"]) auto
  next
    case other
    have "int (card Ks) \<le> max_active ?r" using Ks cf by (simp add: same_config_def)
    from arrive_foreign [OF ok' other Ks(1) this K(3), of now]
    have "in_progress ?key ?n ?mt ?g K (fst (add_fragment_packet now q ?r))"
      "fst ` set (assemblies (fst (add_fragment_packet now q ?r))) \<subseteq> Ks"
      using K(4) by (simp_all only: in_progress_def)
    moreover have "k \<in> K" if "k < ?n" "k \<noteq> k0" "fragment_at fid p w k = q" for k
      using other that parse_fragment_at [OF fid that(1) n(2), of p]
      by (auto simp: foreign_def fragment_at_def)
    ultimately show ?thesis
      using K(1,2) e by (intro exI [of _ K]) auto
  qed
qed

subsection \<open>Provenance of the collected chunks\<close>

text \<open>A received fragment: its assembly, index, total, original type and data.\<close>

type_synonym received = "(bytes \<times> bytes) \<times> int \<times> int \<times> int \<times> bytes"

definition from_received :: "received set \<Rightarrow> reassembler \<Rightarrow> bool" where
  "from_received H r \<longleftrightarrow>
     (\<forall>(key, a) \<in> set (assemblies r). \<forall>(i, c) \<in> set (asm_chunks a).
        (key, i, asm_total a, asm_type a, c) \<in> H)"

definition received_from :: "packet list \<Rightarrow> received set" where
  "received_from qs = {((sender_id q, fid), i, n, mt, c) | q fid i n mt c.
     q \<in> set qs \<and> parse_fragment_payload (payload q) = Inr (fid, i, n, mt, c)}"

lemma from_received_mono: "from_received H r \<Longrightarrow> H \<subseteq> H' \<Longrightarrow> from_received H' r"
  unfolding from_received_def by blast

lemma received_from_mono: "set qs \<subseteq> set qs' \<Longrightarrow> received_from qs \<subseteq> received_from qs'"
  unfolding received_from_def by blast

lemma received_fromI:
  "q \<in> set qs \<Longrightarrow> parse_fragment_payload (payload q) = Inr (fid, i, n, mt, c) \<Longrightarrow>
     ((sender_id q, fid), i, n, mt, c) \<in> received_from qs"
  unfolding received_from_def by blast

lemma received_fromD:
  "((s, fid), i, n, mt, c) \<in> received_from qs \<Longrightarrow>
     \<exists>q \<in> set qs. sender_id q = s \<and> parse_fragment_payload (payload q) = Inr (fid, i, n, mt, c)"
  unfolding received_from_def by blast

lemma store_chunk_received:
  assumes ok: "reasm_ok r" "dict_get (assemblies r) key = Some a" "0 \<le> i" "i < asm_total a"
      "dict_get (asm_chunks a) i = None"
    and H: "from_received H r" "(key, i, asm_total a, asm_type a, c) \<in> H"
  shows "from_received H (fst (store_chunk key a i c r))"
    "snd (store_chunk key a i c r) = Inr (Some d) \<Longrightarrow>
       \<exists>cs. d = concat cs \<and> int (length cs) = asm_total a \<and>
         (\<forall>k < length cs. (key, int k, asm_total a, asm_type a, cs ! k) \<in> H)"
proof -
  have a: "asm_ok (max_fragments r) (max_bytes r) key a"
    using ok(1,2) by (force simp: reasm_ok_def dest: map_of_SomeD)
  let ?cs = "dict_set i c (asm_chunks a)"
  have cs: "(key, j, asm_total a, asm_type a, x) \<in> H" if "(j, x) \<in> set ?cs" for j x
  proof -
    have "(j, x) = (i, c) \<or> (j, x) \<in> set (asm_chunks a)" using that dict_set_subset by fastforce
    moreover have "(key, a) \<in> set (assemblies r)" using ok(2) by (rule map_of_SomeD)
    ultimately show ?thesis using H unfolding from_received_def by blast
  qed
  have sub: "set (dict_set key x (assemblies r)) \<subseteq> insert (key, x) (set (assemblies r))" for x
    by (rule dict_set_subset)
  show "from_received H (fst (store_chunk key a i c r))"
    using H(1) cs sub
    by (auto simp: from_received_def store_chunk_def drop_assembly_def Let_def set_dict_pop) fastforce+
  assume s: "snd (store_chunk key a i c r) = Inr (Some d)"
  have idx: "\<forall>j \<in> fst ` set ?cs. 0 \<le> j \<and> j < asm_total a" "dict_ok ?cs"
    using a ok(3,4,5) by (auto simp: asm_ok_def dict_keys_set)
  from s have d: "d = joined_chunks ?cs (nat (asm_total a))" and full: "int (length ?cs) = asm_total a"
    by (auto simp: store_chunk_def Let_def split: if_splits)
  let ?xs = "map (\<lambda>k. the (dict_get ?cs (int k))) [0 ..< nat (asm_total a)]"
  have "(key, int k, asm_total a, asm_type a, ?xs ! k) \<in> H" if "k < length ?xs" for k
  proof -
    have "dict_has ?cs (int k)"
      by (rule all_keys_covered [OF idx(2,1) full]) (use that in auto)
    then obtain x where "dict_get ?cs (int k) = Some x" by blast
    then show ?thesis using cs [OF map_of_SomeD, of "int k" x] that by simp
  qed
  moreover have "int (length ?xs) = asm_total a" using full by simp
  moreover have "d = concat ?xs" using d by (simp add: joined_chunks_def)
  ultimately show "\<exists>cs. d = concat cs \<and> int (length cs) = asm_total a \<and>
         (\<forall>k < length cs. (key, int k, asm_total a, asm_type a, cs ! k) \<in> H)" by blast
qed

lemma insert_chunk_received:
  assumes ok: "reasm_ok r" and H: "from_received H r" "((s, f), i, tot, ot, c) \<in> H"
  shows "from_received H (fst (insert_chunk now s f i tot ot c r)) \<and>
    (snd (insert_chunk now s f i tot ot c r) = Inr (Some d) \<longrightarrow>
       (\<exists>cs. d = concat cs \<and> int (length cs) = tot \<and>
         (\<forall>k < length cs. ((s, f), int k, tot, ot, cs ! k) \<in> H)))"
proof -
  consider "\<not> (0 < tot \<and> 0 \<le> i \<and> i < tot \<and> tot \<le> max_fragments r)"
    | (found) a where "0 < tot" "0 \<le> i" "i < tot" "tot \<le> max_fragments r"
        "dict_get (assemblies r) (s, f) = Some a"
    | (new) "0 < tot" "0 \<le> i" "i < tot" "tot \<le> max_fragments r"
        "dict_get (assemblies r) (s, f) = None"
    by fastforce
  then show ?thesis
  proof cases
    case 1
    then have "fst (insert_chunk now s f i tot ot c r) = r"
      "snd (insert_chunk now s f i tot ot c r) \<noteq> Inr (Some d)" by (auto simp: insert_chunk_def)
    with H show ?thesis by simp
  next
    case found
    let ?r1 = "r\<lparr>assemblies := dict_move_to_end (s, f) (assemblies r)\<rparr>"
    have r1: "reasm_ok ?r1" "dict_get (assemblies ?r1) (s, f) = Some a" "from_received H ?r1"
      using reasm_ok_move [OF ok] found(5) ok H(1)
      by (simp_all add: dict_get_move set_dict_move reasm_ok_def from_received_def)
    have dr: "from_received H (drop_assembly (s, f) ?r1)"
      using r1(3) by (auto simp: from_received_def drop_assembly_def set_dict_pop)
    show ?thesis
    proof (cases "asm_total a = tot \<and> asm_type a = ot \<and> dict_get (asm_chunks a) i = None")
      case True
      then have "insert_chunk now s f i tot ot c r = store_chunk (s, f) a i c ?r1"
        using found by (simp add: insert_chunk_def Let_def)
      then show ?thesis
        using store_chunk_received(1) [OF r1(1,2) _ _ _ r1(3), of i c]
          store_chunk_received(2) [OF r1(1,2) _ _ _ r1(3), of i c d] True found H(2) by simp
    next
      case False
      then have "insert_chunk now s f i tot ot c r \<in>
          {(drop_assembly (s, f) ?r1, Inl InvalidFragmentError), (?r1, Inr None)}"
        using found by (auto simp: insert_chunk_def Let_def split: option.splits)
      then show ?thesis using dr r1(3) by auto
    qed
  next
    case new
    show ?thesis
    proof (cases "open_assembly now s f tot ot r")
      case (Inl e)
      with new H show ?thesis by (simp add: insert_chunk_def)
    next
      case (Inr ra)
      obtain r1 a where ra: "ra = (r1, a)" by (cases ra)
      note o = open_assembly_Inr [OF ok Inr [unfolded ra] new(5,1,4)]
      have "assemblies r1 = dict_set (s, f) a (tl (assemblies r))
          \<or> assemblies r1 = dict_set (s, f) a (assemblies r)"
        using Inr unfolding ra by (auto simp: open_assembly_def Let_def split: if_splits)
      moreover have "set (tl (assemblies r)) \<subseteq> set (assemblies r)" by (cases "assemblies r") auto
      ultimately have "set (assemblies r1) \<subseteq> insert ((s, f), a) (set (assemblies r))"
        using dict_set_subset by (elim disjE) (force, force)
      moreover have "asm_chunks a = []" by (simp add: o(4))
      ultimately have "from_received H r1" using H(1) unfolding from_received_def by fastforce
      moreover have "insert_chunk now s f i tot ot c r = store_chunk (s, f) a i c r1"
        using new Inr ra by (simp add: insert_chunk_def)
      ultimately show ?thesis
        using store_chunk_received(1) [OF o(1,3), of i H c]
          store_chunk_received(2) [OF o(1,3), of i H c d] new H(2) o(4) by simp
    qed
  qed
qed

lemma arrive_received:
  "reasm_ok r \<Longrightarrow> assemblies r = [] \<Longrightarrow> from_received (received_from (map snd es)) (arrive es r)"
proof (induction es rule: rev_induct)
  case (snoc e es)
  obtain now q where e: "e = (now, q)" by (cases e)
  let ?H = "received_from (map snd (es @ [e]))"
  have "received_from (map snd es) \<subseteq> ?H" by (rule received_from_mono) auto
  then have H: "from_received ?H (arrive es r)" using snoc from_received_mono by blast
  have "from_received ?H (fst (add_fragment_packet now q (arrive es r)))"
  proof (cases rule: add_fragment_packet_cases [of now q "arrive es r"])
    case (1 x)
    with H show ?thesis by simp
  next
    case (2 f i n mt c)
    then have "((sender_id q, f), i, n, mt, c) \<in> ?H" unfolding received_from_def e by fastforce
    with insert_chunk_received [OF arrive_reasm_ok [OF snoc.prems(1)] H] show ?thesis unfolding 2(2) by blast
  qed
  then show ?case by (simp add: e)
qed (simp add: from_received_def)

subsection \<open>Properties\<close>

lemma encoded_fragments:
  assumes "valid_packet p" "urandom_ok u" "encode_packet u p True = Inr w" "should_fragment_bytes w"
    "length fid = 8"
  shows "fragment_packet u u' now p (Some fid) = Inr (map (fragment_at fid p w) [0 ..< fragment_count w])"
    "4 \<le> fragment_count w" "fragment_count w \<le> 438" "length w \<le> 65629"
proof -
  have l: "500 < length w" using assms(4) by (simp add: should_fragment_bytes_def)
  show "fragment_packet u u' now p (Some fid) = Inr (map (fragment_at fid p w) [0 ..< fragment_count w])"
    by (rule fragment_packet_eq [OF assms(1-3) l assms(5)])
  show m: "length w \<le> 65629"
    using length_encode [OF assms(1-3)] length_wire_le [OF assms(1)] l
    by (auto simp: padded_size_cases split: if_splits)
  show "4 \<le> fragment_count w" "fragment_count w \<le> 438"
    using l m by (auto simp: fragment_count_def less_eq_div_iff_mult_less_eq)
qed

lemma encode_true_wire: "valid_packet p \<Longrightarrow> 500 < length (wire p) \<Longrightarrow> length (wire p) < 769 \<Longrightarrow>
   encode_packet zeros p True = Inr (wire p)"
  by (simp add: encode_padded pad_packet_data_def get_optimal_block_size_cases Let_def)


lemma version_big [simp]: "version big_packet = 1"
  by (simp add: big_packet_def)

lemma big_fragments:
  "\<exists>fs. fragment_packet zeros zeros 0 big_packet (Some (replicate 8 9)) = Inr fs \<and> length fs = 5"
proof -
  have l: "length (wire big_packet) = 630"
    unfolding length_wire [OF valid_big]
    by (simp add: expected_unpadded_size_def big_packet_def sample_packet_def
        has_recipient_def has_signature_def)
  have e: "encode_packet zeros big_packet True = Inr (wire big_packet)"
    by (rule encode_true_wire) (simp_all add: l)
  have "length (replicate 8 (9 :: byte)) = 8" by simp
  from encoded_fragments(1) [OF valid_big urandom_ok_zeros e _ this, of zeros 0]
  show ?thesis by (simp add: should_fragment_bytes_def l fragment_count_def)
qed


text \<open>
  C33. Sender isolation: whatever packets a reassembler has received since it was empty, when it
  returns octets on the arrival of a packet \<open>q\<close>, these are the concatenation of chunks that all
  came in received packets from the sender of \<open>q\<close> under one fragment identifier, one for each
  index, with the same total and the same original type. No chunk of another sender or of
  another assembly is ever mixed in.
\<close>

theorem reassembly_sender_isolation:
  assumes "snd (add_fragment_packet now q (arrive es (FragmentReassembler ma mf mb))) = Inr (Some d)"
  shows "\<exists>fid n mt cs. d = concat cs \<and> int (length cs) = n \<and>
     (\<forall>k < length cs. \<exists>q' \<in> set (map snd es @ [q]). sender_id q' = sender_id q \<and>
        parse_fragment_payload (payload q') = Inr (fid, int k, n, mt, cs ! k))"
proof -
  let ?r = "arrive es (FragmentReassembler ma mf mb)" and ?H = "received_from (map snd es @ [q])"
  have ok: "reasm_ok ?r" by (intro arrive_reasm_ok reasm_ok_new)
  have "received_from (map snd es) \<subseteq> ?H" by (rule received_from_mono) auto
  moreover have "from_received (received_from (map snd es)) ?r"
    by (rule arrive_received [OF reasm_ok_new]) (simp add: FragmentReassembler_def)
  ultimately have H: "from_received ?H ?r" by (rule from_received_mono [rotated])
  show ?thesis
  proof (cases rule: add_fragment_packet_cases [of now q ?r])
    case (1 e)
    with assms show ?thesis by simp
  next
    case (2 f i n mt c)
    have "((sender_id q, f), i, n, mt, c) \<in> ?H" by (rule received_fromI [OF _ 2(1)]) simp
    then have "snd (insert_chunk now (sender_id q) f i n mt c ?r) = Inr (Some d) \<longrightarrow>
       (\<exists>cs. d = concat cs \<and> int (length cs) = n \<and>
         (\<forall>k < length cs. ((sender_id q, f), int k, n, mt, cs ! k) \<in> ?H))"
      by (rule insert_chunk_received [OF ok H, THEN conjunct2])
    then obtain cs where cs: "d = concat cs" "int (length cs) = n"
      "\<forall>k < length cs. ((sender_id q, f), int k, n, mt, cs ! k) \<in> ?H"
      using assms [unfolded 2(2)] by blast
    have "\<forall>k < length cs. \<exists>q' \<in> set (map snd es @ [q]). sender_id q' = sender_id q \<and>
        parse_fragment_payload (payload q') = Inr (f, int k, n, mt, cs ! k)"
      using cs(3) by (intro allI impI received_fromD) simp
    with cs(1,2) show ?thesis by blast
  qed
qed

definition small_fragment :: "int \<Rightarrow> byte \<Rightarrow> packet" where
  "small_fragment k b = \<lparr>version = 1, message_type = fragment_type k 2, ttl = 7, timestamp = 0,
     flags = 0, sender_id = replicate 8 1, recipient_id = None,
     payload = replicate 8 9 @ be_bytes 2 k @ be_bytes 2 2 @ be_bytes 1 4 @ [b], signature = None\<rparr>"

lemma small_fragments:
  "snd (add_fragment_packet 1 (small_fragment 1 66) (arrive [(0, small_fragment 0 65)]
     (FragmentReassembler 1 2 2))) = Inr (Some [65, 66])"
  by code_simp

theorem reassembly_sender_isolation_witness:
  "\<exists>fid n mt cs. [65, 66] = concat cs \<and> int (length cs) = n \<and>
     (\<forall>k < length cs. \<exists>q' \<in> set (map snd [(0 :: real, small_fragment 0 65)] @ [small_fragment 1 66]).
        sender_id q' = sender_id (small_fragment 1 66) \<and>
        parse_fragment_payload (payload q') = Inr (fid, int k, n, mt, cs ! k))"
  by (rule reassembly_sender_isolation [OF small_fragments])

lemma reasm_prune_eq:
  assumes "reasm_ok r"
  shows "fst (reasm_prune_stale now age r) =
     r\<lparr>assemblies := filter (\<lambda>e. now - asm_created_at (snd e) \<le> age) (assemblies r)\<rparr>"
  using assms dict_pop_all_where [of "assemblies r"]
  by (simp add: reasm_prune_stale_def reasm_ok_def not_less)

text \<open>
  C34. Resource bounds: every operation of the reassembler keeps its invariant. At most
  \<open>max_active\<close> assemblies are in flight; in each of them the indices are below the total, the
  total is at most \<open>max_fragments\<close>, at least one chunk is missing, and the octet count is the sum
  of the chunks and at most \<open>max_bytes\<close>.
\<close>

theorem reassembler_invariant:
  assumes "reasm_ok r"
  shows "reasm_ok (fst (add_fragment_packet now q r)) \<and> reasm_ok (fst (add_fragment now s pl r)) \<and>
    reasm_ok (fst (reasm_prune_stale now age r)) \<and> reasm_ok (reasm_clear r)"
proof (intro conjI)
  show "reasm_ok (fst (add_fragment_packet now q r))" using assms by (rule add_fragment_packet_reasm_ok)
  show "reasm_ok (fst (add_fragment now s pl r))"
    using assms by (auto simp: add_fragment_def insert_chunk_reasm_ok split: sum.split)
  show "reasm_ok (fst (reasm_prune_stale now age r))"
    using assms le_trans [OF length_filter_le [of _ "assemblies r"], of "nat (max 0 (max_active r))"]
    by (auto simp: reasm_prune_eq [OF assms] reasm_ok_def dict_ok_filter le_nat_iff)
  show "reasm_ok (reasm_clear r)" by (simp add: reasm_ok_def reasm_clear_def)
qed

theorem reassembler_invariant_witness:
  "reasm_ok (fst (add_fragment_packet 5 big_packet default_reassembler)) \<and>
   reasm_ok (fst (add_fragment 5 [1] [2] default_reassembler)) \<and>
   reasm_ok (fst (reasm_prune_stale 5 1 default_reassembler)) \<and> reasm_ok (reasm_clear default_reassembler)"
  by (rule reassembler_invariant) (simp add: default_reassembler_def reasm_ok_new)

end
