(* ===== verification/Sha256.thy ===== *)
theory Sha256
  imports Prelude
begin

text \<open>
  \<open>hashlib.sha256\<close> and \<open>hmac\<close> of the Python standard library, which the deduplicator, the
  identity fingerprints and the Noise key derivation call: SHA-256 of FIPS 180-4 on 32-bit words
  and HMAC of RFC 2104 over it.
\<close>

type_synonym word32 = "32 word"

fun be_words :: "nat \<Rightarrow> bytes \<Rightarrow> word32 list" where
  "be_words 0 bs = []"
| "be_words (Suc n) bs = word_of_int (be_int (take 4 bs)) # be_words n (drop 4 bs)"

text \<open>The round constants, eight words to a 256-bit number.\<close>

definition sha_k :: "word32 list" where
  "sha_k = concat (map (\<lambda>row. be_words 8 (be_bytes 32 row)) [
   0x428a2f9871374491b5c0fbcfe9b5dba53956c25b59f111f1923f82a4ab1c5ed5,
   0xd807aa9812835b01243185be550c7dc372be5d7480deb1fe9bdc06a7c19bf174,
   0xe49b69c1efbe47860fc19dc6240ca1cc2de92c6f4a7484aa5cb0a9dc76f988da,
   0x983e5152a831c66db00327c8bf597fc7c6e00bf3d5a7914706ca635114292967,
   0x27b70a852e1b21384d2c6dfc53380d13650a7354766a0abb81c2c92e92722c85,
   0xa2bfe8a1a81a664bc24b8b70c76c51a3d192e819d6990624f40e3585106aa070,
   0x19a4c1161e376c082748774c34b0bcb5391c0cb34ed8aa4a5b9cca4f682e6ff3,
   0x748f82ee78a5636f84c878148cc7020890befffaa4506cebbef9a3f7c67178f2])"

record sha_state =
  sha_a :: word32  sha_b :: word32  sha_c :: word32  sha_d :: word32
  sha_e :: word32  sha_f :: word32  sha_g :: word32  sha_h :: word32

definition sha_init :: sha_state where
  "sha_init = \<lparr>sha_a = 0x6a09e667, sha_b = 0xbb67ae85, sha_c = 0x3c6ef372, sha_d = 0xa54ff53a,
     sha_e = 0x510e527f, sha_f = 0x9b05688c, sha_g = 0x1f83d9ab, sha_h = 0x5be0cd19\<rparr>"

definition rotr32 :: "nat \<Rightarrow> word32 \<Rightarrow> word32" where
  "rotr32 n w = (drop_bit n w OR push_bit (32 - n) w)"

definition big_sigma0 :: "word32 \<Rightarrow> word32" where
  "big_sigma0 x = (rotr32 2 x XOR rotr32 13 x XOR rotr32 22 x)"
definition big_sigma1 :: "word32 \<Rightarrow> word32" where
  "big_sigma1 x = (rotr32 6 x XOR rotr32 11 x XOR rotr32 25 x)"
definition small_sigma0 :: "word32 \<Rightarrow> word32" where
  "small_sigma0 x = (rotr32 7 x XOR rotr32 18 x XOR drop_bit 3 x)"
definition small_sigma1 :: "word32 \<Rightarrow> word32" where
  "small_sigma1 x = (rotr32 17 x XOR rotr32 19 x XOR drop_bit 10 x)"

text \<open>The message schedule, newest word first; the sixteen most recent words determine the next.\<close>

fun sha_schedule :: "nat \<Rightarrow> word32 list \<Rightarrow> word32 list" where
  "sha_schedule 0 ws = rev ws"
| "sha_schedule (Suc n) ws =
     sha_schedule n ((small_sigma1 (ws ! 1) + ws ! 6 + small_sigma0 (ws ! 14) + ws ! 15) # ws)"

definition sha_round :: "word32 \<times> word32 \<Rightarrow> sha_state \<Rightarrow> sha_state" where
  "sha_round kw s =
     (let ch = (sha_e s AND sha_f s) XOR (NOT (sha_e s) AND sha_g s);
          t1 = sha_h s + big_sigma1 (sha_e s) + ch + fst kw + snd kw;
          maj = (sha_a s AND sha_b s) XOR (sha_a s AND sha_c s) XOR (sha_b s AND sha_c s);
          t2 = big_sigma0 (sha_a s) + maj
      in \<lparr>sha_a = t1 + t2, sha_b = sha_a s, sha_c = sha_b s, sha_d = sha_c s,
          sha_e = sha_d s + t1, sha_f = sha_e s, sha_g = sha_f s, sha_h = sha_g s\<rparr>)"

definition sha_block :: "bytes \<Rightarrow> sha_state \<Rightarrow> sha_state" where
  "sha_block block s =
     (let s' = fold sha_round (zip sha_k (sha_schedule 48 (rev (be_words 16 block)))) s
      in \<lparr>sha_a = sha_a s + sha_a s', sha_b = sha_b s + sha_b s', sha_c = sha_c s + sha_c s',
          sha_d = sha_d s + sha_d s', sha_e = sha_e s + sha_e s', sha_f = sha_f s + sha_f s',
          sha_g = sha_g s + sha_g s', sha_h = sha_h s + sha_h s'\<rparr>)"

fun sha_blocks :: "nat \<Rightarrow> bytes \<Rightarrow> sha_state \<Rightarrow> sha_state" where
  "sha_blocks 0 bs s = s"
| "sha_blocks (Suc n) bs s = sha_blocks n (drop 64 bs) (sha_block (take 64 bs) s)"

definition sha_pad :: "bytes \<Rightarrow> bytes" where
  "sha_pad msg = msg @ [0x80] @ replicate ((119 - length msg mod 64) mod 64) 0
     @ be_bytes 8 (8 * int (length msg))"

definition sha256 :: "bytes \<Rightarrow> bytes" where
  "sha256 msg =
     (let padded = sha_pad msg; s = sha_blocks (length padded div 64) padded sha_init
      in concat (map (\<lambda>w. be_bytes 4 (uint w))
           [sha_a s, sha_b s, sha_c s, sha_d s, sha_e s, sha_f s, sha_g s, sha_h s]))"

lemma length_sha256 [simp]: "length (sha256 msg) = 32"
  by (simp add: sha256_def Let_def)

text \<open>The padded message is a whole number of 64-octet blocks.\<close>

lemma length_sha_pad: "length (sha_pad msg) mod 64 = 0"
proof -
  define q r where "q = length msg div 64" and "r = length msg mod 64"
  have n: "length msg = 64 * q + r" "r < 64" by (simp_all add: q_def r_def)
  have "(119 - r) mod 64 = (if r \<le> 55 then 55 - r else 119 - r)"
    using n(2) by (auto simp: mod_if)
  then have "length (sha_pad msg) = 64 * (q + (if r \<le> 55 then 1 else 2))"
    using n by (simp add: sha_pad_def flip: r_def)
  then show ?thesis by (simp only: mod_mult_self1_is_0)
qed

definition hmac_key :: "bytes \<Rightarrow> bytes" where
  "hmac_key key = (let k = (if length key > 64 then sha256 key else key)
                   in k @ replicate (64 - length k) 0)"

definition hmac_sha256 :: "bytes \<Rightarrow> bytes \<Rightarrow> bytes" where
  "hmac_sha256 key msg =
     (let k = hmac_key key
      in sha256 (map (\<lambda>b. b XOR 0x5c) k @ sha256 (map (\<lambda>b. b XOR 0x36) k @ msg)))"

lemma length_hmac_key: "length (hmac_key key) = 64"
  by (simp add: hmac_key_def Let_def)

lemma length_hmac_sha256 [simp]: "length (hmac_sha256 key msg) = 32"
  by (simp add: hmac_sha256_def Let_def)

end
