(* ===== verification/Dedup.thy ===== *)
theory Dedup
  imports Codec Sha256 Interfaces
begin

text \<open>
  \<open>mesh/dedup.py\<close>: the hop-invariant packet identifier and the bounded cache of identifiers,
  an ordered dictionary from identifier to the time it was recorded, oldest first. The optional
  argument \<open>now\<close> of the methods is the clock reading \<open>now\<close> here.
\<close>

definition DEFAULT_MAX_ENTRIES :: int where [simp]: "DEFAULT_MAX_ENTRIES = 2000"
definition DEFAULT_ENTRY_TTL_SECONDS :: real where [simp]: "DEFAULT_ENTRY_TTL_SECONDS = 300"

definition packet_id_preimage :: "packet \<Rightarrow> bytes" where
  "packet_id_preimage p =
     sender_id p @ be_bytes 8 (timestamp p) @ be_bytes 1 (mt_value (message_type p))
     @ (case recipient_id p of None \<Rightarrow> [] | Some r \<Rightarrow> r) @ payload p"

definition compute_packet_id :: "packet \<Rightarrow> string" where
  "compute_packet_id p = bytes_hex (py_slice 0 16 (sha256 (packet_id_preimage p)))"

record dedup =
  max_entries :: int
  entry_ttl :: real
  entries :: "(string, real) dict"

definition PacketDeduplicator :: "int \<Rightarrow> real \<Rightarrow> exn + dedup" where
  "PacketDeduplicator me ttl_s =
     (if me \<le> 0 then Inl ValueError
      else if ttl_s \<le> 0 then Inl ValueError
      else Inr \<lparr>max_entries = me, entry_ttl = ttl_s, entries = []\<rparr>)"

definition default_dedup :: dedup where
  "default_dedup = \<lparr>max_entries = DEFAULT_MAX_ENTRIES, entry_ttl = DEFAULT_ENTRY_TTL_SECONDS, entries = []\<rparr>"

definition is_id_duplicate :: "real \<Rightarrow> string \<Rightarrow> dedup \<Rightarrow> dedup \<times> bool" where
  "is_id_duplicate now i d =
     (case dict_get (entries d) i of
        None \<Rightarrow> (d, False)
      | Some recorded_time \<Rightarrow>
          if now - recorded_time > entry_ttl d then (d\<lparr>entries := dict_pop i (entries d)\<rparr>, False)
          else (d, True))"

definition is_duplicate :: "real \<Rightarrow> packet \<Rightarrow> dedup \<Rightarrow> dedup \<times> bool" where
  "is_duplicate now p d = is_id_duplicate now (compute_packet_id p) d"

definition record_id :: "real \<Rightarrow> string \<Rightarrow> dedup \<Rightarrow> dedup" where
  "record_id now i d =
     (let es = (if dict_has (entries d) i then dict_pop i (entries d)
                else if int (length (entries d)) \<ge> max_entries d then tl (entries d)
                else entries d)
      in d\<lparr>entries := dict_set i now es\<rparr>)"

definition record_packet :: "real \<Rightarrow> packet \<Rightarrow> dedup \<Rightarrow> dedup" where
  "record_packet now p d = record_id now (compute_packet_id p) d"

definition check_and_record :: "real \<Rightarrow> packet \<Rightarrow> dedup \<Rightarrow> dedup \<times> bool" where
  "check_and_record now p d =
     (case is_id_duplicate now (compute_packet_id p) d of
        (d', True) \<Rightarrow> (d', True)
      | (d', False) \<Rightarrow> (record_id now (compute_packet_id p) d', False))"

text \<open>The loop of \<open>prune_expired\<close> over \<open>list(self._entries.keys())\<close>, with its \<open>break\<close>.\<close>

fun prune_scan :: "real \<Rightarrow> real \<Rightarrow> string list \<Rightarrow> (string, real) dict \<times> nat \<Rightarrow> (string, real) dict \<times> nat" where
  "prune_scan now ttl_s [] acc = acc"
| "prune_scan now ttl_s (k # ks) (es, n) =
     (case dict_get es k of
        None \<Rightarrow> (es, n)
      | Some t \<Rightarrow> if now - t > ttl_s then prune_scan now ttl_s ks (dict_pop k es, Suc n) else (es, n))"

definition dedup_prune_expired :: "real \<Rightarrow> dedup \<Rightarrow> dedup \<times> nat" where
  "dedup_prune_expired now d =
     (let (es, n) = prune_scan now (entry_ttl d) (map fst (entries d)) (entries d, 0)
      in (d\<lparr>entries := es\<rparr>, n))"

definition dedup_clear :: "dedup \<Rightarrow> dedup" where
  "dedup_clear d = d\<lparr>entries := []\<rparr>"

definition dedup_len :: "dedup \<Rightarrow> nat" where
  "dedup_len d = length (entries d)"

subsection \<open>The identifier\<close>

lemma compute_packet_id_ttl [simp]: "compute_packet_id (p\<lparr>ttl := t\<rparr>) = compute_packet_id p"
  by (simp add: compute_packet_id_def packet_id_preimage_def)

lemma length_compute_packet_id: "length (compute_packet_id p) = 32"
  by (simp add: compute_packet_id_def length_bytes_hex)

subsection \<open>The invariant of the cache\<close>

definition dedup_ok :: "dedup \<Rightarrow> bool" where
  "dedup_ok d \<longleftrightarrow> 0 < max_entries d \<and> 0 < entry_ttl d \<and> dict_ok (entries d) \<and>
     int (length (entries d)) \<le> max_entries d"

lemma dedup_ok_new: "PacketDeduplicator me t = Inr d \<Longrightarrow> dedup_ok d"
  by (auto simp: PacketDeduplicator_def dedup_ok_def split: if_splits)

lemma dedup_ok_default [simp]: "dedup_ok default_dedup"
  by (simp add: dedup_ok_def default_dedup_def)

lemma dedup_ok_check: "dedup_ok d \<Longrightarrow> dedup_ok (fst (is_id_duplicate now i d))"
  using length_dict_pop_le [of i "entries d"]
  by (auto simp: is_id_duplicate_def dedup_ok_def split: option.split)

text \<open>\<open>record_id\<close> in closed form: the entry moves to, or is appended at, the end.\<close>

lemma record_id_eq:
  assumes "dedup_ok d"
  shows "record_id now i d =
    d\<lparr>entries := filter (\<lambda>e. fst e \<noteq> i)
       (if \<not> dict_has (entries d) i \<and> int (length (entries d)) \<ge> max_entries d then tl (entries d)
        else entries d) @ [(i, now)]\<rparr>"
proof (cases "dict_has (entries d) i")
  case True
  then show ?thesis by (simp add: record_id_def dict_pop_filter dict_set_new image_iff)
next
  case False
  then have n: "i \<notin> fst ` set (entries d)" by (simp add: map_of_eq_None_iff)
  moreover have "set (tl (entries d)) \<subseteq> set (entries d)" by (cases "entries d") auto
  ultimately have nt: "i \<notin> fst ` set (tl (entries d))" by auto
  have "filter (\<lambda>e. fst e \<noteq> i) es = es" if "i \<notin> fst ` set es" for es :: "(string, real) dict"
    using that by (auto simp: filter_id_conv)
  with n nt False show ?thesis by (simp add: record_id_def dict_set_new)
qed

lemma record_id_ok:
  assumes "dedup_ok d"
  shows "dedup_ok (record_id now i d)"
proof -
  let ?es = "if \<not> dict_has (entries d) i \<and> int (length (entries d)) \<ge> max_entries d then tl (entries d)
        else entries d" and ?f = "filter (\<lambda>e. fst e \<noteq> i)"
  have es: "dict_ok ?es" using assms by (simp add: dedup_ok_def map_tl distinct_tl)
  have "int (length (?f ?es)) < max_entries d"
  proof (cases "dict_has (entries d) i")
    case True
    then have "length (?f (entries d)) < length (entries d)"
      by (intro length_filter_less [of "(i, the (dict_get (entries d) i))"]) (auto dest: map_of_SomeD)
    with True assms show ?thesis by (simp add: dedup_ok_def del: map_of_eq_Some_iff)
  next
    case False
    then have "int (length ?es) < max_entries d" using assms by (auto simp: dedup_ok_def)
    then show ?thesis using length_filter_le [of "\<lambda>e. fst e \<noteq> i" ?es] by linarith
  qed
  moreover have "dict_ok (?f ?es)" using es by (rule dict_ok_filter)
  moreover have "i \<notin> fst ` set (?f ?es)" by auto
  ultimately show ?thesis
    unfolding record_id_eq [OF assms] using assms unfolding dedup_ok_def by (simp split del: if_split)
qed

lemma check_and_record_ok: "dedup_ok d \<Longrightarrow> dedup_ok (fst (check_and_record now p d))"
  using dedup_ok_check [of d now "compute_packet_id p"]
  by (auto simp: check_and_record_def record_id_ok split: prod.split bool.split)

lemma prune_scan_eq:
  "dict_ok es \<Longrightarrow> prune_scan now t (map fst es) (es, n) =
     (dropWhile (\<lambda>e. now - snd e > t) es, n + length (takeWhile (\<lambda>e. now - snd e > t) es))"
proof (induction es arbitrary: n)
  case (Cons e es)
  obtain k v where e: "e = (k, v)" by (cases e)
  have "dict_pop k es = es" using Cons.prems e by (simp add: dict_pop_filter filter_id_conv image_iff) force
  with Cons e show ?case by simp
qed simp

lemma sorted_dropWhile:
  "sorted (map snd es) \<Longrightarrow> dropWhile (\<lambda>e. now - snd e > t) es = filter (\<lambda>e. now - snd e \<le> (t :: real)) es"
proof (induction es)
  case (Cons e es)
  have "filter (\<lambda>e. now - snd e \<le> t) es = es" if "now - snd e \<le> t"
    using that Cons.prems by (intro filter_True) force
  with Cons show ?case by (auto simp: not_less)
qed simp

lemma dedup_prune_eq:
  "dedup_ok d \<Longrightarrow> dedup_prune_expired now d =
     (d\<lparr>entries := dropWhile (\<lambda>e. now - snd e > entry_ttl d) (entries d)\<rparr>,
      length (takeWhile (\<lambda>e. now - snd e > entry_ttl d) (entries d)))"
  by (simp add: dedup_prune_expired_def prune_scan_eq dedup_ok_def)

subsection \<open>What the cache remembers\<close>

definition remembered :: "string \<Rightarrow> real \<Rightarrow> nat \<Rightarrow> dedup \<Rightarrow> bool" where
  "remembered i t0 n d \<longleftrightarrow>
     (\<exists>xs t ys. entries d = xs @ (i, t) # ys \<and> length ys \<le> n \<and> t0 \<le> t)"

lemma remembered_mono: "remembered i t0 n d \<Longrightarrow> n \<le> m \<Longrightarrow> remembered i t0 m d"
  unfolding remembered_def by (meson le_trans)

lemma remembered_get:
  assumes "dedup_ok d" "remembered i t0 n d"
  shows "\<exists>t. dict_get (entries d) i = Some t \<and> t0 \<le> t"
  using assms by (fastforce simp: remembered_def dedup_ok_def)

lemma record_remembered:
  assumes "dedup_ok d" shows "remembered i now 0 (record_id now i d)"
  unfolding remembered_def record_id_eq [OF assms] by force

lemma record_other_remembered:
  assumes "dedup_ok d" "remembered i t0 n d" "j \<noteq> i" "int (Suc n) < max_entries d"
  shows "remembered i t0 (Suc n) (record_id now j d)"
proof -
  obtain xs t ys where es: "entries d = xs @ (i, t) # ys" "length ys \<le> n" "t0 \<le> t"
    using assms(2) by (auto simp: remembered_def)
  let ?f = "filter (\<lambda>e. fst e \<noteq> j)"
  have ys: "length (?f ys @ [(j, now)]) \<le> Suc n" using le_trans [OF length_filter_le es(2)] by simp
  show ?thesis
  proof (cases "\<not> dict_has (entries d) j \<and> int (length (entries d)) \<ge> max_entries d")
    case True
    with es assms(4) have "xs \<noteq> []" by auto
    then have "entries (record_id now j d) = ?f (tl xs) @ (i, t) # (?f ys @ [(j, now)])"
      unfolding record_id_eq [OF assms(1)] using True es(1) assms(3) by (cases xs) auto
    with ys es(3) show ?thesis unfolding remembered_def by blast
  next
    case False
    then have "entries (record_id now j d) = ?f xs @ (i, t) # (?f ys @ [(j, now)])"
      unfolding record_id_eq [OF assms(1)] if_not_P [OF False] using es(1) assms(3) by simp
    with ys es(3) show ?thesis unfolding remembered_def by blast
  qed
qed

lemma check_remembered:
  assumes "dedup_ok d" "remembered i t0 n d" "j = i \<Longrightarrow> now - t0 \<le> entry_ttl d"
  shows "remembered i t0 n (fst (is_id_duplicate now j d))"
proof (cases "fst (is_id_duplicate now j d) = d")
  case False
  then obtain tj where j: "dict_get (entries d) j = Some tj" "now - tj > entry_ttl d"
    and d': "fst (is_id_duplicate now j d) = d\<lparr>entries := dict_pop j (entries d)\<rparr>"
    by (auto simp: is_id_duplicate_def split: option.splits if_splits)
  have "j \<noteq> i" using remembered_get [OF assms(1,2)] j assms(3) by auto
  obtain xs t ys where es: "entries d = xs @ (i, t) # ys" "length ys \<le> n" "t0 \<le> t"
    using assms(2) by (auto simp: remembered_def)
  let ?f = "filter (\<lambda>e. fst e \<noteq> j)"
  have "dict_pop j (entries d) = ?f xs @ (i, t) # ?f ys" "length (?f ys) \<le> n"
    using es \<open>j \<noteq> i\<close> le_trans [OF length_filter_le es(2)] by (simp_all add: dict_pop_filter)
  with es(3) show ?thesis unfolding d' remembered_def by auto
qed (use assms in simp)

text \<open>The cache as a machine that accepts an item when it is not a duplicate.\<close>

definition dedup_accept :: "dedup \<Rightarrow> real \<times> packet \<Rightarrow> dedup \<times> bool" where
  "dedup_accept d e = (case check_and_record (fst e) (snd e) d of (d', dup) \<Rightarrow> (d', \<not> dup))"

lemma dedup_limits:
  "max_entries (fst (is_id_duplicate now i d)) = max_entries d"
  "entry_ttl (fst (is_id_duplicate now i d)) = entry_ttl d"
  "max_entries (record_id now i d) = max_entries d" "entry_ttl (record_id now i d) = entry_ttl d"
  by (auto simp: is_id_duplicate_def record_id_def Let_def split: option.split)

lemma dedup_accept_eq:
  "dedup_accept d (t, p) =
     (let (d', dup) = is_id_duplicate t (compute_packet_id p) d
      in (if dup then d' else record_id t (compute_packet_id p) d', \<not> dup))"
  by (auto simp: dedup_accept_def check_and_record_def split: prod.split bool.split)

lemma dedup_accept_ok: "dedup_ok d \<Longrightarrow> dedup_ok (fst (dedup_accept d e))"
proof (cases e)
  case (Pair t p)
  assume "dedup_ok d"
  then have "dedup_ok (fst (is_id_duplicate t (compute_packet_id p) d))" by (rule dedup_ok_check)
  with Pair show ?thesis by (simp add: dedup_accept_eq Let_def split_def record_id_ok)
qed

lemma dedup_refuses:
  assumes "dedup_ok d" "remembered (compute_packet_id p) t0 n d" "t - t0 \<le> entry_ttl d"
  shows "check_and_record t p d = (d, True)"
  using remembered_get [OF assms(1,2)] assms(3)
  by (auto simp: check_and_record_def is_id_duplicate_def)

interpretation seen: remembering_cache dedup_accept dedup_ok compute_packet_id remembered
  "\<lambda>d. nat (max_entries d)" entry_ttl
proof
  show "dedup_ok d \<Longrightarrow> dedup_ok (fst (dedup_accept d e))" for d e by (rule dedup_accept_ok)
  show "dedup_ok d \<Longrightarrow> nat (max_entries (fst (dedup_accept d e))) = nat (max_entries d) \<and>
      entry_ttl (fst (dedup_accept d e)) = entry_ttl d" for d e
    by (cases e) (simp add: dedup_accept_eq Let_def split_def dedup_limits)
  show "remembered (compute_packet_id x) t 0 (fst (dedup_accept d (t, x)))"
    if "dedup_ok d" "snd (dedup_accept d (t, x))" for d t x
    using that record_remembered [OF dedup_ok_check [OF that(1)]]
    by (simp add: dedup_accept_eq Let_def split_def)
  show "remembered i t0 (Suc n) (fst (dedup_accept d (t, x)))"
    if "dedup_ok d" "remembered i t0 n d" "Suc n < nat (max_entries d)"
      "compute_packet_id x = i \<Longrightarrow> t - t0 \<le> entry_ttl d" for d i t0 n t x
  proof (cases "compute_packet_id x = i")
    case True
    with that dedup_refuses [of d x t0 n t] have "fst (dedup_accept d (t, x)) = d"
      by (simp add: dedup_accept_def)
    with that(2) show ?thesis by (simp add: remembered_mono)
  next
    case False
    note r = check_remembered [OF that(1,2), of "compute_packet_id x" t]
    have "int (Suc n) < max_entries (fst (is_id_duplicate t (compute_packet_id x) d))"
      using that(3) by (simp add: dedup_limits)
    with r False show ?thesis
      using record_other_remembered [OF dedup_ok_check [OF that(1)] _ False]
      by (auto simp: dedup_accept_eq Let_def split_def intro: remembered_mono)
  qed
  show "\<not> snd (dedup_accept d (t, x))"
    if "dedup_ok d" "remembered (compute_packet_id x) t0 n d" "t - t0 \<le> entry_ttl d" for d x t0 n t
    using dedup_refuses [OF that] by (simp add: dedup_accept_def)
qed

subsection \<open>Properties\<close>

text \<open>
  The deduplicator suppresses duplicates: of any packets offered to \<open>check_and_record\<close>, at
  most as many as the cache has room for and within its lifetime of one another, those it
  reports as new have pairwise different identifiers, whatever their TTLs.
\<close>

theorem dedup_at_most_once:
  assumes "dedup_ok d" and "int (length es) \<le> max_entries d"
    and "\<forall>e \<in> set es. \<forall>e' \<in> set es. fst e' - fst e \<le> entry_ttl d"
  shows "distinct (map (compute_packet_id \<circ> snd) (answered es (snd (run dedup_accept d es))))"
proof (rule seen.accepted_at_most_once [OF assms(1)])
  show "length es \<le> nat (max_entries d)" using assms(2) by linarith
qed (use assms(3) in blast)

theorem dedup_at_most_once_witness:
  "distinct (map (compute_packet_id \<circ> snd)
     (answered [(0 :: real, sample_packet), (1, sample_packet\<lparr>ttl := 6\<rparr>)]
       (snd (run dedup_accept default_dedup [(0, sample_packet), (1, sample_packet\<lparr>ttl := 6\<rparr>)]))))"
  by (rule dedup_at_most_once) (simp_all add: default_dedup_def dedup_ok_def)

text \<open>
  Every operation keeps the cache consistent (one entry per identifier, never more than
  \<open>max_entries\<close>); a packet that was just recorded is a duplicate at every later time within the
  lifetime and is not one after it; and the identifier does not depend on the TTL octet.
\<close>

theorem dedup_record_then_check:
  assumes "dedup_ok d" and "now \<le> later"
  shows "dedup_ok (record_packet now p d) \<and>
    snd (is_duplicate later (p\<lparr>ttl := t\<rparr>) (record_packet now p d)) = (later - now \<le> entry_ttl d) \<and>
    dedup_ok (fst (is_duplicate later (p\<lparr>ttl := t\<rparr>) (record_packet now p d)))"
proof -
  have ok: "dedup_ok (record_packet now p d)" by (simp add: record_packet_def record_id_ok assms(1))
  have "dict_get (entries (record_packet now p d)) (compute_packet_id p) = Some now"
    by (simp add: record_packet_def record_id_def dict_simps Let_def del: map_of_eq_Some_iff)
  moreover have "entry_ttl (record_packet now p d) = entry_ttl d"
    by (simp add: record_packet_def dedup_limits)
  ultimately have "snd (is_duplicate later (p\<lparr>ttl := t\<rparr>) (record_packet now p d)) = (later - now \<le> entry_ttl d)"
    by (simp add: is_duplicate_def is_id_duplicate_def not_less)
  with ok dedup_ok_check [OF ok, of later "compute_packet_id p"] show ?thesis by (simp add: is_duplicate_def)
qed

theorem dedup_record_then_check_witness:
  "dedup_ok (record_packet 0 sample_packet default_dedup) \<and>
    snd (is_duplicate 301 (sample_packet\<lparr>ttl := 3\<rparr>) (record_packet 0 sample_packet default_dedup))
      = (301 - 0 \<le> entry_ttl default_dedup) \<and>
    dedup_ok (fst (is_duplicate 301 (sample_packet\<lparr>ttl := 3\<rparr>) (record_packet 0 sample_packet default_dedup)))"
  by (rule dedup_record_then_check) simp_all

definition chronological :: "real \<Rightarrow> dedup \<Rightarrow> bool" where
  "chronological now d \<longleftrightarrow> sorted (map snd (entries d)) \<and> (\<forall>e \<in> set (entries d). snd e \<le> now)"

lemma chronological_record:
  assumes "dedup_ok d" "chronological t0 d" "t0 \<le> now"
  shows "chronological now (record_id now i d)"
proof -
  let ?es = "if \<not> dict_has (entries d) i \<and> int (length (entries d)) \<ge> max_entries d then tl (entries d)
        else entries d"
  have "sorted (map snd ?es)" "\<forall>e \<in> set ?es. snd e \<le> t0"
    using assms(2) by (cases "entries d"; auto simp: chronological_def)+
  moreover define l where "l = filter (\<lambda>e. fst e \<noteq> i) ?es"
  ultimately have "sorted (map snd l)" "\<forall>e \<in> set l. snd e \<le> now"
    using assms(3) by (simp_all only: l_def sorted_filter) (force simp del: map_of_eq_None_iff)
  moreover have "entries (record_id now i d) = l @ [(i, now)]"
    unfolding l_def by (subst record_id_eq [OF assms(1)]) simp
  ultimately show ?thesis unfolding chronological_def by (simp add: sorted_append)
qed

text \<open>
  \<open>prune_expired\<close> stops at the first entry that is young enough. When the entries are in
  chronological order, which recording with a clock that does not go back maintains, it removes
  exactly the expired ones and returns their number.
\<close>

theorem dedup_prune_exact:
  assumes "dedup_ok d" and "chronological t0 d" and "t0 \<le> now" and "now \<le> later"
  shows "dedup_prune_expired later (record_id now i d) =
    (let d' = record_id now i d; live = filter (\<lambda>e. later - snd e \<le> entry_ttl d) (entries d')
     in (d'\<lparr>entries := live\<rparr>, length (entries d') - length live))"
proof -
  let ?d = "record_id now i d"
  let ?P = "\<lambda>e :: string \<times> real. later - snd e > entry_ttl d"
  have s: "sorted (map snd (entries ?d))"
    using chronological_record [OF assms(1-3)] by (simp add: chronological_def)
  have "length (takeWhile ?P (entries ?d)) + length (dropWhile ?P (entries ?d)) = length (entries ?d)"
    by (metis length_append takeWhile_dropWhile_id)
  then show ?thesis
    unfolding dedup_prune_eq [OF record_id_ok [OF assms(1)]] dedup_limits
    using sorted_dropWhile [OF s, of "entry_ttl d" later] by (simp add: Let_def)
qed

theorem dedup_prune_exact_witness:
  "dedup_prune_expired 400 (record_id 1 ''a'' default_dedup) =
    (let d' = record_id 1 ''a'' default_dedup;
         live = filter (\<lambda>e. 400 - snd e \<le> entry_ttl default_dedup) (entries d')
     in (d'\<lparr>entries := live\<rparr>, length (entries d') - length live))"
  by (rule dedup_prune_exact [of _ 0]) (simp_all add: chronological_def default_dedup_def dedup_ok_def)

text \<open>
  The identifier is computed from the concatenation of the fields without marking whether a
  recipient is present: a broadcast whose payload starts with an eight-octet peer identifier and
  the unicast packet to that peer with the rest of the payload have the same identifier, so
  whichever arrives second within the lifetime is dropped as a duplicate of the other.
\<close>

theorem packet_id_ambiguous:
  assumes "valid_packet p" and "recipient_id p = None" and "8 \<le> length (payload p)" and "dedup_ok d"
  shows "\<exists>q. valid_packet q \<and> recipient_id q = Some (take 8 (payload p)) \<and>
    payload q = drop 8 (payload p) \<and> compute_packet_id q = compute_packet_id p \<and>
    snd (check_and_record now q (record_packet now p d))"
proof -
  let ?q = "p\<lparr>flags := flags p OR 1, recipient_id := Some (take 8 (payload p)), payload := drop 8 (payload p)\<rparr>"
  have f: "0 \<le> flags p" "flags p < 256" "flags p AND 1 = 0"
    using assms(1,2) by (simp_all add: valid_packet_def has_recipient_def)
  then have "flags p OR 1 < 256" using OR_upper [of "flags p" 8 1] by simp
  moreover have "(flags p OR 1) AND 1 \<noteq> 0" "(flags p OR 1) AND 2 = flags p AND 2"
    using f by (simp_all add: bit.conj_disj_distrib2)
  ultimately have v: "valid_packet ?q"
    using assms(1-3) f by (auto simp: valid_packet_def has_recipient_def has_signature_def)
  have i: "compute_packet_id ?q = compute_packet_id p"
    using assms(2) by (simp add: compute_packet_id_def packet_id_preimage_def)
  have "remembered (compute_packet_id ?q) now 0 (record_packet now p d)"
    using record_remembered [OF assms(4)] by (simp add: i record_packet_def)
  then have "snd (check_and_record now ?q (record_packet now p d))"
    using dedup_refuses [of "record_packet now p d" ?q now 0 now] assms(4) record_id_ok [OF assms(4)]
    by (simp add: record_packet_def dedup_ok_def dedup_limits)
  with v i show ?thesis by (intro exI [of _ ?q]) simp
qed

definition broadcast_sample :: packet where
  "broadcast_sample = \<lparr>version = 1, message_type = Message, ttl = 7, timestamp = 1000, flags = 0,
     sender_id = replicate 8 1, recipient_id = None, payload = [1, 2, 3, 4, 5, 6, 7, 8, 9], signature = None\<rparr>"

theorem packet_id_ambiguous_witness:
  "\<exists>q. valid_packet q \<and> recipient_id q = Some (take 8 (payload broadcast_sample)) \<and>
    payload q = drop 8 (payload broadcast_sample) \<and>
    compute_packet_id q = compute_packet_id broadcast_sample \<and>
    snd (check_and_record 0 q (record_packet 0 broadcast_sample default_dedup))"
  by (rule packet_id_ambiguous)
     (simp_all add: broadcast_sample_def valid_packet_def has_recipient_def has_signature_def)

end
