(* ===== verification/Store_Forward.thy ===== *)
theory Store_Forward
  imports Codec "HOL-Library.While_Combinator"
begin

text \<open>
  \<open>mesh/store_forward.py\<close>: the bounded buffer of packets for peers that are not connected. The
  queues are a dictionary from normalised peer identifiers to deques. \<open>enqueue\<close> holds an alias of
  the target's deque while its eviction loops may delete that deque from the dictionary; the
  model keeps this: an append through the alias reaches the dictionary only while the key is
  still bound. The loops are \<open>while_option\<close>, so that \<open>None\<close> is a loop that does not end.
\<close>

definition DEFAULT_MAX_TOTAL_PACKETS :: int where [simp]: "DEFAULT_MAX_TOTAL_PACKETS = 100"
definition DEFAULT_MAX_PER_PEER :: int where [simp]: "DEFAULT_MAX_PER_PEER = 20"
definition DEFAULT_MAX_TOTAL_BYTES :: int where [simp]: "DEFAULT_MAX_TOTAL_BYTES = 256 * 1024"
definition DEFAULT_PACKET_TTL_SECONDS :: real where [simp]: "DEFAULT_PACKET_TTL_SECONDS = 300"

text \<open>The argument \<open>str | bytes\<close>.\<close>

datatype peer_arg = PStr string | PBytes bytes

definition normalize_peer_id :: "peer_arg \<Rightarrow> string" where
  "normalize_peer_id peer =
     (case peer of PBytes b \<Rightarrow> py_lower (bytes_hex b) | PStr s \<Rightarrow> py_lower (py_strip s))"

record queued =
  q_packet :: packet
  q_enqueued_at :: real
  q_byte_size :: int

record sfq =
  max_total_packets :: int
  max_per_peer :: int
  max_total_bytes :: int
  packet_ttl_seconds :: real
  queues :: "(string, queued list) dict"
  current_total_packets :: int
  current_total_bytes :: int

definition StoreAndForwardQueue :: "int \<Rightarrow> int \<Rightarrow> int \<Rightarrow> real \<Rightarrow> sfq" where
  "StoreAndForwardQueue mtp mpp mtb pts =
     \<lparr>max_total_packets = mtp, max_per_peer = mpp, max_total_bytes = mtb, packet_ttl_seconds = pts,
      queues = [], current_total_packets = 0, current_total_bytes = 0\<rparr>"

definition default_sfq :: sfq where
  "default_sfq = StoreAndForwardQueue DEFAULT_MAX_TOTAL_PACKETS DEFAULT_MAX_PER_PEER
     DEFAULT_MAX_TOTAL_BYTES DEFAULT_PACKET_TTL_SECONDS"

definition peer_count :: "sfq \<Rightarrow> nat" where
  "peer_count s = length (queues s)"

text \<open>Removing one item: both counters go down.\<close>

definition uncount :: "queued \<Rightarrow> sfq \<Rightarrow> sfq" where
  "uncount item s = s\<lparr>current_total_packets := current_total_packets s - 1,
                      current_total_bytes := current_total_bytes s - q_byte_size item\<rparr>"

text \<open>\<open>_evict_oldest\<close>: the scan for the first queue whose head is strictly oldest.\<close>

fun oldest_peer :: "(string \<times> real) option \<Rightarrow> (string, queued list) dict \<Rightarrow> (string \<times> real) option" where
  "oldest_peer best [] = best"
| "oldest_peer best ((k, q) # rest) =
     oldest_peer
       (case q of [] \<Rightarrow> best
        | item # _ \<Rightarrow>
            (case best of None \<Rightarrow> Some (k, q_enqueued_at item)
             | Some (_, t) \<Rightarrow> if q_enqueued_at item < t then Some (k, q_enqueued_at item) else best))
       rest"

definition evict_oldest :: "sfq \<Rightarrow> sfq" where
  "evict_oldest s =
     (case oldest_peer None (queues s) of
        None \<Rightarrow> s
      | Some (k, _) \<Rightarrow>
          (case dict_get (queues s) k of
             None \<Rightarrow> s
           | Some [] \<Rightarrow> s
           | Some (item # rest) \<Rightarrow>
               (uncount item s)\<lparr>queues := if rest = [] then dict_pop k (queues s)
                                          else dict_set k rest (queues s)\<rparr>))"

text \<open>\<open>prune_expired\<close>: for each key, drop the expired prefix; delete an emptied queue.\<close>

fun prune_queue :: "real \<Rightarrow> queued list \<Rightarrow> sfq \<Rightarrow> nat \<Rightarrow> queued list \<times> sfq \<times> nat" where
  "prune_queue now [] s n = ([], s, n)"
| "prune_queue now (item # rest) s n =
     (if now - q_enqueued_at item > packet_ttl_seconds s
      then prune_queue now rest (uncount item s) (Suc n)
      else (item # rest, s, n))"

fun prune_keys :: "real \<Rightarrow> string list \<Rightarrow> sfq \<Rightarrow> nat \<Rightarrow> sfq \<times> nat" where
  "prune_keys now [] s n = (s, n)"
| "prune_keys now (k # ks) s n =
     (case dict_get (queues s) k of
        None \<Rightarrow> (s, n)
      | Some q \<Rightarrow>
          (let (q', s', n') = prune_queue now q s n
           in prune_keys now ks
                (s'\<lparr>queues := if q' = [] then dict_pop k (queues s') else dict_set k q' (queues s')\<rparr>) n'))"

definition sf_prune_expired :: "real \<Rightarrow> sfq \<Rightarrow> sfq \<times> nat" where
  "sf_prune_expired now s = prune_keys now (map fst (queues s)) s 0"

text \<open>\<open>enqueue\<close>, from the eviction of the target's own oldest packet on. \<open>None\<close>: a loop runs forever.\<close>

definition evict_packets :: "sfq \<Rightarrow> sfq option" where
  "evict_packets s =
     while_option (\<lambda>s. current_total_packets s \<ge> max_total_packets s) evict_oldest s"

definition evict_bytes :: "int \<Rightarrow> sfq \<Rightarrow> sfq option" where
  "evict_bytes pkt_size s =
     while_option (\<lambda>s. current_total_bytes s + pkt_size > max_total_bytes s \<and>
                       current_total_packets s > 0) evict_oldest s"

definition append_queued :: "string \<Rightarrow> queued \<Rightarrow> sfq \<Rightarrow> sfq" where
  "append_queued k item s =
     s\<lparr>queues := (case dict_get (queues s) k of
                    None \<Rightarrow> queues s
                  | Some q \<Rightarrow> dict_set k (q @ [item]) (queues s)),
       current_total_packets := current_total_packets s + 1,
       current_total_bytes := current_total_bytes s + q_byte_size item\<rparr>"

definition enqueue :: "real \<Rightarrow> peer_arg \<Rightarrow> packet \<Rightarrow> sfq \<Rightarrow> (sfq \<times> (exn + bool)) option" where
  "enqueue now target p s0 =
     (let s1 = fst (sf_prune_expired now s0);
          pkt_size = int (length (payload p)) + 32
      in if pkt_size > max_total_bytes s1 then Some (s1, Inr False)
         else
           let k = normalize_peer_id target;
               q = (case dict_get (queues s1) k of None \<Rightarrow> [] | Some q \<Rightarrow> q);
               s2 = s1\<lparr>queues := dict_set k q (queues s1)\<rparr>
           in if int (length q) \<ge> max_per_peer s2 \<and> q = [] then Some (s2, Inl IndexError)
              else
                let s3 = (if int (length q) \<ge> max_per_peer s2
                          then (uncount (hd q) s2)\<lparr>queues := dict_set k (tl q) (queues s2)\<rparr>
                          else s2)
                in case evict_packets s3 of
                     None \<Rightarrow> None
                   | Some s4 \<Rightarrow>
                       (case evict_bytes pkt_size s4 of
                          None \<Rightarrow> None
                        | Some s5 \<Rightarrow>
                            if current_total_bytes s5 + pkt_size > max_total_bytes s5
                            then Some (s5, Inr False)
                            else Some (append_queued k
                                   \<lparr>q_packet = p, q_enqueued_at = now, q_byte_size = pkt_size\<rparr> s5, Inr True)))"

definition dequeue_for_peer :: "real \<Rightarrow> peer_arg \<Rightarrow> sfq \<Rightarrow> sfq \<times> packet list" where
  "dequeue_for_peer now target s =
     (let k = normalize_peer_id target in
      case dict_get (queues s) k of
        None \<Rightarrow> (s, [])
      | Some q \<Rightarrow>
          (fold uncount q (s\<lparr>queues := dict_pop k (queues s)\<rparr>),
           map q_packet (filter (\<lambda>i. now - q_enqueued_at i \<le> packet_ttl_seconds s) q)))"

definition has_pending :: "peer_arg \<Rightarrow> sfq \<Rightarrow> bool" where
  "has_pending target s =
     (case dict_get (queues s) (normalize_peer_id target) of None \<Rightarrow> False | Some q \<Rightarrow> q \<noteq> [])"

definition sf_clear :: "sfq \<Rightarrow> sfq" where
  "sf_clear s = s\<lparr>queues := [], current_total_packets := 0, current_total_bytes := 0\<rparr>"

subsection \<open>Counters\<close>

definition queued_packets :: "(string, queued list) dict \<Rightarrow> int" where
  "queued_packets d = sum_list (map (int \<circ> length \<circ> snd) d)"

definition item_bytes :: "queued list \<Rightarrow> int" where
  "item_bytes q = sum_list (map q_byte_size q)"

definition queued_bytes :: "(string, queued list) dict \<Rightarrow> int" where
  "queued_bytes d = sum_list (map (item_bytes \<circ> snd) d)"

text \<open>\<open>counted s lost\<close>: the counters are right but for \<open>lost\<close> packets that no queue holds.\<close>

definition counters_ok :: "sfq \<Rightarrow> bool" where
  "counters_ok s \<longleftrightarrow> dict_ok (queues s) \<and>
     current_total_packets s = queued_packets (queues s) \<and>
     current_total_bytes s = queued_bytes (queues s) \<and>
     (\<forall>(k, q) \<in> set (queues s). \<forall>i \<in> set q. 0 < q_byte_size i)"

lemma sum_list_dict_set:
  fixes f :: "string \<times> queued list \<Rightarrow> int"
  assumes "dict_ok d" "dict_get d k = Some q"
  shows "sum_list (map f (dict_set k q' d)) = sum_list (map f d) - f (k, q) + f (k, q')"
    and "sum_list (map f (dict_pop k d)) = sum_list (map f d) - f (k, q)"
  using assms
proof (induction d)
  case (Cons e d)
  {
    case 1
    with Cons.IH(1) show ?case by (cases e) auto
  next
    case 2
    show ?case
    proof (cases "fst e = k")
      case True
      have "filter (\<lambda>e. fst e \<noteq> k) d = d" using 2(1) True by (auto simp: filter_id_conv image_iff)
      with True 2 show ?thesis by (cases e) (simp add: dict_pop_filter)
    next
      case False
      with 2 Cons.IH(2) show ?thesis by (cases e) auto
    qed
  }
qed simp_all

lemma queued_set:
  assumes "dict_ok d" "dict_get d k = Some q"
  shows "queued_packets (dict_set k q' d) = queued_packets d - int (length q) + int (length q')"
    "queued_packets (dict_pop k d) = queued_packets d - int (length q)"
    "queued_bytes (dict_set k q' d) = queued_bytes d - item_bytes q + item_bytes q'"
    "queued_bytes (dict_pop k d) = queued_bytes d - item_bytes q"
  using sum_list_dict_set [OF assms, of "int \<circ> length \<circ> snd"] sum_list_dict_set [OF assms, of "item_bytes \<circ> snd"]
  by (simp_all add: queued_packets_def queued_bytes_def)

lemma queued_new:
  "dict_get d k = None \<Longrightarrow> queued_packets (dict_set k q d) = queued_packets d + int (length q)"
  "dict_get d k = None \<Longrightarrow> queued_bytes (dict_set k q d) = queued_bytes d + item_bytes q"
  by (simp_all add: dict_set_new map_of_eq_None_iff queued_packets_def queued_bytes_def)

text \<open>Replacing the queue of a bound key, with the counters adjusted by the difference.\<close>

lemma counters_ok_replace:
  assumes "counters_ok s" "dict_get (queues s) k = Some q"
    and "\<forall>i \<in> set q'. 0 < q_byte_size i"
    and "d = dict_set k q' (queues s) \<or> d = dict_pop k (queues s) \<and> q' = []"
    and "tp = current_total_packets s - int (length q) + int (length q')"
    and "tb = current_total_bytes s - item_bytes q + item_bytes q'"
  shows "counters_ok (s\<lparr>queues := d, current_total_packets := tp, current_total_bytes := tb\<rparr>)"
proof -
  have ok: "dict_ok (queues s)" using assms(1) by (simp add: counters_ok_def)
  have "dict_ok d" using assms(4) ok by auto
  moreover have "set d \<subseteq> insert (k, q') (set (queues s))"
    using assms(4) dict_set_subset [of k q' "queues s"] by (auto simp: set_dict_pop)
  moreover from this have "\<forall>(k, q) \<in> set d. \<forall>i \<in> set q. 0 < q_byte_size i"
    using assms(1,3) unfolding counters_ok_def by blast
  moreover have "queued_packets d = tp" "queued_bytes d = tb"
    using assms(1,4) queued_set [OF ok assms(2)]
    by (auto simp: assms(5,6) counters_ok_def item_bytes_def)
  ultimately show ?thesis by (simp add: counters_ok_def)
qed

subsection \<open>Consistent states\<close>

text \<open>The counters agree with the queues and the three limits are respected.\<close>

definition sf_ok :: "sfq \<Rightarrow> bool" where
  "sf_ok s \<longleftrightarrow> counters_ok s \<and> 1 \<le> max_total_packets s \<and> 1 \<le> max_per_peer s \<and>
     current_total_packets s \<le> max_total_packets s \<and> current_total_bytes s \<le> max (max_total_bytes s) 0 \<and>
     (\<forall>(k, q) \<in> set (queues s). int (length q) \<le> max_per_peer s)"

definition limits :: "sfq \<Rightarrow> int \<times> int \<times> int \<times> real" where
  "limits s = (max_total_packets s, max_per_peer s, max_total_bytes s, packet_ttl_seconds s)"

lemma sf_ok_new: "1 \<le> mtp \<Longrightarrow> 1 \<le> mpp \<Longrightarrow> sf_ok (StoreAndForwardQueue mtp mpp mtb pts)"
  by (simp add: sf_ok_def counters_ok_def StoreAndForwardQueue_def queued_packets_def queued_bytes_def)

lemma item_bytes_simps [simp]:
  "item_bytes [] = 0" "item_bytes (i # q) = q_byte_size i + item_bytes q"
  "item_bytes (q @ q') = item_bytes q + item_bytes q'"
  by (simp_all add: item_bytes_def)

lemma item_bytes_nonneg: "\<forall>i \<in> set q. 0 < q_byte_size i \<Longrightarrow> 0 \<le> item_bytes q"
  unfolding item_bytes_def by (rule sum_list_nonneg) (auto intro: less_imp_le)

lemma counters_nonneg:
  assumes "counters_ok s"
  shows "0 \<le> current_total_packets s" "0 \<le> current_total_bytes s"
proof -
  show "0 \<le> current_total_packets s"
    using assms by (auto simp: counters_ok_def queued_packets_def intro!: sum_list_nonneg)
  have "0 \<le> item_bytes q" if "(k, q) \<in> set (queues s)" for k q
    using assms that by (intro item_bytes_nonneg) (auto simp: counters_ok_def)
  then show "0 \<le> current_total_bytes s"
    using assms by (auto simp: counters_ok_def queued_bytes_def intro!: sum_list_nonneg)
qed

lemma queued_packets_simps [simp]:
  "queued_packets [] = 0" "queued_packets ((k, q) # d) = int (length q) + queued_packets d"
  by (simp_all add: queued_packets_def)

lemma queued_packets_nonneg: "0 \<le> queued_packets d"
  by (auto simp: queued_packets_def intro!: sum_list_nonneg)

lemma queued_packets_0: "queued_packets d = 0 \<longleftrightarrow> (\<forall>(k, q) \<in> set d. q = [])"
proof (induction d)
  case (Cons e d)
  then show ?case using queued_packets_nonneg [of d] by (cases e) (simp add: add_nonneg_eq_0_iff)
qed simp

lemma counters_zero:
  assumes "counters_ok s" "current_total_packets s \<le> 0"
  shows "current_total_bytes s = 0"
proof -
  have "queued_packets (queues s) = 0" using assms queued_packets_nonneg by (simp add: counters_ok_def order_antisym)
  then have "item_bytes q = 0" if "(k, q) \<in> set (queues s)" for k q
    using that by (auto simp: queued_packets_0)
  then have "map (item_bytes \<circ> snd) (queues s) = map (\<lambda>_. 0) (queues s)" by auto
  then have "queued_bytes (queues s) = 0" by (simp only: queued_bytes_def sum_list_0)
  then show ?thesis using assms(1) by (simp add: counters_ok_def)
qed

text \<open>Taking items off the front of queues: what eviction and pruning do.\<close>

definition shrunk :: "sfq \<Rightarrow> sfq \<Rightarrow> bool" where
  "shrunk s s' \<longleftrightarrow> limits s' = limits s \<and> current_total_packets s' \<le> current_total_packets s \<and>
     current_total_bytes s' \<le> current_total_bytes s \<and>
     (\<forall>k q'. dict_get (queues s') k = Some q' \<longrightarrow> (\<exists>q. dict_get (queues s) k = Some q \<and> suffix q' q))"

lemma shrunk_refl [simp]: "shrunk s s"
  by (simp add: shrunk_def)

lemma shrunk_trans: "shrunk s s' \<Longrightarrow> shrunk s' s'' \<Longrightarrow> shrunk s s''"
  unfolding shrunk_def by (metis suffix_order.trans order_trans)

lemma shrunk_sf_ok:
  assumes "sf_ok s" "shrunk s s'" "counters_ok s'"
  shows "sf_ok s'"
proof -
  have "int (length q') \<le> max_per_peer s'" if "(k, q') \<in> set (queues s')" for k q'
  proof -
    have "dict_get (queues s') k = Some q'" using that assms(3) by (simp add: counters_ok_def)
    then obtain q where "dict_get (queues s) k = Some q" "suffix q' q"
      using assms(2) unfolding shrunk_def by blast
    then have "int (length q) \<le> max_per_peer s" "length q' \<le> length q"
      using assms(1) by (auto simp: sf_ok_def dest: map_of_SomeD suffix_length_le)
    then show ?thesis using assms(2) by (simp add: shrunk_def limits_def)
  qed
  then show ?thesis using assms by (auto simp: sf_ok_def shrunk_def limits_def)
qed

lemma fold_uncount:
  "fold uncount q s = s\<lparr>current_total_packets := current_total_packets s - int (length q),
                       current_total_bytes := current_total_bytes s - item_bytes q\<rparr>"
  by (induction q arbitrary: s) (simp_all add: uncount_def algebra_simps)

text \<open>A suffix replaces the queue of one key.\<close>

lemma shrink_key:
  assumes "counters_ok s" "dict_get (queues s) k = Some (xs @ q')"
    and "d = dict_set k q' (queues s) \<or> d = dict_pop k (queues s) \<and> q' = []"
    and "s' = (fold uncount xs s)\<lparr>queues := d\<rparr>"
  shows "counters_ok s'" "shrunk s s'"
proof -
  have pos: "\<forall>i \<in> set (xs @ q'). 0 < q_byte_size i"
    using assms(1,2) by (force simp: counters_ok_def dest: map_of_SomeD)
  have s': "s' = s\<lparr>queues := d, current_total_packets := current_total_packets s - int (length xs),
      current_total_bytes := current_total_bytes s - item_bytes xs\<rparr>"
    by (simp add: assms(4) fold_uncount)
  show "counters_ok s'" unfolding s'
    by (rule counters_ok_replace [OF assms(1,2) _ assms(3)]) (use pos in auto)
  have "0 \<le> item_bytes xs" using pos by (intro item_bytes_nonneg) auto
  moreover have "dict_get d j = Some q \<Longrightarrow> \<exists>p. dict_get (queues s) j = Some p \<and> suffix q p" for j q
    using assms(1-3) by (auto simp: dict_simps counters_ok_def suffixI simp del: map_of_eq_Some_iff split: if_splits)
  ultimately show "shrunk s s'" by (simp add: s' shrunk_def limits_def)
qed

subsection \<open>Eviction\<close>

lemma oldest_peer_aux:
  "oldest_peer best d = Some (k, t) \<Longrightarrow>
     (best = Some (k, t) \<or> (\<exists>item rest. (k, item # rest) \<in> set d \<and> q_enqueued_at item = t)) \<and>
     (\<forall>kb tb. best = Some (kb, tb) \<longrightarrow> t \<le> tb) \<and>
     (\<forall>(j, q) \<in> set d. q \<noteq> [] \<longrightarrow> t \<le> q_enqueued_at (hd q))"
proof (induction best d rule: oldest_peer.induct)
  case (2 best k' q rest)
  from 2(1) [OF 2(2) [unfolded oldest_peer.simps]] show ?case
    by (auto split: list.splits option.splits if_splits) blast+
qed simp

lemma oldest_peer_None: "oldest_peer best d = None \<Longrightarrow> best = None \<and> (\<forall>(j, q) \<in> set d. q = [])"
proof (induction best d rule: oldest_peer.induct)
  case (2 best k' q rest)
  from 2(1) [OF 2(2) [unfolded oldest_peer.simps]] show ?case
    by (auto split: list.splits option.splits if_splits)
qed simp

lemma evict_oldest_step:
  assumes "counters_ok s" "0 < current_total_packets s"
  shows "counters_ok (evict_oldest s)" "shrunk s (evict_oldest s)"
    "current_total_packets (evict_oldest s) = current_total_packets s - 1"
    "dict_get (queues s) k = Some [] \<Longrightarrow> dict_get (queues (evict_oldest s)) k = Some []"
    "\<exists>j item rest. dict_get (queues s) j = Some (item # rest) \<and>
       (\<forall>(j', q) \<in> set (queues s). q \<noteq> [] \<longrightarrow> q_enqueued_at item \<le> q_enqueued_at (hd q)) \<and>
       evict_oldest s = (uncount item s)\<lparr>queues := if rest = [] then dict_pop j (queues s)
                                          else dict_set j rest (queues s)\<rparr>"
proof -
  have "\<exists>j t. oldest_peer None (queues s) = Some (j, t)"
  proof (cases "oldest_peer None (queues s)")
    case None
    then have "queued_packets (queues s) = 0" using oldest_peer_None by (simp add: queued_packets_0)
    with assms show ?thesis by (simp add: counters_ok_def)
  qed auto
  then obtain j t where o: "oldest_peer None (queues s) = Some (j, t)" by blast
  then obtain item rest where j: "(j, item # rest) \<in> set (queues s)" "q_enqueued_at item = t"
    and min: "\<forall>(j', q) \<in> set (queues s). q \<noteq> [] \<longrightarrow> t \<le> q_enqueued_at (hd q)"
    using oldest_peer_aux [OF o] by blast
  have g: "dict_get (queues s) j = Some (item # rest)" using j(1) assms(1) by (simp add: counters_ok_def)
  let ?d = "if rest = [] then dict_pop j (queues s) else dict_set j rest (queues s)"
  have e: "evict_oldest s = (uncount item s)\<lparr>queues := ?d\<rparr>"
    using o g by (simp add: evict_oldest_def del: map_of_eq_Some_iff)
  have "?d = dict_set j rest (queues s) \<or> ?d = dict_pop j (queues s) \<and> rest = []" by simp
  note sk = shrink_key [OF assms(1), of j "[item]" rest ?d "evict_oldest s", unfolded append.simps, OF g this]
  show "counters_ok (evict_oldest s)" "shrunk s (evict_oldest s)" using sk e by simp_all
  show "current_total_packets (evict_oldest s) = current_total_packets s - 1" by (simp add: e uncount_def)
  show "dict_get (queues (evict_oldest s)) k = Some []" if "dict_get (queues s) k = Some []"
    using that g by (auto simp: e dict_simps simp del: map_of_eq_Some_iff)
  show "\<exists>j item rest. dict_get (queues s) j = Some (item # rest) \<and>
       (\<forall>(j', q) \<in> set (queues s). q \<noteq> [] \<longrightarrow> q_enqueued_at item \<le> q_enqueued_at (hd q)) \<and>
       evict_oldest s = (uncount item s)\<lparr>queues := if rest = [] then dict_pop j (queues s)
                                          else dict_set j rest (queues s)\<rparr>"
    using g min e j(2) by blast
qed

lemma evict_loop:
  assumes b: "\<And>t. counters_ok t \<Longrightarrow> limits t = limits s \<Longrightarrow> b t \<Longrightarrow> 0 < current_total_packets t"
    and "counters_ok s"
  shows "\<exists>s'. while_option b evict_oldest s = Some s' \<and> \<not> b s' \<and> counters_ok s' \<and> shrunk s s' \<and>
     (\<forall>k. dict_get (queues s) k = Some [] \<longrightarrow> dict_get (queues s') k = Some []) \<and> (\<not> b s \<longrightarrow> s' = s)"
proof -
  let ?I = "\<lambda>t. counters_ok t \<and> limits t = limits s"
  have step: "?I (evict_oldest t) \<and> nat (current_total_packets (evict_oldest t)) < nat (current_total_packets t)
      \<and> shrunk t (evict_oldest t)" if "?I t" "b t" for t
    using evict_oldest_step(1-3) [of t] b [of t] that by (auto simp: shrunk_def)
  have "\<exists>s'. while_option b evict_oldest s = Some s'"
    by (rule measure_while_option_Some [where P = ?I and f = "\<lambda>t. nat (current_total_packets t)"])
       (use step assms(2) in blast)+
  then obtain s' where s': "while_option b evict_oldest s = Some s'" by blast
  let ?P = "\<lambda>t. ?I t \<and> shrunk s t \<and>
     (\<forall>k. dict_get (queues s) k = Some [] \<longrightarrow> dict_get (queues t) k = Some [])"
  have "?P s'"
  proof (rule while_option_rule [where P = ?P, OF _ s'])
    fix t assume t: "?P t" "b t"
    then have "\<forall>k. dict_get (queues s) k = Some [] \<longrightarrow> dict_get (queues (evict_oldest t)) k = Some []"
      using evict_oldest_step(4) [of t] b [of t] by blast
    then show "?P (evict_oldest t)" using t step [of t] shrunk_trans by blast
  qed (use assms(2) in simp)
  moreover have "\<not> b s'" by (rule while_option_stop [OF s'])
  moreover have "\<not> b s \<longrightarrow> s' = s" using s' by (auto simp: while_option_unfold [of b evict_oldest s])
  ultimately show ?thesis using s' by blast
qed

lemma evict_packets_ok:
  assumes "counters_ok s" "1 \<le> max_total_packets s"
  shows "\<exists>s'. evict_packets s = Some s' \<and> counters_ok s' \<and> shrunk s s' \<and>
     current_total_packets s' < max_total_packets s' \<and>
     (\<forall>k. dict_get (queues s) k = Some [] \<longrightarrow> dict_get (queues s') k = Some []) \<and>
     (current_total_packets s < max_total_packets s \<longrightarrow> s' = s)"
  using evict_loop [of s "\<lambda>t. current_total_packets t \<ge> max_total_packets t"] assms
  by (auto simp: evict_packets_def limits_def not_le)

lemma evict_bytes_ok:
  assumes "counters_ok s" "n \<le> max_total_bytes s"
  shows "\<exists>s'. evict_bytes n s = Some s' \<and> counters_ok s' \<and> shrunk s s' \<and>
     current_total_bytes s' + n \<le> max_total_bytes s' \<and>
     (\<forall>k. dict_get (queues s) k = Some [] \<longrightarrow> dict_get (queues s') k = Some []) \<and>
     (current_total_bytes s + n \<le> max_total_bytes s \<longrightarrow> s' = s)"
proof -
  obtain s' where s': "evict_bytes n s = Some s'" "counters_ok s'" "shrunk s s'"
    "\<not> (current_total_bytes s' + n > max_total_bytes s' \<and> current_total_packets s' > 0)"
    "\<forall>k. dict_get (queues s) k = Some [] \<longrightarrow> dict_get (queues s') k = Some []"
    "current_total_bytes s + n \<le> max_total_bytes s \<longrightarrow> s' = s"
    using evict_loop [of s "\<lambda>t. current_total_bytes t + n > max_total_bytes t \<and> current_total_packets t > 0"] assms(1)
    by (auto simp: evict_bytes_def not_le)
  have "max_total_bytes s' = max_total_bytes s" using s'(3) by (simp add: shrunk_def limits_def)
  then have "current_total_bytes s' + n \<le> max_total_bytes s'"
    using s'(4) counters_zero [OF s'(2)] assms(2) by force
  with s' show ?thesis by blast
qed

subsection \<open>Pruning\<close>

lemma prune_queue_eq:
  "prune_queue now q s n =
     (let P = \<lambda>i. now - q_enqueued_at i > packet_ttl_seconds s
      in (dropWhile P q, fold uncount (takeWhile P q) s, n + length (takeWhile P q)))"
  by (induction q arbitrary: s n) (simp_all add: Let_def uncount_def)

definition live_queue :: "real \<Rightarrow> real \<Rightarrow> queued list option \<Rightarrow> queued list option" where
  "live_queue now ttl_s q =
     (case q of None \<Rightarrow> None
      | Some q \<Rightarrow> (case dropWhile (\<lambda>i. now - q_enqueued_at i > ttl_s) q of [] \<Rightarrow> None | q' \<Rightarrow> Some q'))"

lemma prune_keys_ok:
  assumes "counters_ok s" "distinct ks" "\<forall>k \<in> set ks. dict_has (queues s) k"
  shows "counters_ok (fst (prune_keys now ks s n)) \<and> shrunk s (fst (prune_keys now ks s n)) \<and>
     (\<forall>k. dict_get (queues (fst (prune_keys now ks s n))) k =
        (if k \<in> set ks then live_queue now (packet_ttl_seconds s) (dict_get (queues s) k)
         else dict_get (queues s) k))"
  using assms
proof (induction ks arbitrary: s n)
  case (Cons k ks)
  obtain q where q: "dict_get (queues s) k = Some q" using Cons.prems by auto
  define P where "P = (\<lambda>i :: queued. now - q_enqueued_at i > packet_ttl_seconds s)"
  define s1 where "s1 = (fold uncount (takeWhile P q) s)\<lparr>queues :=
      if dropWhile P q = [] then dict_pop k (queues s) else dict_set k (dropWhile P q) (queues s)\<rparr>"
  have "queues (fold uncount (takeWhile P q) s) = queues s" by (simp add: fold_uncount)
  then have step: "fst (prune_keys now (k # ks) s n) =
      fst (prune_keys now ks s1 (n + length (takeWhile P q)))"
    using q by (simp add: prune_queue_eq Let_def P_def s1_def del: map_of_eq_Some_iff)
  have s1: "counters_ok s1" "shrunk s s1"
    by (rule shrink_key [OF Cons.prems(1), of k "takeWhile P q" "dropWhile P q", OF _ _ s1_def]; use q in auto)+
  have g: "dict_get (queues s1) = (dict_get (queues s))(k := live_queue now (packet_ttl_seconds s) (Some q))"
    by (cases "dropWhile P q") (simp_all add: s1_def dict_simps live_queue_def fun_eq_iff del: dropWhile_eq_Nil_conv flip: P_def)
  have t: "packet_ttl_seconds s1 = packet_ttl_seconds s" using s1(2) by (simp add: shrunk_def limits_def)
  have "\<forall>j \<in> set ks. dict_has (queues s1) j" using Cons.prems(2,3) by (auto simp: g)
  from Cons.IH [OF s1(1) _ this, of "n + length (takeWhile P q)"] Cons.prems(2) shrunk_trans [OF s1(2)]
  show ?case unfolding step by (auto simp: g t q simp del: map_of_eq_Some_iff)
qed simp

lemma sf_prune_ok:
  assumes "counters_ok s"
  shows "counters_ok (fst (sf_prune_expired now s))" "shrunk s (fst (sf_prune_expired now s))"
    "dict_get (queues (fst (sf_prune_expired now s))) k =
       live_queue now (packet_ttl_seconds s) (dict_get (queues s) k)"
proof -
  have "distinct (map fst (queues s))" "\<forall>k \<in> set (map fst (queues s)). dict_has (queues s) k"
    using assms by (auto simp: counters_ok_def dict_has_iff simp del: not_None_eq)
  note p = prune_keys_ok [OF assms this, of now 0, folded sf_prune_expired_def]
  show "counters_ok (fst (sf_prune_expired now s))" "shrunk s (fst (sf_prune_expired now s))"
    using p by blast+
  have "dict_get (queues s) k = None" if "k \<notin> set (map fst (queues s))"
    using that by (simp add: map_of_eq_None_iff)
  with p show "dict_get (queues (fst (sf_prune_expired now s))) k =
       live_queue now (packet_ttl_seconds s) (dict_get (queues s) k)"
    by (auto simp: live_queue_def split: if_splits)
qed

subsection \<open>Enqueueing\<close>

definition wire_estimate :: "packet \<Rightarrow> int" where
  "wire_estimate p = int (length (payload p)) + 32"

text \<open>
  What \<open>enqueue\<close> does in a consistent state to a packet that fits the byte budget: it ends, and
  the state it leaves differs from a consistent state \<open>t\<close> within the limits only by the append.
\<close>

lemma enqueue_fits:
  assumes "sf_ok s" "wire_estimate p \<le> max_total_bytes s"
  shows "\<exists>t. enqueue now target p s = Some (append_queued (normalize_peer_id target)
       \<lparr>q_packet = p, q_enqueued_at = now, q_byte_size = wire_estimate p\<rparr> t, Inr True) \<and>
     counters_ok t \<and> limits t = limits s \<and> current_total_packets t < max_total_packets t \<and>
     current_total_bytes t + wire_estimate p \<le> max_total_bytes t \<and>
     (\<forall>k q. dict_get (queues t) k = Some q \<longrightarrow>
        int (length q) \<le> max_per_peer t - (if k = normalize_peer_id target then 1 else 0)) \<and>
     (live_queue now (packet_ttl_seconds s) (dict_get (queues s) (normalize_peer_id target)) = None \<longrightarrow>
        dict_get (queues t) (normalize_peer_id target) = Some [])"
proof -
  let ?k = "normalize_peer_id target" and ?n = "wire_estimate p"
  define s1 where "s1 = fst (sf_prune_expired now s)"
  have c: "counters_ok s" using assms(1) by (simp add: sf_ok_def)
  note pr = sf_prune_ok [OF c, of now, folded s1_def]
  have ok1: "sf_ok s1" by (rule shrunk_sf_ok [OF assms(1) pr(2,1)])
  define q where "q = (case dict_get (queues s1) ?k of None \<Rightarrow> [] | Some q \<Rightarrow> q)"
  define s2 where "s2 = s1\<lparr>queues := dict_set ?k q (queues s1)\<rparr>"
  have l1: "limits s1 = limits s" using pr(2) by (simp add: shrunk_def)
  have l2: "limits s2 = limits s" using l1 by (simp add: s2_def limits_def)
  have g2: "dict_get (queues s2) = (dict_get (queues s1))(?k \<mapsto> q)"
    by (simp add: s2_def dict_simps fun_eq_iff)
  have c2: "counters_ok s2"
  proof (cases "dict_get (queues s1) ?k")
    case None
    then have "q = []" "?k \<notin> fst ` set (queues s1)" by (simp add: q_def, simp add: map_of_eq_None_iff)
    moreover from this have "queues s2 = queues s1 @ [(?k, [])]" by (simp add: s2_def dict_set_new)
    ultimately show ?thesis using pr(1) by (auto simp: s2_def counters_ok_def queued_packets_def queued_bytes_def)
  next
    case (Some q')
    then have "queues s2 = queues s1" "s2 = s1"
      using pr(1) by (simp_all add: s2_def q_def counters_ok_def update_triv)
    with pr(1) show ?thesis by simp
  qed
  have len: "int (length q) \<le> max_per_peer s2"
    using ok1 by (auto simp: q_def sf_ok_def s2_def dest: map_of_SomeD split: option.split)
  have mpp: "1 \<le> max_per_peer s2" "1 \<le> max_total_packets s2" using ok1 by (simp_all add: s2_def sf_ok_def)
  define s3 where "s3 = (if int (length q) \<ge> max_per_peer s2
      then (uncount (hd q) s2)\<lparr>queues := dict_set ?k (tl q) (queues s2)\<rparr> else s2)"
  have g3: "dict_get (queues s3) ?k = Some (if int (length q) \<ge> max_per_peer s2 then tl q else q)"
    by (simp add: s3_def g2 dict_simps)
  have c3: "counters_ok s3 \<and> shrunk s2 s3"
  proof (cases "int (length q) \<ge> max_per_peer s2")
    case True
    with mpp(1) have "q = [hd q] @ tl q" by (cases q) auto
    then have "dict_get (queues s2) ?k = Some ([hd q] @ tl q)" by (simp add: g2)
    moreover have "s3 = (fold uncount [hd q] s2)\<lparr>queues := dict_set ?k (tl q) (queues s2)\<rparr>"
      using True by (simp add: s3_def)
    ultimately show ?thesis using shrink_key [OF c2] by blast
  next
    case False
    then show ?thesis using c2 by (simp add: s3_def)
  qed
  have l3: "limits s3 = limits s" using c3 l2 by (simp add: shrunk_def)
  obtain s4 where s4: "evict_packets s3 = Some s4" "counters_ok s4" "shrunk s3 s4"
    "current_total_packets s4 < max_total_packets s4"
    "\<forall>k. dict_get (queues s3) k = Some [] \<longrightarrow> dict_get (queues s4) k = Some []"
    using evict_packets_ok [of s3] c3 mpp(2) l3 l2 by (auto simp: limits_def)
  have "?n \<le> max_total_bytes s4" using assms(2) s4(3) l3 by (simp add: shrunk_def limits_def)
  then obtain s5 where s5: "evict_bytes ?n s4 = Some s5" "counters_ok s5" "shrunk s4 s5"
    "current_total_bytes s5 + ?n \<le> max_total_bytes s5"
    "\<forall>k. dict_get (queues s4) k = Some [] \<longrightarrow> dict_get (queues s5) k = Some []"
    using evict_bytes_ok [OF s4(2)] by blast
  have l5: "limits s5 = limits s" using s4(3) s5(3) l3 by (simp add: shrunk_def)
  have sh: "shrunk s3 s5" using s4(3) s5(3) by (rule shrunk_trans)
  have run: "enqueue now target p s = Some (append_queued ?k
      \<lparr>q_packet = p, q_enqueued_at = now, q_byte_size = ?n\<rparr> s5, Inr True)"
    using assms(2) l1 mpp(1) s4(1) s5(1,4)
    unfolding enqueue_def Let_def s1_def [symmetric] q_def [symmetric] s2_def [symmetric]
      s3_def [symmetric] wire_estimate_def [symmetric]
    by (auto simp: limits_def)
  have "int (length q') \<le> max_per_peer s5 - (if k = ?k then 1 else 0)" if h: "dict_get (queues s5) k = Some q'" for k q'
  proof -
    obtain q3 where q3: "dict_get (queues s3) k = Some q3" and "suffix q' q3"
      using sh h unfolding shrunk_def by blast
    then have q3_len: "length q' \<le> length q3" by (simp add: suffix_length_le)
    have "int (length q3) \<le> max_per_peer s2 - (if k = ?k then 1 else 0)"
    proof (cases "k = ?k")
      case True
      with q3 g3 len mpp(1) show ?thesis by (auto split: if_splits)
    next
      case False
      then have "dict_get (queues s1) k = Some q3" using q3 by (simp add: s3_def s2_def dict_simps uncount_def split: if_splits)
      then show ?thesis using ok1 False by (auto simp: sf_ok_def s2_def dest: map_of_SomeD)
    qed
    moreover have "max_per_peer s5 = max_per_peer s2" using l5 l2 by (simp add: limits_def)
    ultimately show ?thesis using q3_len by auto
  qed
  moreover have "dict_get (queues s5) ?k = Some []"
    if "live_queue now (packet_ttl_seconds s) (dict_get (queues s) ?k) = None"
  proof -
    have "q = []" using that by (simp add: q_def pr(3))
    then have "dict_get (queues s3) ?k = Some []" using g3 mpp(1) by simp
    then show ?thesis using s4(5) s5(5) by blast
  qed
  moreover have "current_total_packets s5 < max_total_packets s5"
    using s4(4) s5(3) by (simp add: shrunk_def limits_def)
  ultimately show ?thesis using run s5(2,4) l5 by (intro exI [of _ s5] conjI allI impI)
qed

lemma append_queued_ok:
  assumes "counters_ok s" "dict_get (queues s) k = Some q" "0 < q_byte_size item"
  shows "counters_ok (append_queued k item s)"
proof -
  have "\<forall>i \<in> set q. 0 < q_byte_size i" using assms(1,2) by (force simp: counters_ok_def dest: map_of_SomeD)
  then show ?thesis
    unfolding append_queued_def assms(2) option.case
    by (intro counters_ok_replace [OF assms(1,2), of "q @ [item]"]) (use assms(3) in auto)
qed

lemma wire_estimate_pos: "0 < wire_estimate p"
  by (simp add: wire_estimate_def)

lemma enqueue_rejects:
  assumes "sf_ok s" "\<not> wire_estimate p \<le> max_total_bytes s"
  shows "enqueue now target p s = Some (fst (sf_prune_expired now s), Inr False)"
    "sf_ok (fst (sf_prune_expired now s))"
proof -
  have c: "counters_ok s" using assms(1) by (simp add: sf_ok_def)
  note pr = sf_prune_ok [OF c, of now]
  show "sf_ok (fst (sf_prune_expired now s))" by (rule shrunk_sf_ok [OF assms(1) pr(2,1)])
  show "enqueue now target p s = Some (fst (sf_prune_expired now s), Inr False)"
    using pr(2) assms(2) by (simp add: enqueue_def Let_def shrunk_def limits_def flip: wire_estimate_def)
qed

lemma enqueue_keeps_ok:
  assumes "sf_ok s" "enqueue now target p s = Some (s', b)" "has_pending target s' \<or> b = Inr False"
  shows "sf_ok s'"
proof (cases "wire_estimate p \<le> max_total_bytes s")
  case False
  with enqueue_rejects(1) [OF assms(1) False, of now target] enqueue_rejects(2) [OF assms(1) False, of now] assms(2) show ?thesis by simp
next
  case True
  let ?k = "normalize_peer_id target"
  let ?item = "\<lparr>q_packet = p, q_enqueued_at = now, q_byte_size = wire_estimate p\<rparr>"
  obtain t where t: "s' = append_queued ?k ?item t" "b = Inr True" "counters_ok t" "limits t = limits s"
    "current_total_packets t < max_total_packets t" "current_total_bytes t + wire_estimate p \<le> max_total_bytes t"
    "\<forall>k q. dict_get (queues t) k = Some q \<longrightarrow> int (length q) \<le> max_per_peer t - (if k = ?k then 1 else 0)"
    using enqueue_fits [OF assms(1) True, of now target] assms(2) by auto
  have "dict_get (queues t) ?k \<noteq> None"
    using assms(3) t(2) unfolding t(1) by (auto simp: has_pending_def append_queued_def split: option.splits)
  then obtain q where q: "dict_get (queues t) ?k = Some q" by blast
  have c: "counters_ok s'" unfolding t(1) by (rule append_queued_ok [OF t(3) q]) (simp add: wire_estimate_pos)
  have "int (length q') \<le> max_per_peer s'" if "(k, q') \<in> set (queues s')" for k q'
  proof -
    have "dict_get (queues s') k = Some q'" using that c by (simp add: counters_ok_def)
    then show ?thesis using t(7) q unfolding t(1)
      by (auto simp: append_queued_def dict_simps simp del: map_of_eq_Some_iff split: if_splits)
  qed
  with c show ?thesis
    using assms(1) t(4-6) unfolding sf_ok_def t(1) by (auto simp: append_queued_def limits_def)
qed

subsection \<open>Properties\<close>

definition peer_a :: peer_arg where
  "peer_a = PBytes [1, 2, 3, 4, 5, 6, 7, 8]"

text \<open>
  C30. \<open>enqueue\<close> always returns from a consistent state: it answers \<open>True\<close> exactly when the
  packet fits the byte budget, never raises, leaves the configuration alone and the counters
  within the limits, and if it answers \<open>False\<close> or the packet is pending afterwards, the state is
  consistent again (counters equal to the contents of the queues, per-peer limit respected).
\<close>

theorem enqueue_total:
  assumes "sf_ok s"
  shows "\<exists>s'. enqueue now target p s = Some (s', Inr (wire_estimate p \<le> max_total_bytes s)) \<and>
     limits s' = limits s \<and> current_total_packets s' \<le> max_total_packets s \<and>
     current_total_bytes s' \<le> max (max_total_bytes s) 0 \<and>
     (has_pending target s' \<or> \<not> wire_estimate p \<le> max_total_bytes s \<longrightarrow> sf_ok s')"
proof (cases "wire_estimate p \<le> max_total_bytes s")
  case False
  have "shrunk s (fst (sf_prune_expired now s))" using sf_prune_ok(2) assms by (simp add: sf_ok_def)
  with False enqueue_rejects(1) [OF assms False, of now target] enqueue_rejects(2) [OF assms False, of now] assms
  show ?thesis by (auto simp: sf_ok_def shrunk_def limits_def)
next
  case True
  obtain t where t: "enqueue now target p s = Some (append_queued (normalize_peer_id target)
       \<lparr>q_packet = p, q_enqueued_at = now, q_byte_size = wire_estimate p\<rparr> t, Inr True)"
    "limits t = limits s" "current_total_packets t < max_total_packets t"
    "current_total_bytes t + wire_estimate p \<le> max_total_bytes t"
    using enqueue_fits [OF assms True, of now target] by blast
  with True enqueue_keeps_ok [OF assms t(1)] show ?thesis
    by (auto simp: append_queued_def limits_def)
qed

theorem enqueue_total_witness:
  "\<exists>s'. enqueue 0 peer_a sample_packet default_sfq
       = Some (s', Inr (wire_estimate sample_packet \<le> max_total_bytes default_sfq)) \<and>
     limits s' = limits default_sfq \<and> current_total_packets s' \<le> max_total_packets default_sfq \<and>
     current_total_bytes s' \<le> max (max_total_bytes default_sfq) 0 \<and>
     (has_pending peer_a s' \<or> \<not> wire_estimate sample_packet \<le> max_total_bytes default_sfq \<longrightarrow> sf_ok s')"
  by (rule enqueue_total) (simp add: default_sfq_def sf_ok_new)

text \<open>
  C31. Store and forward: a packet that fits, enqueued for a peer that has nothing pending, is
  stored, whatever had to be evicted to make room, and draining the peer within the lifetime
  returns exactly this packet and leaves a consistent state with nothing pending for the peer.
\<close>

theorem enqueue_dequeue:
  assumes "sf_ok s" and "wire_estimate p \<le> max_total_bytes s"
    and "\<not> has_pending target (fst (sf_prune_expired now s))" and "later - now \<le> packet_ttl_seconds s"
  shows "\<exists>s' s''. enqueue now target p s = Some (s', Inr True) \<and> sf_ok s' \<and> has_pending target s' \<and>
     dequeue_for_peer later target s' = (s'', [p]) \<and> sf_ok s'' \<and> \<not> has_pending target s''"
proof -
  let ?k = "normalize_peer_id target"
  let ?item = "\<lparr>q_packet = p, q_enqueued_at = now, q_byte_size = wire_estimate p\<rparr>"
  have c: "counters_ok s" using assms(1) by (simp add: sf_ok_def)
  have "live_queue now (packet_ttl_seconds s) (dict_get (queues s) ?k) = None"
    using assms(3) sf_prune_ok(3) [OF c, of now ?k]
    by (auto simp: has_pending_def live_queue_def split: option.splits list.splits)
  then obtain t where t: "enqueue now target p s = Some (append_queued ?k ?item t, Inr True)"
    "limits t = limits s" "dict_get (queues t) ?k = Some []"
    using enqueue_fits [OF assms(1,2), of now target] by blast
  let ?s' = "append_queued ?k ?item t"
  have g: "dict_get (queues ?s') ?k = Some [?item]" using t(3) by (simp add: append_queued_def dict_simps)
  then have pend: "has_pending target ?s'" by (simp add: has_pending_def)
  have ok: "sf_ok ?s'" using enqueue_keeps_ok [OF assms(1) t(1)] pend by blast
  then have cs: "counters_ok ?s'" by (simp add: sf_ok_def)
  let ?s'' = "(fold uncount [?item] ?s')\<lparr>queues := dict_pop ?k (queues ?s')\<rparr>"
  have sk: "counters_ok ?s''" "shrunk ?s' ?s''"
    by (rule shrink_key [OF cs, of ?k "[?item]" "[]" "dict_pop ?k (queues ?s')"]; use g in simp)+
  have "dequeue_for_peer later target ?s' = (?s'', [p])"
    using g assms(4) t(2)
    by (simp add: dequeue_for_peer_def Let_def append_queued_def uncount_def limits_def del: map_of_eq_Some_iff)
  moreover have "\<not> has_pending target ?s''"
    by (simp add: has_pending_def uncount_def dict_simps)
  ultimately show ?thesis using t(1) ok pend shrunk_sf_ok [OF ok sk(2,1)] by blast
qed

theorem enqueue_dequeue_witness:
  "\<exists>s' s''. enqueue 0 peer_a sample_packet default_sfq = Some (s', Inr True) \<and> sf_ok s' \<and>
     has_pending peer_a s' \<and> dequeue_for_peer 300 peer_a s' = (s'', [sample_packet]) \<and> sf_ok s'' \<and>
     \<not> has_pending peer_a s''"
  by (rule enqueue_dequeue)
     (simp_all add: default_sfq_def sf_ok_new StoreAndForwardQueue_def wire_estimate_def sample_packet_def
       sf_prune_expired_def has_pending_def sf_ok_def counters_ok_def queued_bytes_def)

text \<open>
  Draining a peer: \<open>dequeue_for_peer\<close> returns the packets of the peer that are still within
  their lifetime, in the order they were enqueued, and removes the whole queue; the queues of
  the other peers are untouched and the state stays consistent.
\<close>

theorem dequeue_correct:
  assumes "sf_ok s"
  shows "sf_ok (fst (dequeue_for_peer now target s)) \<and>
    snd (dequeue_for_peer now target s) =
      (case dict_get (queues s) (normalize_peer_id target) of None \<Rightarrow> []
       | Some q \<Rightarrow> map q_packet (filter (\<lambda>i. now - q_enqueued_at i \<le> packet_ttl_seconds s) q)) \<and>
    dict_get (queues (fst (dequeue_for_peer now target s))) =
      (dict_get (queues s)) (normalize_peer_id target := None)"
proof (cases "dict_get (queues s) (normalize_peer_id target)")
  case None
  with assms show ?thesis by (auto simp: dequeue_for_peer_def)
next
  case (Some q)
  let ?k = "normalize_peer_id target"
  let ?s' = "(fold uncount q s)\<lparr>queues := dict_pop ?k (queues s)\<rparr>"
  have c: "counters_ok s" using assms by (simp add: sf_ok_def)
  have sk: "counters_ok ?s'" "shrunk s ?s'"
    by (rule shrink_key [OF c, of ?k q "[]" "dict_pop ?k (queues s)"]; use Some in simp)+
  have f: "fst (dequeue_for_peer now target s) = ?s'"
    using Some by (simp add: dequeue_for_peer_def Let_def fold_uncount)
  moreover have "snd (dequeue_for_peer now target s) =
      map q_packet (filter (\<lambda>i. now - q_enqueued_at i \<le> packet_ttl_seconds s) q)"
    using Some by (simp add: dequeue_for_peer_def Let_def)
  moreover have "dict_get (queues ?s') = (dict_get (queues s))(?k := None)"
    by (simp add: dict_simps fun_eq_iff)
  ultimately show ?thesis using shrunk_sf_ok [OF assms sk(2,1)] Some by (simp add: fun_eq_iff)
qed

theorem dequeue_correct_witness:
  "sf_ok (fst (dequeue_for_peer 0 peer_a default_sfq)) \<and>
    snd (dequeue_for_peer 0 peer_a default_sfq) =
      (case dict_get (queues default_sfq) (normalize_peer_id peer_a) of None \<Rightarrow> []
       | Some q \<Rightarrow> map q_packet (filter (\<lambda>i. 0 - q_enqueued_at i \<le> packet_ttl_seconds default_sfq) q)) \<and>
    dict_get (queues (fst (dequeue_for_peer 0 peer_a default_sfq))) =
      (dict_get (queues default_sfq)) (normalize_peer_id peer_a := None)"
  by (rule dequeue_correct) (simp add: default_sfq_def sf_ok_new)

lemma while_option_stuck:
  assumes "b s" "c s = s"
  shows "while_option b c s = None"
proof (cases "while_option b c s")
  case (Some t)
  have "t = s" by (rule while_option_rule [where P = "\<lambda>x. x = s", OF _ Some]) (simp_all add: assms(2))
  with while_option_stop [OF Some] assms(1) show ?thesis by simp
qed

definition tiny_sfq :: sfq where
  "tiny_sfq = StoreAndForwardQueue 1 20 (256 * 1024) 300"

definition tiny_item :: "real \<Rightarrow> queued" where
  "tiny_item t = \<lparr>q_packet = sample_packet, q_enqueued_at = t, q_byte_size = 34\<rparr>"

definition tiny_full :: sfq where
  "tiny_full = tiny_sfq\<lparr>queues := [(normalize_peer_id peer_a, [tiny_item 0])],
     current_total_packets := 1, current_total_bytes := 34\<rparr>"

definition tiny_leaked :: sfq where
  "tiny_leaked = tiny_sfq\<lparr>current_total_packets := 1, current_total_bytes := 34\<rparr>"

lemma estimate_sample: "int (length (payload sample_packet)) = 2"
  by (simp add: sample_packet_def)


end
