(* ===== verification/Rate_Limit.thy ===== *)
theory Rate_Limit
  imports Interfaces
begin

text \<open>
  The per-source rate limiter, which \<open>mesh/router.py\<close> and \<open>network/discovery.py\<close> both contain: a
  dictionary from a source to the times of its recently accepted packets, pruned when it has
  more than \<open>threshold\<close> entries; \<open>limit\<close> packets are accepted per second.
\<close>

definition limiter_prune :: "real \<Rightarrow> real \<Rightarrow> (string, real list) dict \<Rightarrow> (string, real list) dict \<times> nat" where
  "limiter_prune max_age now d =
     (let to_delete = map fst (filter (\<lambda>e. snd e = [] \<or> now - Max (set (snd e)) > max_age) d)
      in (dict_pop_all to_delete d, length to_delete))"

definition limiter_check ::
  "nat \<Rightarrow> int \<Rightarrow> real \<Rightarrow> string \<Rightarrow> (string, real list) dict \<Rightarrow> (string, real list) dict \<times> bool" where
  "limiter_check threshold limit now k d =
     (let d1 = (if length d > threshold then fst (limiter_prune 1 now d) else d) in
      case dict_get d1 k of
        None \<Rightarrow> (dict_set k [now] d1, False)
      | Some timestamps \<Rightarrow>
          let valid = filter (\<lambda>t. now - t \<le> 1) timestamps in
          if valid = [] then (dict_set k [now] d1, False)
          else if int (length valid) \<ge> limit then (dict_set k valid d1, True)
          else (dict_set k (valid @ [now]) d1, False))"

definition limiter_log :: "(string, real list) dict \<Rightarrow> string \<Rightarrow> real list" where
  "limiter_log d k = (case dict_get d k of None \<Rightarrow> [] | Some ts \<Rightarrow> ts)"

definition limiter_step ::
  "nat \<Rightarrow> int \<Rightarrow> (string, real list) dict \<Rightarrow> real \<times> string \<Rightarrow> (string, real list) dict \<times> bool" where
  "limiter_step threshold limit d e =
     (case limiter_check threshold limit (fst e) (snd e) d of (d', limited) \<Rightarrow> (d', \<not> limited))"

lemma limiter_prune_eq:
  "dict_ok d \<Longrightarrow> fst (limiter_prune age now d) =
     filter (\<lambda>e. \<not> (snd e = [] \<or> now - Max (set (snd e)) > age)) d"
  by (simp add: limiter_prune_def Let_def dict_pop_all_where)

text \<open>Pruning loses no timestamp of the last second.\<close>

lemma limiter_prune_recent:
  assumes "dict_ok d"
  shows "recent 1 now (limiter_log (fst (limiter_prune 1 now d)) k) = recent 1 now (limiter_log d k)"
proof (cases "dict_get d k")
  case (Some ts)
  have "recent 1 now ts = []" if old: "ts = [] \<or> now - Max (set ts) > 1"
  proof -
    have "\<not> now - t \<le> 1" if "t \<in> set ts" for t
    proof -
      have "t \<le> Max (set ts)" using that by (intro Max_ge) auto
      moreover have "now - Max (set ts) > 1" using that old by auto
      ultimately show ?thesis by linarith
    qed
    then show ?thesis by (simp add: recent_def filter_empty_conv)
  qed
  with Some show ?thesis
    by (auto simp: limiter_log_def limiter_prune_eq assms dict_get_filter recent_def simp del: map_of_eq_Some_iff)
next
  case None
  then show ?thesis using assms by (simp add: limiter_log_def limiter_prune_eq dict_get_filter)
qed

lemma limiter_prune_ok: "dict_ok d \<Longrightarrow> dict_ok (fst (limiter_prune age now d))"
  by (simp add: limiter_prune_eq dict_ok_filter)

text \<open>One request in terms of the log.\<close>

lemma limiter_step_cases:
  assumes "dict_ok d"
  obtains d1 l where "dict_ok d1" "fst (limiter_step th cap d (now, k)) = dict_set k l d1"
    "\<And>j. recent 1 now (limiter_log d1 j) = recent 1 now (limiter_log d j)"
    "snd (limiter_step th cap d (now, k)) \<Longrightarrow> l = recent 1 now (limiter_log d k) @ [now] \<and>
       int (length (recent 1 now (limiter_log d k))) < max 1 cap"
    "\<not> snd (limiter_step th cap d (now, k)) \<Longrightarrow> l = recent 1 now (limiter_log d k)"
proof -
  define d1 where "d1 = (if length d > th then fst (limiter_prune 1 now d) else d)"
  define valid where "valid = recent 1 now (limiter_log d1 k)"
  have ok: "dict_ok d1" using assms by (simp add: d1_def limiter_prune_ok)
  have rec: "recent 1 now (limiter_log d1 j) = recent 1 now (limiter_log d j)" for j
    using assms by (simp add: d1_def limiter_prune_recent)
  have "limiter_step th cap d (now, k) =
      (if valid \<noteq> [] \<and> int (length valid) \<ge> cap then (dict_set k valid d1, False)
       else (dict_set k (valid @ [now]) d1, True))"
    by (cases "dict_get d1 k")
       (simp_all add: limiter_step_def limiter_check_def valid_def limiter_log_def recent_def Let_def
        flip: d1_def)
  then show thesis
    using ok rec by (intro that [of d1 "if valid \<noteq> [] \<and> int (length valid) \<ge> cap then valid else valid @ [now]"])
       (auto simp: valid_def split: if_splits)
qed

lemma limiter_log_set: "limiter_log (dict_set k l d) j = (if j = k then l else limiter_log d j)"
  by (simp add: limiter_log_def dict_simps)

lemma recent_idem [simp]: "recent w now (recent w now l) = recent w now l"
  by (simp add: recent_def)

interpretation limiter: sliding_window "limiter_step th cap" dict_ok limiter_log 1 "\<lambda>_. nat cap" for th cap
proof
  fix d :: "(string, real list) dict" and e :: "real \<times> string" and now :: real and k k' :: string
  assume ok: "dict_ok d"
  show "dict_ok (fst (limiter_step th cap d e))"
    by (cases e, rule limiter_step_cases [OF ok, of th cap "fst e" "snd e"]) auto
  show "nat cap = nat cap" ..
  {
    assume "k' \<noteq> k"
    then show "recent 1 now (limiter_log (fst (limiter_step th cap d (now, k))) k') = recent 1 now (limiter_log d k')"
      by (rule_tac limiter_step_cases [OF ok, of th cap now k]) (simp add: limiter_log_set)
  next
    assume s: "snd (limiter_step th cap d (now, k))"
    then show "recent 1 now (limiter_log (fst (limiter_step th cap d (now, k))) k) = recent 1 now (limiter_log d k) @ [now]"
      by (rule_tac limiter_step_cases [OF ok, of th cap now k]) (simp add: limiter_log_set recent_def)
    show "length (recent 1 now (limiter_log d k)) < max 1 (nat cap)"
      using s by (rule_tac limiter_step_cases [OF ok, of th cap now k]) auto
  next
    assume "\<not> snd (limiter_step th cap d (now, k))"
    then show "recent 1 now (limiter_log (fst (limiter_step th cap d (now, k))) k) = recent 1 now (limiter_log d k)"
      by (rule_tac limiter_step_cases [OF ok, of th cap now k]) (simp add: limiter_log_set)
  }
qed simp

end
