(* ===== verification/Router.thy ===== *)
theory Router
  imports Dedup Store_Forward Rate_Limit
begin

text \<open>
  \<open>mesh/router.py\<close>: the routing table, the rate limiter per sender, and \<open>evaluate_incoming\<close>,
  which decides for every packet whether it is delivered, relayed or dropped.
\<close>

definition DEFAULT_MAX_RELAY_TTL :: int where [simp]: "DEFAULT_MAX_RELAY_TTL = 10"
definition DEFAULT_PEER_RATE_LIMIT :: int where [simp]: "DEFAULT_PEER_RATE_LIMIT = 50"
definition DEFAULT_MAX_ROUTES :: nat where [simp]: "DEFAULT_MAX_ROUTES = 1000"
definition DEFAULT_ROUTE_TTL_SECONDS :: real where [simp]: "DEFAULT_ROUTE_TTL_SECONDS = 300"
definition DEFAULT_RELAY_JITTER_MIN :: real where [simp]: "DEFAULT_RELAY_JITTER_MIN = 10 / 1000"
definition DEFAULT_RELAY_JITTER_MAX :: real where [simp]: "DEFAULT_RELAY_JITTER_MAX = 50 / 1000"

definition normalize_route_key :: "peer_arg \<Rightarrow> string" where
  "normalize_route_key key =
     (case key of PBytes b \<Rightarrow> py_lower (bytes_hex b) | PStr s \<Rightarrow> py_lower (py_strip s))"

record route_entry =
  next_hop :: string
  hop_count :: int
  updated_at :: real

record routing_decision =
  should_process_locally :: bool
  packet_to_relay :: "packet option"
  target_peer_id_hex :: "string option"
  exclude_ingress :: "string option"
  drop_reason :: "string option"

record router =
  local_peer_id :: bytes
  deduplicator :: dedup
  store_forward_queue :: sfq
  max_relay_ttl :: int
  relay_jitter_min :: real
  relay_jitter_max :: real
  rate_limit_per_peer :: int
  max_routes :: nat
  route_ttl_seconds :: real
  routes :: "(string, route_entry) dict"
  rate_limiter :: "(string, real list) dict"

text \<open>\<open>deduplicator or PacketDeduplicator()\<close>: a deduplicator defines \<open>__len__\<close>, so an empty one is
  false and is replaced by a default one.\<close>

definition MeshRouter ::
  "bytes \<Rightarrow> dedup option \<Rightarrow> sfq option \<Rightarrow> int \<Rightarrow> real \<Rightarrow> real \<Rightarrow> int \<Rightarrow> router" where
  "MeshRouter lpid dd sf max_ttl jmin jmax rate =
     \<lparr>local_peer_id = lpid,
      deduplicator = (case dd of None \<Rightarrow> default_dedup
                      | Some d \<Rightarrow> if dedup_len d = 0 then default_dedup else d),
      store_forward_queue = (case sf of None \<Rightarrow> default_sfq | Some q \<Rightarrow> q),
      max_relay_ttl = max_ttl, relay_jitter_min = jmin, relay_jitter_max = jmax,
      rate_limit_per_peer = rate, max_routes = DEFAULT_MAX_ROUTES,
      route_ttl_seconds = DEFAULT_ROUTE_TTL_SECONDS, routes = [], rate_limiter = []\<rparr>"

definition default_router :: "bytes \<Rightarrow> router" where
  "default_router lpid = MeshRouter lpid None None DEFAULT_MAX_RELAY_TTL DEFAULT_RELAY_JITTER_MIN
     DEFAULT_RELAY_JITTER_MAX DEFAULT_PEER_RATE_LIMIT"

definition prune_rate_limiter :: "real \<Rightarrow> real \<Rightarrow> router \<Rightarrow> router \<times> nat" where
  "prune_rate_limiter max_age now r =
     (let (d, n) = limiter_prune max_age now (rate_limiter r) in (r\<lparr>rate_limiter := d\<rparr>, n))"

definition is_rate_limited :: "real \<Rightarrow> string \<Rightarrow> router \<Rightarrow> router \<times> bool" where
  "is_rate_limited now sender_hex r =
     (let (d, b) = limiter_check 1000 (rate_limit_per_peer r) now sender_hex (rate_limiter r)
      in (r\<lparr>rate_limiter := d\<rparr>, b))"

subsection \<open>The routing table\<close>

definition prune_routes :: "real option \<Rightarrow> real \<Rightarrow> router \<Rightarrow> router \<times> nat" where
  "prune_routes max_age now r =
     (let ttl_s = (case max_age of None \<Rightarrow> route_ttl_seconds r | Some a \<Rightarrow> a);
          expired = map fst (filter (\<lambda>e. now - updated_at (snd e) > ttl_s) (routes r))
      in (r\<lparr>routes := dict_pop_all expired (routes r)\<rparr>, length expired))"

text \<open>\<open>min(keys, key=...)\<close>: the first key with the least time.\<close>

fun oldest_route :: "(string \<times> route_entry) \<Rightarrow> (string, route_entry) dict \<Rightarrow> string" where
  "oldest_route best [] = fst best"
| "oldest_route best (e # es) =
     oldest_route (if updated_at (snd e) < updated_at (snd best) then e else best) es"

text \<open>\<open>min\<close> is applied to a table that is not empty, since \<open>max_routes\<close> is 1000.\<close>

definition make_room :: "real \<Rightarrow> router \<Rightarrow> router" where
  "make_room now r =
     (if length (routes r) \<ge> max_routes r then
        let r1 = fst (prune_routes None now r) in
        if length (routes r1) \<ge> max_routes r1 then
          (case routes r1 of
             [] \<Rightarrow> r1
           | e # es \<Rightarrow> r1\<lparr>routes := dict_pop (oldest_route e es) (routes r1)\<rparr>)
        else r1
      else r)"

definition add_route :: "peer_arg \<Rightarrow> peer_arg \<Rightarrow> int \<Rightarrow> real \<Rightarrow> router \<Rightarrow> router" where
  "add_route destination nh hops now r0 =
     (let dest_key = normalize_route_key destination;
          next_hop_str = normalize_route_key nh;
          r = make_room now r0;
          entry = \<lparr>next_hop = next_hop_str, hop_count = hops, updated_at = now\<rparr>
      in case dict_get (routes r) dest_key of
           None \<Rightarrow> r\<lparr>routes := dict_set dest_key entry (routes r)\<rparr>
         | Some existing \<Rightarrow>
             if now - updated_at existing \<le> route_ttl_seconds r \<and> hop_count existing < hops then r
             else r\<lparr>routes := dict_set dest_key entry (routes r)\<rparr>)"

definition get_next_hop :: "peer_arg \<Rightarrow> real \<Rightarrow> router \<Rightarrow> router \<times> string option" where
  "get_next_hop destination now r =
     (let dest_key = normalize_route_key destination in
      case dict_get (routes r) dest_key of
        None \<Rightarrow> (r, None)
      | Some e \<Rightarrow>
          if now - updated_at e > route_ttl_seconds r
          then (r\<lparr>routes := dict_pop dest_key (routes r)\<rparr>, None)
          else (r, Some (next_hop e)))"

definition remove_route :: "peer_arg \<Rightarrow> router \<Rightarrow> router" where
  "remove_route destination r = r\<lparr>routes := dict_pop (normalize_route_key destination) (routes r)\<rparr>"

text \<open>\<open>random.uniform(a, b)\<close> is \<open>a + (b - a) * u\<close> for \<open>u\<close> in \<open>[0, 1]\<close>.\<close>

definition get_relay_jitter :: "real \<Rightarrow> router \<Rightarrow> real" where
  "get_relay_jitter u r = relay_jitter_min r + (relay_jitter_max r - relay_jitter_min r) * u"

subsection \<open>Incoming packets\<close>

definition dropped :: "string \<Rightarrow> routing_decision" where
  "dropped reason = \<lparr>should_process_locally = False, packet_to_relay = None,
     target_peer_id_hex = None, exclude_ingress = None, drop_reason = Some reason\<rparr>"

definition learned_hop_count :: "packet \<Rightarrow> int" where
  "learned_hop_count p = (if ttl p \<le> 7 then max 1 (7 - ttl p + 1) else 1)"

text \<open>Step 5 of \<open>evaluate_incoming\<close>: \<open>if ingress_source:\<close> is false for \<open>None\<close> and for \<open>''\<close>.\<close>

definition learn_route :: "packet \<Rightarrow> string option \<Rightarrow> real \<Rightarrow> router \<Rightarrow> router" where
  "learn_route p ingress now r =
     (case ingress of
        None \<Rightarrow> r
      | Some src \<Rightarrow>
          if src = '''' then r
          else add_route (PStr (sender_id_hex p)) (PStr src) (learned_hop_count p) now r)"

text \<open>Step 7: the packet to relay, and its recording in the deduplicator.\<close>

definition relay_packet :: "bool \<Rightarrow> bool \<Rightarrow> packet \<Rightarrow> real \<Rightarrow> router \<Rightarrow> router \<times> (exn + packet option)" where
  "relay_packet is_broadcast is_for_us p now r =
     (if ttl p > 1 \<and> \<not> (\<not> is_broadcast \<and> is_for_us) then
        let decremented_ttl = min (ttl p) (max_relay_ttl r) - 1 in
        if decremented_ttl \<ge> 1 then
          (case replace_ttl p decremented_ttl of
             Inl e \<Rightarrow> (r, Inl e)
           | Inr q \<Rightarrow> (r\<lparr>deduplicator := record_packet now q (deduplicator r)\<rparr>, Inr (Some q)))
        else (r, Inr None)
      else (r, Inr None))"

definition evaluate_incoming ::
  "packet \<Rightarrow> string option \<Rightarrow> real \<Rightarrow> router \<Rightarrow> router \<times> (exn + routing_decision)" where
  "evaluate_incoming p ingress now r =
     (if sender_id p = local_peer_id r
      then (r, Inr (dropped ''Packet originated from local peer''))
      else case is_rate_limited now (sender_id_hex p) r of
        (r1, True) \<Rightarrow> (r1, Inr (dropped (''Rate limit exceeded for '' @ sender_id_hex p)))
      | (r1, False) \<Rightarrow>
          if ttl p \<le> 0 then (r1, Inr (dropped ''Invalid or expired TTL (<= 0)''))
          else case check_and_record now p (deduplicator r1) of
            (d, True) \<Rightarrow> (r1\<lparr>deduplicator := d\<rparr>, Inr (dropped ''Duplicate packet suppressed''))
          | (d, False) \<Rightarrow>
              let r2 = learn_route p ingress now (r1\<lparr>deduplicator := d\<rparr>);
                  is_broadcast = (recipient_id p = None \<or> recipient_id p = Some BROADCAST_RECIPIENT);
                  is_for_us = (is_broadcast \<or> recipient_id p = Some (local_peer_id r2))
              in case relay_packet is_broadcast is_for_us p now r2 of
                   (r3, Inl e) \<Rightarrow> (r3, Inl e)
                 | (r3, Inr relay) \<Rightarrow>
                     (r3, Inr \<lparr>should_process_locally = is_for_us, packet_to_relay = relay,
                       target_peer_id_hex = (if is_for_us then None else recipient_id_hex p),
                       exclude_ingress = ingress, drop_reason = None\<rparr>))"

subsection \<open>Lemmas on the routing table\<close>

definition routes_ok :: "router \<Rightarrow> bool" where
  "routes_ok r \<longleftrightarrow> dict_ok (routes r) \<and> length (routes r) \<le> max_routes r \<and> 0 < max_routes r"

definition router_ok :: "router \<Rightarrow> bool" where
  "router_ok r \<longleftrightarrow> routes_ok r \<and> dict_ok (rate_limiter r) \<and> dedup_ok (deduplicator r)"

lemma router_ok_new: "(\<And>d. dd = Some d \<Longrightarrow> dedup_ok d) \<Longrightarrow> router_ok (MeshRouter lpid dd sf mt jn jx rl)"
  by (auto simp: router_ok_def routes_ok_def MeshRouter_def split: option.split)

lemma oldest_route_min:
  "\<exists>x \<in> set (e # es). fst x = oldest_route e es \<and> (\<forall>y \<in> set (e # es). updated_at (snd x) \<le> updated_at (snd y))"
proof (induction es arbitrary: e)
  case (Cons e' es)
  show ?case
  proof (cases "updated_at (snd e') < updated_at (snd e)")
    case True
    from Cons [of e'] obtain x where x: "x \<in> set (e' # es)" "fst x = oldest_route e' es"
      "\<forall>y \<in> set (e' # es). updated_at (snd x) \<le> updated_at (snd y)" by blast
    then have "updated_at (snd x) \<le> updated_at (snd e)" using True by force
    with x True show ?thesis by (intro bexI [of _ x]) auto
  next
    case False
    from Cons [of e] obtain x where x: "x \<in> set (e # es)" "fst x = oldest_route e es"
      "\<forall>y \<in> set (e # es). updated_at (snd x) \<le> updated_at (snd y)" by blast
    then have "updated_at (snd x) \<le> updated_at (snd e')" using False by force
    with x False show ?thesis by (intro bexI [of _ x]) auto
  qed
qed simp

lemma oldest_route_in: "oldest_route e es \<in> fst ` set (e # es)"
  using oldest_route_min [of e es] by (metis image_eqI)

lemma prune_routes_eq:
  "dict_ok (routes r) \<Longrightarrow> fst (prune_routes a now r) =
     r\<lparr>routes := filter (\<lambda>e. \<not> now - updated_at (snd e) > (case a of None \<Rightarrow> route_ttl_seconds r | Some a \<Rightarrow> a)) (routes r)\<rparr>"
  by (simp add: prune_routes_def Let_def dict_pop_all_where)

lemma make_room_form: "\<exists>es. make_room now r = r\<lparr>routes := es\<rparr>"
  by (auto simp: make_room_def prune_routes_def Let_def split: list.split intro: exI [of _ "routes r"])

text \<open>Making room keeps only entries of the table and leaves a free place.\<close>

lemma make_room_ok:
  assumes "routes_ok r"
  shows "dict_ok (routes (make_room now r))" "length (routes (make_room now r)) < max_routes r"
    "set (routes (make_room now r)) \<subseteq> set (routes r)" "max_routes (make_room now r) = max_routes r"
    "route_ttl_seconds (make_room now r) = route_ttl_seconds r"
proof -
  let ?r1 = "fst (prune_routes None now r)"
  have d: "dict_ok (routes r)" "length (routes r) \<le> max_routes r" "0 < max_routes r"
    using assms by (simp_all add: routes_ok_def)
  have r1: "dict_ok (routes ?r1)" "length (routes ?r1) \<le> max_routes r" "set (routes ?r1) \<subseteq> set (routes r)"
    "max_routes ?r1 = max_routes r"
    using le_trans [OF length_filter_le d(2)] by (auto simp: prune_routes_eq d dict_ok_filter)
  have "dict_ok (routes (make_room now r)) \<and> length (routes (make_room now r)) < max_routes r \<and>
      set (routes (make_room now r)) \<subseteq> set (routes r)"
  proof (cases "length (routes r) \<ge> max_routes r \<and> length (routes ?r1) \<ge> max_routes r")
    case True
    then obtain e es where es: "routes ?r1 = e # es" using d(3) by (cases "routes ?r1") auto
    then have m: "routes (make_room now r) = dict_pop (oldest_route e es) (routes ?r1)"
      using True r1(4) by (simp add: make_room_def Let_def)
    have "oldest_route e es \<in> fst ` set (routes ?r1)" unfolding es by (rule oldest_route_in)
    then have "Suc (length (routes (make_room now r))) = length (routes ?r1)"
      unfolding m using r1(1) by (rule length_dict_pop [rotated])
    moreover have "dict_ok (routes (make_room now r))" unfolding m using r1(1) by (rule dict_ok_pop)
    moreover have "set (routes (make_room now r)) \<subseteq> set (routes ?r1)" unfolding m by (auto simp: set_dict_pop)
    ultimately show ?thesis using r1 by auto
  next
    case False
    then have "make_room now r = (if length (routes r) \<ge> max_routes r then ?r1 else r)"
      using r1(4) by (auto simp: make_room_def Let_def)
    with False r1 d show ?thesis by auto
  qed
  then show "dict_ok (routes (make_room now r))" "length (routes (make_room now r)) < max_routes r"
    "set (routes (make_room now r)) \<subseteq> set (routes r)" by simp_all
  show "max_routes (make_room now r) = max_routes r" "route_ttl_seconds (make_room now r) = route_ttl_seconds r"
    using make_room_form [of now r] by auto
qed

lemma add_route_form: "\<exists>es. add_route d nh h now r = r\<lparr>routes := es\<rparr>"
proof -
  obtain es where "make_room now r = r\<lparr>routes := es\<rparr>" using make_room_form by blast
  then show ?thesis by (auto simp: add_route_def Let_def split: option.split)
qed

lemma add_route_ok:
  assumes "routes_ok r"
  shows "routes_ok (add_route d nh h now r)"
proof -
  note m = make_room_ok [OF assms, of now]
  have "max_routes (make_room now r) > 0" using assms m(4) by (simp add: routes_ok_def)
  then show ?thesis
    using m by (auto simp: add_route_def routes_ok_def Let_def length_dict_set split: option.split)
qed

lemma get_next_hop_ok: "routes_ok r \<Longrightarrow> routes_ok (fst (get_next_hop d now r))"
  using le_trans [OF length_dict_pop_le] by (auto simp: get_next_hop_def routes_ok_def Let_def split: option.split)

subsection \<open>What \<open>evaluate_incoming\<close> changes\<close>

lemma is_rate_limited_form: "\<exists>d. fst (is_rate_limited now k r) = r\<lparr>rate_limiter := d\<rparr>"
  by (auto simp: is_rate_limited_def split: prod.split)

lemma learn_route_form: "\<exists>es. learn_route p ingress now r = r\<lparr>routes := es\<rparr>"
proof (cases "ingress = None \<or> ingress = Some []")
  case True
  then show ?thesis by (auto simp: learn_route_def intro: exI [of _ "routes r"])
next
  case False
  then show ?thesis using add_route_form by (auto simp: learn_route_def split: option.split)
qed

lemma relay_packet_valid:
  assumes "valid_packet p"
  shows "relay_packet b u p now r =
    (if ttl p > 1 \<and> \<not> (\<not> b \<and> u) \<and> min (ttl p) (max_relay_ttl r) - 1 \<ge> 1
     then let q = p\<lparr>ttl := min (ttl p) (max_relay_ttl r) - 1\<rparr>
          in (r\<lparr>deduplicator := record_packet now q (deduplicator r)\<rparr>, Inr (Some q))
     else (r, Inr None))"
  using assms replace_ttl_valid [OF assms, of "min (ttl p) (max_relay_ttl r) - 1"]
  by (auto simp: relay_packet_def Let_def valid_packet_def)

text \<open>The checks before the routing proper.\<close>

definition screened :: "packet \<Rightarrow> real \<Rightarrow> router \<Rightarrow> bool" where
  "screened p now r \<longleftrightarrow> sender_id p \<noteq> local_peer_id r \<and>
     \<not> snd (is_rate_limited now (sender_id_hex p) r) \<and> 0 < ttl p \<and>
     \<not> snd (check_and_record now p (deduplicator r))"

definition for_all :: "packet \<Rightarrow> bool" where
  "for_all p \<longleftrightarrow> recipient_id p = None \<or> recipient_id p = Some BROADCAST_RECIPIENT"

lemma evaluate_valid:
  assumes "valid_packet p"
  obtains dec where "snd (evaluate_incoming p ingress now r) = Inr dec"
    "drop_reason dec = None \<longleftrightarrow> screened p now r"
    "\<not> screened p now r \<Longrightarrow> \<not> should_process_locally dec \<and> packet_to_relay dec = None"
    "screened p now r \<Longrightarrow>
       should_process_locally dec = (for_all p \<or> recipient_id p = Some (local_peer_id r)) \<and>
       packet_to_relay dec =
         (if 1 < min (ttl p) (max_relay_ttl r) \<and> (for_all p \<or> recipient_id p \<noteq> Some (local_peer_id r))
          then Some (p\<lparr>ttl := min (ttl p) (max_relay_ttl r) - 1\<rparr>) else None) \<and>
       exclude_ingress dec = ingress"
proof (cases "screened p now r")
  case False
  obtain d1 b where i: "is_rate_limited now (sender_id_hex p) r = (r\<lparr>rate_limiter := d1\<rparr>, b)"
    using is_rate_limited_form [of now "sender_id_hex p" r] by (metis prod.collapse)
  obtain d dup where c: "check_and_record now p (deduplicator r) = (d, dup)" by (metis prod.collapse)
  have "\<exists>reason. snd (evaluate_incoming p ingress now r) = Inr (dropped reason)"
    using False by (cases b; cases dup) (auto simp: evaluate_incoming_def screened_def i c)
  then obtain reason where "snd (evaluate_incoming p ingress now r) = Inr (dropped reason)" by blast
  with False show thesis by (intro that [of "dropped reason"]) (simp_all add: dropped_def)
next
  case True
  obtain d1 where i: "is_rate_limited now (sender_id_hex p) r = (r\<lparr>rate_limiter := d1\<rparr>, False)"
    using is_rate_limited_form [of now "sender_id_hex p" r] True unfolding screened_def by (metis (full_types) prod.collapse)
  obtain d where c: "check_and_record now p (deduplicator r) = (d, False)"
    using True unfolding screened_def by (metis (full_types) prod.collapse)
  obtain es where l: "learn_route p ingress now (r\<lparr>rate_limiter := d1, deduplicator := d\<rparr>)
      = r\<lparr>rate_limiter := d1, deduplicator := d, routes := es\<rparr>" using learn_route_form by fastforce
  have "\<exists>dec. snd (evaluate_incoming p ingress now r) = Inr dec \<and> drop_reason dec = None \<and>
       should_process_locally dec = (for_all p \<or> recipient_id p = Some (local_peer_id r)) \<and>
       packet_to_relay dec =
         (if 1 < min (ttl p) (max_relay_ttl r) \<and> (for_all p \<or> recipient_id p \<noteq> Some (local_peer_id r))
          then Some (p\<lparr>ttl := min (ttl p) (max_relay_ttl r) - 1\<rparr>) else None) \<and>
       exclude_ingress dec = ingress"
    using True unfolding evaluate_incoming_def relay_packet_valid [OF assms]
    by (cases "recipient_id p") (auto simp: i c l screened_def for_all_def Let_def)
  with True that show thesis by blast
qed

subsection \<open>The router as a rate limiter and as a remembering cache\<close>

definition rate_step :: "router \<Rightarrow> real \<times> string \<Rightarrow> router \<times> bool" where
  "rate_step r e = (case is_rate_limited (fst e) (snd e) r of (r', limited) \<Rightarrow> (r', \<not> limited))"

lemma rate_step_eq:
  "rate_step r e = (r\<lparr>rate_limiter := fst (limiter_step 1000 (rate_limit_per_peer r) (rate_limiter r) e)\<rparr>,
     snd (limiter_step 1000 (rate_limit_per_peer r) (rate_limiter r) e))"
  by (simp add: rate_step_def is_rate_limited_def limiter_step_def split: prod.split)

interpretation sender_rate: sliding_window rate_step "\<lambda>r. dict_ok (rate_limiter r)"
  "\<lambda>r. limiter_log (rate_limiter r)" 1 "\<lambda>r. nat (rate_limit_per_peer r)"
  by unfold_locales
     (simp_all add: rate_step_eq limiter.step_inv limiter.other limiter.accepted limiter.below limiter.refused
       del: One_nat_def)

definition evaluate_accept :: "router \<Rightarrow> real \<times> packet \<times> string option \<Rightarrow> router \<times> bool" where
  "evaluate_accept r e =
     (case e of (now, p, ingress) \<Rightarrow>
        (case evaluate_incoming p ingress now r of
           (r', Inl e) \<Rightarrow> (r', False)
         | (r', Inr dec) \<Rightarrow> (r', drop_reason dec = None)))"

lemma record_id_twice:
  assumes "dedup_ok d"
  shows "record_id now i (record_id now i d) = record_id now i d"
proof -
  obtain l where l: "entries (record_id now i d) = l @ [(i, now)]" "i \<notin> fst ` set l"
    unfolding record_id_eq [OF assms] by auto
  let ?d = "record_id now i d"
  have "filter (\<lambda>e. fst e \<noteq> i) l = l" using l(2) by (auto simp: filter_id_conv)
  moreover have "dict_has (entries ?d) i" by (subst dict_has_iff) (simp add: l(1))
  ultimately have "record_id now i ?d = ?d\<lparr>entries := entries ?d\<rparr>"
    unfolding record_id_eq [OF record_id_ok [OF assms], of now i now i] by (simp add: l(1))
  then show ?thesis by simp
qed

text \<open>The deduplicator after \<open>evaluate_incoming\<close>: unchanged, or offered the packet.\<close>

lemma evaluate_dedup:
  assumes "dedup_ok (deduplicator r)"
  shows "deduplicator (fst (evaluate_accept r (now, p, ingress)))
      \<in> {deduplicator r, fst (check_and_record now p (deduplicator r))}"
    and "snd (evaluate_accept r (now, p, ingress)) \<Longrightarrow>
      deduplicator (fst (evaluate_accept r (now, p, ingress))) = fst (check_and_record now p (deduplicator r)) \<and>
      \<not> snd (check_and_record now p (deduplicator r))"
proof -
  obtain d1 b where i: "is_rate_limited now (sender_id_hex p) r = (r\<lparr>rate_limiter := d1\<rparr>, b)"
    using is_rate_limited_form [of now "sender_id_hex p" r] by (metis prod.collapse)
  obtain d dup where c: "check_and_record now p (deduplicator r) = (d, dup)" by (metis prod.collapse)
  obtain es where l: "learn_route p ingress now (r\<lparr>rate_limiter := d1, deduplicator := d\<rparr>)
      = r\<lparr>rate_limiter := d1, deduplicator := d, routes := es\<rparr>" using learn_route_form by fastforce
  have twice: "record_packet now q d = d" if nd: "\<not> dup" and q: "q = p\<lparr>ttl := t\<rparr>" for q t
  proof -
    obtain d0 where "d = record_id now (compute_packet_id p) d0" "dedup_ok d0"
      using c nd dedup_ok_check [OF assms, of now "compute_packet_id p"]
      by (auto simp: check_and_record_def split: prod.splits bool.splits)
    then show ?thesis using q by (simp add: record_packet_def record_id_twice)
  qed
  have rel: "deduplicator (fst (relay_packet bb u p now (r\<lparr>rate_limiter := d1, deduplicator := d, routes := es\<rparr>))) = d"
    if "\<not> dup" for bb u
    using twice [OF that] by (auto simp: relay_packet_def replace_ttl_def Let_def split: sum.split)
  let ?acc = "evaluate_accept r (now, p, ingress)"
  have "(deduplicator (fst ?acc) = deduplicator r \<or> deduplicator (fst ?acc) = d) \<and>
      (snd ?acc \<longrightarrow> deduplicator (fst ?acc) = d \<and> \<not> dup)"
  proof (cases "sender_id p = local_peer_id r \<or> b \<or> ttl p \<le> 0 \<or> dup")
    case True
    then show ?thesis
      by (cases b; cases dup) (auto simp: evaluate_accept_def evaluate_incoming_def i c dropped_def)
  next
    case False
    then show ?thesis
      by (simp add: evaluate_accept_def evaluate_incoming_def i c l Let_def split_def rel split: sum.split)
  qed
  note res = this
  show "deduplicator (fst ?acc) \<in> {deduplicator r, fst (check_and_record now p (deduplicator r))}"
    using res by (auto simp: c)
  show "deduplicator (fst ?acc) = fst (check_and_record now p (deduplicator r)) \<and>
      \<not> snd (check_and_record now p (deduplicator r))" if "snd ?acc"
    using res that by (auto simp: c)
qed

interpretation routed: remembering_cache evaluate_accept "\<lambda>r. dedup_ok (deduplicator r)"
  "\<lambda>x. compute_packet_id (fst x)" "\<lambda>i t n r. remembered i t n (deduplicator r)"
  "\<lambda>r. nat (max_entries (deduplicator r))" "\<lambda>r. entry_ttl (deduplicator r)"
proof
  fix r :: router and e :: "real \<times> packet \<times> string option" and t t0 :: real and n :: nat
    and x :: "packet \<times> string option" and i :: string
  assume ok: "dedup_ok (deduplicator r)"
  have acc: "fst (check_and_record t' q d) = fst (dedup_accept d (t', q))"
    "snd (check_and_record t' q d) = (\<not> snd (dedup_accept d (t', q)))" for t' q d
    by (simp_all add: dedup_accept_def split: prod.split)
  note ev = evaluate_dedup [OF ok, unfolded acc]
  obtain te pe ie where e: "e = (te, pe, ie)" by (cases e)
  show "dedup_ok (deduplicator (fst (evaluate_accept r e)))"
    using ev(1) [of te pe ie] ok seen.step_inv [OF ok, of "(te, pe)"] by (auto simp: e)
  show "nat (max_entries (deduplicator (fst (evaluate_accept r e)))) = nat (max_entries (deduplicator r)) \<and>
      entry_ttl (deduplicator (fst (evaluate_accept r e))) = entry_ttl (deduplicator r)"
    using ev(1) [of te pe ie] seen.step_limits [OF ok, of "(te, pe)"] by (auto simp: e)
  obtain p ingress where x: "x = (p, ingress)" by (cases x)
  show "remembered (compute_packet_id (fst x)) t 0 (deduplicator (fst (evaluate_accept r (t, x))))"
    if "snd (evaluate_accept r (t, x))"
    using ev(2) [of t p ingress] that seen.accept_remembers [OF ok, of t p] by (simp add: x)
  show "remembered i t0 (Suc n) (deduplicator (fst (evaluate_accept r (t, x))))"
    if "remembered i t0 n (deduplicator r)" "Suc n < nat (max_entries (deduplicator r))"
      "compute_packet_id (fst x) = i \<Longrightarrow> t - t0 \<le> entry_ttl (deduplicator r)"
    using ev(1) [of t p ingress] that(1) seen.keeps [OF ok that(1,2), of p t] that(3)
    by (auto simp: x intro: remembered_mono)
  show "\<not> snd (evaluate_accept r (t, x))"
    if "remembered (compute_packet_id (fst x)) t0 n (deduplicator r)" "t - t0 \<le> entry_ttl (deduplicator r)"
    using ev(2) [of t p ingress] seen.refuses [OF ok, of p t0 n t] that by (auto simp: x)
qed

lemma add_route_router_ok:
  assumes "router_ok r"
  shows "router_ok (add_route d nh h now r)"
proof -
  obtain es where es: "add_route d nh h now r = r\<lparr>routes := es\<rparr>" using add_route_form by blast
  have "routes_ok (add_route d nh h now r)" using assms by (simp add: add_route_ok router_ok_def)
  then show ?thesis using assms unfolding es by (simp add: router_ok_def)
qed

lemma evaluate_router_ok:
  assumes "router_ok r"
  shows "router_ok (fst (evaluate_incoming p ingress now r))"
proof -
  have ok: "routes_ok r" "dict_ok (rate_limiter r)" "dedup_ok (deduplicator r)"
    using assms by (simp_all add: router_ok_def)
  obtain d1 b where i: "is_rate_limited now (sender_id_hex p) r = (r\<lparr>rate_limiter := d1\<rparr>, b)"
    using is_rate_limited_form [of now "sender_id_hex p" r] by (metis prod.collapse)
  have d1: "dict_ok d1"
  proof -
    have "rate_limiter (fst (rate_step r (now, sender_id_hex p))) = d1" by (simp add: rate_step_def i)
    with sender_rate.step_inv [OF ok(2), of "(now, sender_id_hex p)"] show ?thesis by simp
  qed
  obtain d dup where c: "check_and_record now p (deduplicator r) = (d, dup)" by (metis prod.collapse)
  have d: "dedup_ok d" using check_and_record_ok [OF ok(3), of now p] by (simp add: c)
  define r1 where "r1 = r\<lparr>rate_limiter := d1, deduplicator := d\<rparr>"
  have r1: "router_ok r1" using ok d1 d by (simp add: r1_def router_ok_def routes_ok_def)
  have r2: "router_ok (learn_route p ingress now r1)"
  proof (cases "learn_route p ingress now r1 = r1")
    case False
    then obtain src where "learn_route p ingress now r1 =
        add_route (PStr (sender_id_hex p)) (PStr src) (learned_hop_count p) now r1"
      by (auto simp: learn_route_def split: option.splits if_splits)
    with add_route_router_ok [OF r1] show ?thesis by simp
  qed (use r1 in simp)
  have "router_ok (fst (relay_packet bb uu p now r2))" if "router_ok r2" for bb uu r2
    using that record_id_ok
    by (auto simp: relay_packet_def router_ok_def routes_ok_def record_packet_def Let_def split: sum.split)
  note rel = this
  show ?thesis
  proof (cases "sender_id p = local_peer_id r \<or> b \<or> ttl p \<le> 0 \<or> dup")
    case True
    have "router_ok (r\<lparr>rate_limiter := d1\<rparr>)" using ok d1 by (simp add: router_ok_def routes_ok_def)
    with True assms r1 show ?thesis
      by (cases b; cases dup) (auto simp: evaluate_incoming_def i c r1_def)
  next
    case False
    have fst_case: "fst (case x of (r3, Inl e) \<Rightarrow> (r3, Inl e) | (r3, Inr y) \<Rightarrow> (r3, Inr (f r3 y))) = fst x"
      for x :: "router \<times> (exn + packet option)" and f :: "router \<Rightarrow> packet option \<Rightarrow> routing_decision"
      by (cases x; cases "snd x") auto
    show ?thesis
      using False rel [OF r2] by (simp add: evaluate_incoming_def i c Let_def fst_case flip: r1_def)
  qed
qed

subsection \<open>Properties\<close>

text \<open>
  What the router does with a valid packet, completely. It never raises; the packet is
  accepted exactly when it is not our own, its sender is within the rate, its TTL is positive and
  it is not a duplicate; an accepted packet is delivered iff it is for everybody or for us; it is
  relayed iff its TTL and the relay ceiling exceed 1 and it is not for us alone, and then as the
  same packet with TTL \<open>min ttl max_relay - 1\<close>, which is positive and strictly below the old one,
  and with the same identifier. A dropped packet is neither delivered nor relayed.
\<close>

theorem evaluate_incoming_spec:
  assumes "valid_packet p"
  shows "\<exists>dec. snd (evaluate_incoming p ingress now r) = Inr dec \<and>
     (drop_reason dec = None \<longleftrightarrow> sender_id p \<noteq> local_peer_id r \<and>
        \<not> snd (is_rate_limited now (sender_id_hex p) r) \<and> 0 < ttl p \<and>
        \<not> snd (check_and_record now p (deduplicator r))) \<and>
     (if drop_reason dec = None then
        should_process_locally dec = (for_all p \<or> recipient_id p = Some (local_peer_id r)) \<and>
        packet_to_relay dec =
         (if 1 < min (ttl p) (max_relay_ttl r) \<and> (for_all p \<or> recipient_id p \<noteq> Some (local_peer_id r))
          then Some (p\<lparr>ttl := min (ttl p) (max_relay_ttl r) - 1\<rparr>) else None)
      else \<not> should_process_locally dec \<and> packet_to_relay dec = None) \<and>
     (\<forall>q. packet_to_relay dec = Some q \<longrightarrow> valid_packet q \<and> 1 \<le> ttl q \<and> ttl q < ttl p \<and>
        ttl q < max_relay_ttl r \<and> compute_packet_id q = compute_packet_id p)"
proof (rule evaluate_valid [OF assms, of ingress now r])
  fix dec
  assume e: "snd (evaluate_incoming p ingress now r) = Inr dec"
    and d: "drop_reason dec = None \<longleftrightarrow> screened p now r"
    and n: "\<not> screened p now r \<Longrightarrow> \<not> should_process_locally dec \<and> packet_to_relay dec = None"
    and y: "screened p now r \<Longrightarrow>
       should_process_locally dec = (for_all p \<or> recipient_id p = Some (local_peer_id r)) \<and>
       packet_to_relay dec =
         (if 1 < min (ttl p) (max_relay_ttl r) \<and> (for_all p \<or> recipient_id p \<noteq> Some (local_peer_id r))
          then Some (p\<lparr>ttl := min (ttl p) (max_relay_ttl r) - 1\<rparr>) else None) \<and>
       exclude_ingress dec = ingress"
  have "valid_packet q \<and> 1 \<le> ttl q \<and> ttl q < ttl p \<and> ttl q < max_relay_ttl r \<and>
      compute_packet_id q = compute_packet_id p" if "packet_to_relay dec = Some q" for q
  proof -
    have "screened p now r" using n that by force
    then have "q = p\<lparr>ttl := min (ttl p) (max_relay_ttl r) - 1\<rparr>" "1 < min (ttl p) (max_relay_ttl r)"
      using y that by (auto split: if_splits)
    moreover have "ttl p < 256" using assms by (simp add: valid_packet_def)
    ultimately show ?thesis using assms by auto
  qed
  note rel = this
  have branch: "if drop_reason dec = None then
        should_process_locally dec = (for_all p \<or> recipient_id p = Some (local_peer_id r)) \<and>
        packet_to_relay dec =
         (if 1 < min (ttl p) (max_relay_ttl r) \<and> (for_all p \<or> recipient_id p \<noteq> Some (local_peer_id r))
          then Some (p\<lparr>ttl := min (ttl p) (max_relay_ttl r) - 1\<rparr>) else None)
      else \<not> should_process_locally dec \<and> packet_to_relay dec = None"
  proof (cases "screened p now r")
    case True
    with d have "drop_reason dec = None" by blast
    then show ?thesis unfolding if_P [OF \<open>drop_reason dec = None\<close>] using y [OF True] by blast
  next
    case False
    with d have "drop_reason dec \<noteq> None" by blast
    then show ?thesis unfolding if_not_P [OF \<open>drop_reason dec \<noteq> None\<close>] using n [OF False] by blast
  qed
  show ?thesis
    by (intro exI [of _ dec] conjI e d [unfolded screened_def] branch allI impI) (use rel in blast)+
qed

theorem evaluate_incoming_spec_witness:
  "\<exists>dec. snd (evaluate_incoming sample_packet None 0 (default_router [])) = Inr dec \<and>
     (drop_reason dec = None \<longleftrightarrow> sender_id sample_packet \<noteq> local_peer_id (default_router []) \<and>
        \<not> snd (is_rate_limited 0 (sender_id_hex sample_packet) (default_router [])) \<and> 0 < ttl sample_packet \<and>
        \<not> snd (check_and_record 0 sample_packet (deduplicator (default_router [])))) \<and>
     (if drop_reason dec = None then
        should_process_locally dec =
          (for_all sample_packet \<or> recipient_id sample_packet = Some (local_peer_id (default_router []))) \<and>
        packet_to_relay dec =
         (if 1 < min (ttl sample_packet) (max_relay_ttl (default_router [])) \<and>
             (for_all sample_packet \<or> recipient_id sample_packet \<noteq> Some (local_peer_id (default_router [])))
          then Some (sample_packet\<lparr>ttl := min (ttl sample_packet) (max_relay_ttl (default_router [])) - 1\<rparr>) else None)
      else \<not> should_process_locally dec \<and> packet_to_relay dec = None) \<and>
     (\<forall>q. packet_to_relay dec = Some q \<longrightarrow> valid_packet q \<and> 1 \<le> ttl q \<and> ttl q < ttl sample_packet \<and>
        ttl q < max_relay_ttl (default_router []) \<and> compute_packet_id q = compute_packet_id sample_packet)"
  by (rule evaluate_incoming_spec) simp

text \<open>
  Relaying through any routers, in any states and at any times: \<open>relayed p q n\<close> means that the
  packet \<open>p\<close> has become \<open>q\<close> after \<open>n\<close> hops.
\<close>

inductive relayed :: "packet \<Rightarrow> packet \<Rightarrow> nat \<Rightarrow> bool" where
  origin: "relayed p p 0"
| hop: "relayed p q n \<Longrightarrow> snd (evaluate_incoming q ingress now r) = Inr dec \<Longrightarrow>
     packet_to_relay dec = Some q' \<Longrightarrow> relayed p q' (Suc n)"

inductive_cases relayed_SucE: "relayed p q (Suc n)"
inductive_simps relayed_0: "relayed p q 0"

text \<open>
  C29. Flooding ends: along every chain of relays through any routers the packet stays the same
  but for its TTL, which drops by at least one per hop and stays positive, so a packet is
  relayed at most \<open>ttl - 1\<close> times (at most 254 whatever the sender wrote into the octet).
\<close>

theorem relay_chain_bounded:
  assumes "relayed p q n" and "valid_packet p"
  shows "q = p\<lparr>ttl := ttl q\<rparr> \<and> valid_packet q \<and> ttl q + int n \<le> ttl p \<and> (0 < n \<longrightarrow> 1 \<le> ttl q \<and> n \<le> 254)"
  using assms
proof (induction rule: relayed.induct)
  case (hop p q n ingress now r dec q')
  then have IH: "q = p\<lparr>ttl := ttl q\<rparr>" "valid_packet q" "ttl q + int n \<le> ttl p" by simp_all
  have less: "ttl p < 256" using hop.prems by (simp add: valid_packet_def)
  obtain t where q': "q' = q\<lparr>ttl := t\<rparr>" "1 \<le> t" "t < ttl q"
  proof (rule evaluate_valid [OF IH(2), of ingress now r])
    fix dec'
    assume "snd (evaluate_incoming q ingress now r) = Inr dec'"
      and n: "\<not> screened q now r \<Longrightarrow> \<not> should_process_locally dec' \<and> packet_to_relay dec' = None"
      and y: "screened q now r \<Longrightarrow>
       should_process_locally dec' = (for_all q \<or> recipient_id q = Some (local_peer_id r)) \<and>
       packet_to_relay dec' =
         (if 1 < min (ttl q) (max_relay_ttl r) \<and> (for_all q \<or> recipient_id q \<noteq> Some (local_peer_id r))
          then Some (q\<lparr>ttl := min (ttl q) (max_relay_ttl r) - 1\<rparr>) else None) \<and>
       exclude_ingress dec' = ingress"
    with hop.hyps(2,3) have dec: "dec' = dec" "packet_to_relay dec' = Some q'" by auto
    then have "screened q now r" using n by force
    with y dec have "q' = q\<lparr>ttl := min (ttl q) (max_relay_ttl r) - 1\<rparr>" "1 < min (ttl q) (max_relay_ttl r)"
      by (auto split: if_splits)
    then show thesis using that by force
  qed
  have "q' = p\<lparr>ttl := ttl q'\<rparr>" using IH(1) q'(1) by (cases p; cases q) simp
  moreover have "valid_packet q'" using IH(2,3) q' less by simp
  ultimately show ?case using IH q' less by auto
qed simp

lemma sample_hop: "relayed sample_packet (sample_packet\<lparr>ttl := 6\<rparr>) 1"
proof -
  have s: "screened sample_packet 0 (default_router [])"
    by (simp add: screened_def default_router_def MeshRouter_def sample_packet_def is_rate_limited_def
        limiter_check_def check_and_record_def is_id_duplicate_def default_dedup_def)
  obtain dec where e: "snd (evaluate_incoming sample_packet None 0 (default_router [])) = Inr dec"
    and "packet_to_relay dec = (if 1 < min (ttl sample_packet) (max_relay_ttl (default_router [])) \<and>
        (for_all sample_packet \<or> recipient_id sample_packet \<noteq> Some (local_peer_id (default_router [])))
      then Some (sample_packet\<lparr>ttl := min (ttl sample_packet) (max_relay_ttl (default_router [])) - 1\<rparr>) else None)"
    using evaluate_valid [OF valid_sample, of None 0 "default_router []"] s by metis
  then have "packet_to_relay dec = Some (sample_packet\<lparr>ttl := 6\<rparr>)"
    by (simp add: default_router_def MeshRouter_def sample_packet_def for_all_def)
  from hop [OF origin e this] show ?thesis by simp
qed

theorem relay_chain_bounded_witness:
  "valid_packet (sample_packet\<lparr>ttl := 6\<rparr>) \<and> ttl (sample_packet\<lparr>ttl := 6\<rparr>) + int 1 \<le> ttl sample_packet \<and>
   1 \<le> ttl (sample_packet\<lparr>ttl := 6\<rparr>)"
  using relay_chain_bounded [OF sample_hop valid_sample] by simp

text \<open>
  C27. No packet is accepted twice: of any packets offered to a router, at most as many as its
  deduplicator has room for and within the deduplicator's lifetime of one another, the accepted
  ones (those delivered or relayed) have pairwise different identifiers, whatever their TTLs
  and the links they came in by.
\<close>

theorem router_accepts_once:
  assumes "router_ok r" and "int (length es) \<le> max_entries (deduplicator r)"
    and "\<forall>e \<in> set es. \<forall>e' \<in> set es. fst e' - fst e \<le> entry_ttl (deduplicator r)"
  shows "distinct (map (\<lambda>e. compute_packet_id (fst (snd e)))
     (answered es (snd (run evaluate_accept r es))))"
proof -
  have "distinct (map ((\<lambda>x. compute_packet_id (fst x)) \<circ> snd) (answered es (snd (run evaluate_accept r es))))"
  proof (rule routed.accepted_at_most_once)
    show "dedup_ok (deduplicator r)" using assms(1) by (simp add: router_ok_def)
    show "length es \<le> nat (max_entries (deduplicator r))" using assms(2) by linarith
  qed (use assms(3) in blast)
  then show ?thesis by (simp add: comp_def)
qed

theorem router_accepts_once_witness:
  "distinct (map (\<lambda>e. compute_packet_id (fst (snd e)))
     (answered [(0 :: real, sample_packet, Some ''a''), (1, sample_packet\<lparr>ttl := 6\<rparr>, None)]
       (snd (run evaluate_accept (default_router [])
          [(0, sample_packet, Some ''a''), (1, sample_packet\<lparr>ttl := 6\<rparr>, None)]))))"
  by (rule router_accepts_once)
     (simp_all add: default_router_def MeshRouter_def default_dedup_def router_ok_def routes_ok_def dedup_ok_def)

text \<open>
  Rate limit: whatever the order of the senders, as long as the clock does not go back, at
  most \<open>rate_limit_per_peer\<close> packets of one sender pass within any second, the pruning of the
  table included.
\<close>

theorem sender_rate_bounded:
  assumes "router_ok r" and "rate_limiter r = []" and "sorted (map fst es)" and "1 \<le> rate_limit_per_peer r"
  shows "int (length (filter (\<lambda>t. t0 \<le> t \<and> t \<le> t0 + 1)
     (map fst (filter (\<lambda>e. snd e = k) (answered es (snd (run rate_step r es))))))) \<le> rate_limit_per_peer r"
proof -
  have "length (filter (\<lambda>t. t0 \<le> t \<and> t \<le> t0 + 1) (sender_rate.times k es (snd (run rate_step r es))))
      \<le> max 1 (nat (rate_limit_per_peer r))"
    by (rule sender_rate.window_bound) (use assms in \<open>simp_all add: router_ok_def limiter_log_def\<close>)
  then show ?thesis using assms(4) by (simp add: sender_rate.times_def)
qed

theorem sender_rate_bounded_witness:
  "int (length (filter (\<lambda>t. 0 \<le> t \<and> t \<le> 0 + 1)
     (map fst (filter (\<lambda>e. snd e = ''a'') (answered [(0 :: real, ''a''), (1, ''a'')]
       (snd (run rate_step (default_router []) [(0, ''a''), (1, ''a'')]))))))) \<le> rate_limit_per_peer (default_router [])"
  by (rule sender_rate_bounded)
     (simp_all add: default_router_def MeshRouter_def router_ok_def routes_ok_def)



text \<open>
  A deduplicator handed to the constructor of the router is discarded when it is empty, as a
  new one always is: \<open>deduplicator or PacketDeduplicator()\<close> tests its length. The router then uses
  the default capacity and lifetime instead of the configured ones.
\<close>

theorem fresh_deduplicator_ignored:
  assumes "PacketDeduplicator me t = Inr d"
  shows "deduplicator (MeshRouter lpid (Some d) sf mt jn jx rl) = default_dedup"
  using assms by (auto simp: PacketDeduplicator_def MeshRouter_def dedup_len_def split: if_splits)

theorem fresh_deduplicator_ignored_witness:
  "PacketDeduplicator 10 5 = Inr \<lparr>max_entries = 10, entry_ttl = 5, entries = []\<rparr> \<and>
   deduplicator (MeshRouter [] (Some \<lparr>max_entries = 10, entry_ttl = 5, entries = []\<rparr>) None 10 0 0 50) = default_dedup"
proof
  show d: "PacketDeduplicator 10 5 = Inr \<lparr>max_entries = 10, entry_ttl = 5, entries = []\<rparr>"
    by (simp add: PacketDeduplicator_def)
  show "deduplicator (MeshRouter [] (Some \<lparr>max_entries = 10, entry_ttl = 5, entries = []\<rparr>) None 10 0 0 50) = default_dedup"
    by (rule fresh_deduplicator_ignored [OF d])
qed

end
