(* ===== verification/Framing.thy ===== *)
theory Framing
  imports Codec
begin

text \<open>
  \<open>network/framing.py\<close> and \<open>network/connection.py\<close>: the length-prefixed frames of the TCP stream,
  the incremental framer, and a connection's read loop, send and close. One iteration of the
  read loop is one step; what \<open>reader.read\<close>, \<open>writer.drain\<close> and the callbacks do comes from
  outside. The state keeps what the callbacks were given and what was written to the socket.
\<close>

subsection \<open>Frames\<close>

definition FRAME_MAGIC :: bytes where "FRAME_MAGIC = [0x42, 0x43, 0x01, 0x00]"
definition HEADER_SIZE :: nat where [simp]: "HEADER_SIZE = 8"
definition MAX_FRAME_SIZE :: nat where [simp]: "MAX_FRAME_SIZE = 65536"

definition encode_frame :: "bytes \<Rightarrow> exn + bytes" where
  "encode_frame pl =
     (if length pl > MAX_FRAME_SIZE then Inl FramingError
      else Inr (FRAME_MAGIC @ be_bytes 4 (int (length pl)) @ pl))"

record framer =
  max_frame_size :: nat
  buffer :: bytes

definition StreamFramer :: "nat \<Rightarrow> framer" where
  "StreamFramer mfs = \<lparr>max_frame_size = mfs, buffer = []\<rparr>"

text \<open>The \<open>while\<close> loop of \<open>feed\<close> over the buffer, with the frames found so far.\<close>

function feed_loop :: "nat \<Rightarrow> bytes \<Rightarrow> bytes list \<Rightarrow> bytes \<times> (exn + bytes list)" where
  "feed_loop mfs buf frames =
     (if length buf < HEADER_SIZE then (buf, Inr frames)
      else if take 4 buf \<noteq> FRAME_MAGIC then (buf, Inl FramingError)
      else let payload_length = nat (be_int (py_slice 4 8 buf)) in
        if payload_length > mfs then (buf, Inl FramingError)
        else let total_frame_len = HEADER_SIZE + payload_length in
          if length buf < total_frame_len then (buf, Inr frames)
          else feed_loop mfs (drop total_frame_len buf)
                 (frames @ [py_slice HEADER_SIZE total_frame_len buf]))"
  by pat_completeness auto
termination
  by (relation "measure (\<lambda>(mfs, buf, frames). length buf)") auto

declare feed_loop.simps [simp del]

definition feed :: "framer \<Rightarrow> bytes \<Rightarrow> framer \<times> (exn + bytes list)" where
  "feed f chunk =
     (let (buf, res) = feed_loop (max_frame_size f) (buffer f @ chunk) []
      in (f\<lparr>buffer := buf\<rparr>, res))"

definition framer_clear :: "framer \<Rightarrow> framer" where
  "framer_clear f = f\<lparr>buffer := []\<rparr>"

definition buffered_bytes :: "framer \<Rightarrow> nat" where
  "buffered_bytes f = length (buffer f)"

subsection \<open>Connections\<close>

datatype read_result = ReadBytes bytes | ReadTimeout | ReadFailed

record connection =
  peer_address :: string
  is_inbound :: bool
  is_connected :: bool
  is_ready :: bool
  has_streams :: bool
  conn_framer :: framer
  received :: "packet list"
  written :: "bytes list"
  disconnects :: nat

definition LANConnection :: "string \<Rightarrow> bool \<Rightarrow> bool \<Rightarrow> connection" where
  "LANConnection addr streams inbound =
     \<lparr>peer_address = addr, is_inbound = inbound, is_connected = streams, is_ready = streams,
      has_streams = streams, conn_framer = StreamFramer MAX_FRAME_SIZE, received = [], written = [],
      disconnects = 0\<rparr>"

definition conn_is_ready :: "connection \<Rightarrow> bool" where
  "conn_is_ready c = (is_ready c \<and> is_connected c)"

text \<open>\<open>connect\<close>; \<open>opened\<close> tells whether \<open>asyncio.open_connection\<close> succeeded in time. The parse
  of \<open>host:port\<close> is the argument \<open>port_ok\<close>.\<close>

definition conn_connect :: "bool \<Rightarrow> exn option \<Rightarrow> connection \<Rightarrow> connection \<times> (exn + unit)" where
  "conn_connect port_ok opened c =
     (if is_connected c then (c, Inr ())
      else if \<not> port_ok then (c, Inl ValueError)
      else case opened of
        None \<Rightarrow> (c\<lparr>has_streams := True, is_connected := True, is_ready := True\<rparr>, Inr ())
      | Some e \<Rightarrow> (c\<lparr>is_connected := False, is_ready := False\<rparr>, Inl e))"

definition conn_close :: "connection \<Rightarrow> connection" where
  "conn_close c =
     (if \<not> is_connected c then c
      else c\<lparr>is_connected := False, is_ready := False, conn_framer := framer_clear (conn_framer c),
             has_streams := False, disconnects := disconnects c + 1\<rparr>)"

text \<open>The loop over the payloads of one chunk: a payload that does not decode is skipped.\<close>

fun deliver :: "bytes list \<Rightarrow> packet list" where
  "deliver [] = []"
| "deliver (raw # raws) =
     (case decode_packet raw of Inl e \<Rightarrow> deliver raws | Inr p \<Rightarrow> p # deliver raws)"

text \<open>One iteration of \<open>_read_loop\<close>; every \<open>break\<close> ends in \<open>close\<close>.\<close>

definition read_iteration :: "connection \<Rightarrow> read_result \<Rightarrow> connection" where
  "read_iteration c res =
     (if \<not> (is_connected c \<and> has_streams c) then conn_close c
      else case res of
        ReadTimeout \<Rightarrow> conn_close c
      | ReadFailed \<Rightarrow> conn_close c
      | ReadBytes chunk \<Rightarrow>
          if chunk = [] then conn_close c
          else case feed (conn_framer c) chunk of
            (f, Inl e) \<Rightarrow> conn_close (c\<lparr>conn_framer := f\<rparr>)
          | (f, Inr payloads) \<Rightarrow>
              c\<lparr>conn_framer := f, received := received c @ deliver payloads\<rparr>)"

text \<open>\<open>send_packet\<close>; \<open>drained\<close> is the exception of \<open>writer.drain()\<close>, if any. Without padding the
  encoder does not ask the random source.\<close>

definition send_packet ::
  "(nat \<Rightarrow> bytes) \<Rightarrow> exn option \<Rightarrow> packet \<Rightarrow> connection \<Rightarrow> connection \<times> (exn + unit)" where
  "send_packet urandom drained p c =
     (if \<not> conn_is_ready c \<or> \<not> has_streams c then (c, Inl ConnectionError)
      else case encode_packet urandom p False of
        Inl e \<Rightarrow> (conn_close c, Inl e)
      | Inr encoded \<Rightarrow>
          (case encode_frame encoded of
             Inl e \<Rightarrow> (conn_close c, Inl e)
           | Inr frame \<Rightarrow>
               let c' = c\<lparr>written := written c @ [frame]\<rparr> in
               (case drained of
                  None \<Rightarrow> (c', Inr ())
                | Some e \<Rightarrow> (conn_close c', Inl e))))"

subsection \<open>Lemmas on frames\<close>

definition frame_of :: "bytes \<Rightarrow> bytes" where
  "frame_of pl = FRAME_MAGIC @ be_bytes 4 (int (length pl)) @ pl"

lemma encode_frame_eq: "encode_frame pl = (if length pl \<le> 65536 then Inr (frame_of pl) else Inl FramingError)"
  by (simp add: encode_frame_def frame_of_def)

lemma length_magic [simp]: "length FRAME_MAGIC = 4"
  by (simp add: FRAME_MAGIC_def)

lemma length_frame_of [simp]: "length (frame_of pl) = 8 + length pl"
  by (simp add: frame_of_def)

lemma be_int_4: "n \<le> 65536 \<Longrightarrow> be_int (be_bytes 4 (int n)) = int n"
  by (rule be_int_be_bytes) simp_all

text \<open>The loop on a whole frame, and on a proper prefix of one.\<close>

lemma feed_loop_frame:
  assumes "length pl \<le> mfs" "length pl \<le> 65536"
  shows "feed_loop mfs (frame_of pl @ rest) frames = feed_loop mfs rest (frames @ [pl])"
proof -
  have "take 4 (frame_of pl @ rest) = FRAME_MAGIC" by (simp add: frame_of_def)
  moreover have "py_slice 4 8 (frame_of pl @ rest) = be_bytes 4 (int (length pl))"
    by (simp add: frame_of_def py_slice_def)
  moreover have "py_slice 8 (8 + length pl) (frame_of pl @ rest) = pl"
    by (simp add: frame_of_def py_slice_def)
  ultimately show ?thesis
    using assms by (subst feed_loop.simps) (simp add: Let_def be_int_4)
qed

lemma feed_loop_prefix:
  assumes "length pl \<le> mfs" "length pl \<le> 65536" "frame_of pl = buf @ later" "later \<noteq> []"
  shows "feed_loop mfs buf frames = (buf, Inr frames)"
proof (cases "length buf < 8")
  case False
  have len: "length buf < 8 + length pl" using assms(3,4) length_frame_of [of pl]
    by (metis length_append length_greater_0_conv less_add_same_cancel1)
  have "take 8 buf = take 8 (frame_of pl)" using False by (simp add: assms(3))
  also have "\<dots> = FRAME_MAGIC @ be_bytes 4 (int (length pl))" by (simp add: frame_of_def)
  finally have t8: "take 8 buf = FRAME_MAGIC @ be_bytes 4 (int (length pl))" .
  have "take 4 (take 8 buf) = FRAME_MAGIC" "drop 4 (take 8 buf) = be_bytes 4 (int (length pl))"
    unfolding t8 by simp_all
  then have "take 4 buf = FRAME_MAGIC" "py_slice 4 8 buf = be_bytes 4 (int (length pl))"
    by (simp_all add: py_slice_def drop_take)
  then show ?thesis
    using False len assms(1,2) by (subst feed_loop.simps) (simp add: Let_def be_int_4)
qed (subst feed_loop.simps, simp)

text \<open>
  The whole stream: whatever prefix of a sequence of frames is in the buffer, the loop returns
  the complete ones and leaves the rest, and the two together are the stream again.
\<close>

lemma feed_loop_stream:
  assumes "\<forall>pl \<in> set pls. length pl \<le> mfs \<and> length pl \<le> 65536"
    and "buf @ later = concat (map frame_of pls)"
  shows "\<exists>whole rest. pls = whole @ rest \<and> (\<exists>b. feed_loop mfs buf frames = (b, Inr (frames @ whole)) \<and>
     b @ later = concat (map frame_of rest) \<and> (later = [] \<longrightarrow> b = [] \<and> rest = []))"
  using assms
proof (induction pls arbitrary: buf frames)
  case Nil
  then have "buf = []" "later = []" by simp_all
  then show ?case by (intro exI [of _ "[]"]) (simp add: feed_loop.simps)
next
  case (Cons pl pls)
  have pl: "length pl \<le> mfs" "length pl \<le> 65536" using Cons.prems(1) by simp_all
  have eq: "buf @ later = frame_of pl @ concat (map frame_of pls)" using Cons.prems(2) by simp
  show ?case
  proof (cases "length (frame_of pl) \<le> length buf")
    case True
    define buf' where "buf' = drop (length (frame_of pl)) buf"
    have "take (length (frame_of pl)) buf = frame_of pl"
      using arg_cong [OF eq, of "take (length (frame_of pl))"] True by simp
    then have buf: "buf = frame_of pl @ buf'" unfolding buf'_def by (metis append_take_drop_id)
    then have buf2: "buf' @ later = concat (map frame_of pls)" using eq by simp
    have "\<forall>pl \<in> set pls. length pl \<le> mfs \<and> length pl \<le> 65536" using Cons.prems(1) by simp
    from Cons.IH [OF this buf2, of "frames @ [pl]"] obtain whole rest b where
      "pls = whole @ rest" "feed_loop mfs buf' (frames @ [pl]) = (b, Inr ((frames @ [pl]) @ whole))"
      "b @ later = concat (map frame_of rest)" "later = [] \<longrightarrow> b = [] \<and> rest = []" by blast
    then show ?thesis
      unfolding buf feed_loop_frame [OF pl]
      by (intro exI [of _ "pl # whole"] exI [of _ rest]) simp
  next
    case False
    define m where "m = drop (length buf) (frame_of pl)"
    have "buf = take (length buf) (frame_of pl)"
      using arg_cong [OF eq, of "take (length buf)"] False by simp
    then have m1: "frame_of pl = buf @ m" unfolding m_def by (metis append_take_drop_id)
    then have m: "frame_of pl = buf @ m" "later = m @ concat (map frame_of pls)" using eq by simp_all
    then have ne: "m \<noteq> []" using False by auto
    from feed_loop_prefix [OF pl m(1) ne] m ne show ?thesis
      by (intro exI [of _ "[]"] exI [of _ "pl # pls"] conjI exI [of _ buf]) auto
  qed
qed

subsection \<open>Feeding a stream\<close>

fun feeds :: "framer \<Rightarrow> bytes list \<Rightarrow> framer \<times> (exn + bytes list)" where
  "feeds f [] = (f, Inr [])"
| "feeds f (c # cs) =
     (case feed f c of
        (f', Inl e) \<Rightarrow> (f', Inl e)
      | (f', Inr pls) \<Rightarrow> (case feeds f' cs of
                          (f'', Inl e) \<Rightarrow> (f'', Inl e)
                        | (f'', Inr pls') \<Rightarrow> (f'', Inr (pls @ pls'))))"

lemma feed_stream:
  assumes "\<forall>pl \<in> set pls. length pl \<le> max_frame_size f \<and> length pl \<le> 65536"
    and "buffer f @ c @ later = concat (map frame_of pls)"
  shows "\<exists>whole rest b. pls = whole @ rest \<and> feed f c = (f\<lparr>buffer := b\<rparr>, Inr whole) \<and>
     b @ later = concat (map frame_of rest) \<and> (later = [] \<longrightarrow> b = [] \<and> rest = [])"
  using feed_loop_stream [of pls "max_frame_size f" "buffer f @ c" later "[]"] assms
  by (fastforce simp: feed_def)

lemma feeds_stream:
  assumes "\<forall>pl \<in> set pls. length pl \<le> max_frame_size f \<and> length pl \<le> 65536"
    and "buffer f @ concat cs = concat (map frame_of pls)" "buffer f = [] \<or> cs \<noteq> []"
  shows "feeds f cs = (f\<lparr>buffer := []\<rparr>, Inr pls)"
  using assms
proof (induction cs arbitrary: f pls)
  case Nil
  then have "pls = []" by (cases pls) (auto simp: frame_of_def FRAME_MAGIC_def)
  with Nil show ?case by (cases f) simp
next
  case (Cons c cs)
  from feed_stream [OF Cons.prems(1), of c "concat cs"] Cons.prems(2) obtain whole rest b where
    w: "pls = whole @ rest" "feed f c = (f\<lparr>buffer := b\<rparr>, Inr whole)"
      "b @ concat cs = concat (map frame_of rest)" "concat cs = [] \<longrightarrow> b = [] \<and> rest = []"
    by auto
  have "feeds (f\<lparr>buffer := b\<rparr>) cs = (f\<lparr>buffer := b\<rparr>\<lparr>buffer := []\<rparr>, Inr rest)"
    using Cons.prems(1) w(1,3,4) by (intro Cons.IH) (cases cs; auto)+
  then show ?case using w(1,2) by simp
qed

text \<open>What a successful \<open>feed\<close> did to the octets it had.\<close>

lemma feed_loop_sound:
  assumes "feed_loop mfs buf frames = (b, Inr res)" "mfs < 256 ^ 4"
  shows "\<exists>new. res = frames @ new \<and> buf = concat (map frame_of new) @ b \<and> length b < 8 + mfs + 1 \<and>
     (\<forall>pl \<in> set new. length pl \<le> mfs)"
  using assms
proof (induction mfs buf frames rule: feed_loop.induct)
  case (1 mfs buf frames)
  let ?n = "nat (be_int (py_slice 4 8 buf))"
  consider "length buf < 8" "(b, Inr res) = (buf, Inr frames :: exn + bytes list)"
    | "8 \<le> length buf" "?n \<le> mfs" "length buf < 8 + ?n" "(b, Inr res) = (buf, Inr frames :: exn + bytes list)"
    | (full) "8 \<le> length buf" "take 4 buf = FRAME_MAGIC" "?n \<le> mfs" "8 + ?n \<le> length buf"
      "feed_loop mfs (drop (8 + ?n) buf) (frames @ [py_slice 8 (8 + ?n) buf]) = (b, Inr res)"
    using 1(2) by (subst (asm) feed_loop.simps) (auto simp: Let_def split: if_splits)
  then show ?case
  proof cases
    case full
    let ?pl = "py_slice 8 (8 + ?n) buf"
    obtain new where new: "res = (frames @ [?pl]) @ new" "drop (8 + ?n) buf = concat (map frame_of new) @ b"
      "length b < 8 + mfs + 1" "\<forall>pl \<in> set new. length pl \<le> mfs"
      using 1(1) [OF _ _ refl _ refl] full 1(3) by fastforce
    have len: "length ?pl = ?n" using full(4) by simp
    have "int ?n = be_int (py_slice 4 8 buf)" by (simp add: be_int_range)
    then have "be_bytes 4 (int (length ?pl)) = py_slice 4 8 buf"
      unfolding len using full(1) by (simp only:) (rule be_bytes_be_int, simp)
    then have "frame_of ?pl = take 4 buf @ py_slice 4 8 buf @ ?pl" using full(2) by (simp add: frame_of_def)
    then have "frame_of ?pl @ drop (8 + ?n) buf = buf"
      using slice_drop [of 4 8 buf] slice_drop [of 8 "8 + ?n" buf] by simp
    then show ?thesis using new len full(3) by (intro exI [of _ "?pl # new"]) auto
  qed auto
qed

subsection \<open>Properties\<close>

text \<open>
  Framing is independent of how TCP cuts the stream: if the payloads fit the limit, feeding
  the concatenation of their frames in any chunks whatever (partial headers, many frames at once)
  never fails and yields exactly the payloads in order, with nothing left in the buffer.
\<close>

theorem framing_chunk_independent:
  assumes "\<forall>pl \<in> set pls. length pl \<le> MAX_FRAME_SIZE"
    and "map encode_frame pls = map Inr frames" and "concat chunks = concat frames"
  shows "feeds (StreamFramer MAX_FRAME_SIZE) chunks = (StreamFramer MAX_FRAME_SIZE, Inr pls)"
proof -
  have "map (Inr \<circ> frame_of) pls = (map Inr frames :: (exn + bytes) list)"
    using assms(1) unfolding assms(2) [symmetric] by (simp add: encode_frame_eq)
  then have "map frame_of pls = frames" by (metis list.inj_map_strong map_map sum.inject(2))
  then have "feeds (StreamFramer MAX_FRAME_SIZE) chunks =
      ((StreamFramer MAX_FRAME_SIZE)\<lparr>buffer := []\<rparr>, Inr pls)"
    using assms by (intro feeds_stream) (simp_all add: StreamFramer_def)
  then show ?thesis by (simp add: StreamFramer_def)
qed

theorem framing_chunk_independent_witness:
  "feeds (StreamFramer MAX_FRAME_SIZE) (map (\<lambda>b. [b]) (frame_of [1, 2] @ frame_of []))
     = (StreamFramer MAX_FRAME_SIZE, Inr [[1, 2], []])"
  by (rule framing_chunk_independent [of _ "[frame_of [1, 2], frame_of []]"])
     (simp_all add: encode_frame_eq concat_map_singleton)

text \<open>
  Bounds and exactness of \<open>feed\<close>: when it succeeds, the frames it returned followed by the
  new buffer are exactly the octets it was given, every frame respects the size limit, and the
  buffer holds less than one maximal frame. A peer cannot make it grow without bound.
\<close>

theorem feed_exact_and_bounded:
  assumes "feed f chunk = (f', Inr pls)" and "max_frame_size f < 2 ^ 32"
  shows "buffer f @ chunk = concat (map frame_of pls) @ buffer f' \<and>
     buffered_bytes f' \<le> HEADER_SIZE + max_frame_size f \<and> (\<forall>pl \<in> set pls. length pl \<le> max_frame_size f)"
proof -
  have "feed_loop (max_frame_size f) (buffer f @ chunk) [] = (buffer f', Inr pls)"
    using assms(1) by (auto simp: feed_def split: prod.splits)
  from feed_loop_sound [OF this] assms(2) show ?thesis by (simp add: buffered_bytes_def)
qed

lemma feed_empty: "feed (StreamFramer 10) [0x42] = (\<lparr>max_frame_size = 10, buffer = [0x42]\<rparr>, Inr [])"
  by (simp add: feed_def StreamFramer_def feed_loop.simps)

theorem feed_exact_and_bounded_witness:
  "buffer (StreamFramer 10) @ [0x42] = buffer \<lparr>max_frame_size = 10, buffer = [0x42]\<rparr> \<and>
     buffered_bytes \<lparr>max_frame_size = 10, buffer = [0x42]\<rparr> \<le> HEADER_SIZE + max_frame_size (StreamFramer 10)"
  using feed_exact_and_bounded [OF feed_empty] by (simp add: StreamFramer_def)

subsection \<open>Sending and receiving packets\<close>

definition send_all :: "(nat \<Rightarrow> bytes) \<Rightarrow> packet list \<Rightarrow> connection \<Rightarrow> connection" where
  "send_all urandom ps c = fold (\<lambda>p c. fst (send_packet urandom None p c)) ps c"

definition read_all :: "bytes list \<Rightarrow> connection \<Rightarrow> connection" where
  "read_all chunks c = fold (\<lambda>chunk c. read_iteration c (ReadBytes chunk)) chunks c"

definition open_conn :: "connection \<Rightarrow> bool" where
  "open_conn c \<longleftrightarrow> is_connected c \<and> is_ready c \<and> has_streams c"

lemma send_packet_open:
  assumes "open_conn c" "valid_packet p" "length (wire p) \<le> 65536"
  shows "send_packet urandom None p c = (c\<lparr>written := written c @ [frame_of (wire p)]\<rparr>, Inr ())"
  using assms by (simp add: send_packet_def open_conn_def conn_is_ready_def encode_unpadded encode_frame_eq)

lemma send_all_open:
  assumes "open_conn c" "\<forall>p \<in> set ps. valid_packet p \<and> length (wire p) \<le> 65536"
  shows "send_all urandom ps c = c\<lparr>written := written c @ map (frame_of \<circ> wire) ps\<rparr>"
  using assms
proof (induction ps arbitrary: c)
  case (Cons p ps)
  let ?c = "c\<lparr>written := written c @ [frame_of (wire p)]\<rparr>"
  have "send_all urandom (p # ps) c = send_all urandom ps ?c"
    using Cons.prems by (simp add: send_all_def send_packet_open)
  moreover have "open_conn ?c" using Cons.prems(1) by (simp add: open_conn_def)
  ultimately show ?case using Cons.IH [of ?c] Cons.prems(2) by simp
qed (simp add: send_all_def)

lemma deliver_all: "map decode_packet ws = map Inr ps \<Longrightarrow> deliver ws = ps"
  by (induction ws arbitrary: ps) (auto simp: Cons_eq_map_conv split: sum.split)

lemma deliver_append: "deliver (xs @ ys) = deliver xs @ deliver ys"
  by (induction xs) (auto split: sum.split)

text \<open>Reading chunks is feeding them, as long as the framer does not fail.\<close>

lemma read_all_feeds:
  assumes "open_conn c" "\<forall>chunk \<in> set chunks. chunk \<noteq> []" "feeds (conn_framer c) chunks = (f, Inr pls)"
  shows "read_all chunks c = c\<lparr>conn_framer := f, received := received c @ deliver pls\<rparr>"
  using assms
proof (induction chunks arbitrary: c pls)
  case (Cons chunk chunks)
  obtain f1 p1 p2 where f: "feed (conn_framer c) chunk = (f1, Inr p1)" "feeds f1 chunks = (f, Inr p2)"
    "pls = p1 @ p2" using Cons.prems(3) by (auto split: prod.splits sum.splits)
  let ?c = "c\<lparr>conn_framer := f1, received := received c @ deliver p1\<rparr>"
  have "read_all (chunk # chunks) c = read_all chunks ?c"
    using Cons.prems f(1) by (simp add: read_all_def read_iteration_def open_conn_def)
  moreover have "open_conn ?c" using Cons.prems(1) by (simp add: open_conn_def)
  ultimately show ?case using Cons.IH [of ?c p2] Cons.prems(2) f by (simp add: deliver_append)
qed (simp add: read_all_def)

text \<open>
  C28. End to end over TCP: packets that fit a frame, sent one after the other on an open
  connection, are delivered to the receiver's callback as exactly the same packets in the same
  order, however the octets written are cut into the chunks the receiver reads; the connection
  stays open and its buffer ends empty.
\<close>

theorem lan_delivery:
  assumes "open_conn a" and "open_conn b" and "conn_framer b = StreamFramer MAX_FRAME_SIZE"
    and "\<forall>p \<in> set ps. valid_packet p \<and> version p = 1 \<and> length (wire p) \<le> MAX_FRAME_SIZE"
    and "\<forall>chunk \<in> set chunks. chunk \<noteq> []"
    and "concat chunks = concat (drop (length (written a)) (written (send_all urandom ps a)))"
  shows "read_all chunks b = b\<lparr>received := received b @ ps\<rparr>"
proof -
  have good: "\<forall>p \<in> set ps. valid_packet p \<and> version p = 1" using assms(4) by blast
  obtain ws where ws: "map (\<lambda>p. encode_packet urandom p False) ps = map Inr ws" "map decode_packet ws = map Inr ps"
    using plain.encode_list [OF good, of urandom] by blast
  have "map (Inr \<circ> wire) ps = (map Inr ws :: (exn + bytes) list)"
    using good unfolding ws(1) [symmetric] by (simp add: encode_unpadded)
  then have w: "map wire ps = ws" by (metis list.inj_map_strong map_map sum.inject(2))
  have "concat chunks = concat (map frame_of ws)"
    using assms(1,4,6) by (simp add: send_all_open flip: w)
  moreover have "\<forall>pl \<in> set ws. length pl \<le> 65536" using assms(4) by (auto simp flip: w)
  ultimately have "feeds (conn_framer b) chunks = ((conn_framer b)\<lparr>buffer := []\<rparr>, Inr ws)"
    unfolding assms(3) by (intro feeds_stream) (simp_all add: StreamFramer_def)
  moreover have "(conn_framer b)\<lparr>buffer := []\<rparr> = conn_framer b" by (simp add: assms(3) StreamFramer_def)
  ultimately show ?thesis
    using read_all_feeds [OF assms(2,5)] deliver_all [OF ws(2)] by simp
qed

theorem lan_delivery_witness:
  "read_all (map (\<lambda>b. [b]) (frame_of (wire sample_packet))) (LANConnection ''b'' True True)
     = (LANConnection ''b'' True True)\<lparr>received := received (LANConnection ''b'' True True) @ [sample_packet]\<rparr>"
proof (rule lan_delivery [of "LANConnection ''a'' True False" _ _ _ zeros])
  have l: "length (wire sample_packet) \<le> 65536"
    unfolding length_wire [OF valid_sample]
    by (simp add: expected_unpadded_size_def sample_packet_def has_recipient_def has_signature_def)
  then show "\<forall>p \<in> set [sample_packet]. valid_packet p \<and> version p = 1 \<and> length (wire p) \<le> MAX_FRAME_SIZE" by simp
  have "open_conn (LANConnection ''a'' True False)" by (simp add: open_conn_def LANConnection_def)
  with l show "concat (map (\<lambda>b. [b]) (frame_of (wire sample_packet))) =
      concat (drop (length (written (LANConnection ''a'' True False)))
        (written (send_all zeros [sample_packet] (LANConnection ''a'' True False))))"
    by (simp add: send_all_open concat_map_singleton)
qed (simp_all add: open_conn_def LANConnection_def)

text \<open>
  A valid packet whose unpadded wire form is longer than a frame (a payload near the 65535
  octets its length field allows) cannot be sent over the LAN, and trying to send it closes the
  connection, although every other packet could still use it.
\<close>

theorem oversized_packet_closes_connection:
  assumes "open_conn c" and "valid_packet p" and "MAX_FRAME_SIZE < length (wire p)"
  shows "snd (send_packet urandom drained p c) = Inl FramingError \<and>
    \<not> is_connected (fst (send_packet urandom drained p c)) \<and>
    disconnects (fst (send_packet urandom drained p c)) = disconnects c + 1"
  using assms
  by (simp add: send_packet_def open_conn_def conn_is_ready_def encode_unpadded encode_frame_eq conn_close_def)

definition huge_packet :: packet where
  "huge_packet = sample_packet\<lparr>payload := replicate 65535 0\<rparr>"

lemma huge_valid: "valid_packet huge_packet" "65536 < length (wire huge_packet)"
proof -
  show v: "valid_packet huge_packet"
    by (simp add: valid_packet_def huge_packet_def sample_packet_def has_recipient_def has_signature_def)
  show "65536 < length (wire huge_packet)"
    unfolding length_wire [OF v]
    by (simp add: expected_unpadded_size_def huge_packet_def sample_packet_def has_recipient_def has_signature_def)
qed

theorem oversized_packet_closes_connection_witness:
  "snd (send_packet zeros None huge_packet (LANConnection ''a'' True False)) = Inl FramingError \<and>
    \<not> is_connected (fst (send_packet zeros None huge_packet (LANConnection ''a'' True False))) \<and>
    disconnects (fst (send_packet zeros None huge_packet (LANConnection ''a'' True False)))
      = disconnects (LANConnection ''a'' True False) + 1"
  by (rule oversized_packet_closes_connection) (simp_all add: huge_valid, simp add: open_conn_def LANConnection_def)

text \<open>
  Frames that were complete are lost when a malformed frame follows them in the same chunk:
  the framer raises and the read loop closes the connection without delivering them, while the
  same octets in two chunks would have delivered them first.
\<close>

theorem malformed_frame_discards_complete_ones:
  assumes "open_conn c" and "conn_framer c = StreamFramer MAX_FRAME_SIZE" and "length pl \<le> MAX_FRAME_SIZE"
    and "8 \<le> length bad" and "take 4 bad \<noteq> FRAME_MAGIC"
  shows "received (read_iteration c (ReadBytes (frame_of pl @ bad))) = received c \<and>
    \<not> is_connected (read_iteration c (ReadBytes (frame_of pl @ bad))) \<and>
    received (read_all [frame_of pl, bad] c) = received c @ deliver [pl]"
proof -
  have bad: "feed_loop 65536 bad frames = (bad, Inl FramingError)" for frames
    using assms(4,5) by (subst feed_loop.simps) simp
  have ne: "frame_of pl \<noteq> []" "bad \<noteq> []" using assms(4) by (auto simp: frame_of_def FRAME_MAGIC_def)
  have one: "feed_loop 65536 (frame_of pl) [] = ([], Inr [pl])"
    using feed_loop_frame [of pl 65536 "[]" "[]"] assms(3) by (simp add: feed_loop.simps)
  have "feed_loop 65536 (frame_of pl @ bad) [] = (bad, Inl FramingError)"
    using feed_loop_frame [of pl 65536 bad "[]"] assms(3) bad by simp
  then show ?thesis
    using assms(1,2) ne bad [of "[]"] one
    by (simp add: read_all_def read_iteration_def open_conn_def feed_def StreamFramer_def conn_close_def)
qed

theorem malformed_frame_discards_complete_ones_witness:
  "received (read_iteration (LANConnection ''a'' True True) (ReadBytes (frame_of [1] @ [0, 0, 0, 0, 0, 0, 0, 0])))
      = received (LANConnection ''a'' True True) \<and>
    \<not> is_connected (read_iteration (LANConnection ''a'' True True) (ReadBytes (frame_of [1] @ [0, 0, 0, 0, 0, 0, 0, 0]))) \<and>
    received (read_all [frame_of [1], [0, 0, 0, 0, 0, 0, 0, 0]] (LANConnection ''a'' True True))
      = received (LANConnection ''a'' True True) @ deliver [[1]]"
  by (rule malformed_frame_discards_complete_ones)
     (simp_all add: open_conn_def LANConnection_def FRAME_MAGIC_def)

end
