(* ===== verification/Commands.thy ===== *)
theory Commands
  imports Errors Py_Str
begin

text \<open>
  The command line of \<open>commands/parser.py\<close>: the registry of slash commands, its completion, and the
  parser, branch by branch in the order of the source.
\<close>

datatype CommandType =
    INITIALIZE_CHAT | HELP | EXIT | CONNECT | DISCONNECT | SCAN | ONLINE | NAME | DM | LARGE | CLEAR
  | SETTINGS | EDIT | STATUS | INFO | PUBLIC | TRANSPORT | CONFIGURE | EMPTY | UNKNOWN

datatype command_spec = CommandSpec
  (spec_name: string) (spec_usage: string) (spec_description: string) (spec_category: string)
  (spec_arg_type: "string option")

definition COMMAND_REGISTRY :: "command_spec list" where
  "COMMAND_REGISTRY =
    [CommandSpec ''/connect'' ''/connect <address>'' ''Connect to a peer BLE address'' ''Network'' (Some ''peer_address''),
     CommandSpec ''/disconnect'' ''/disconnect [address]'' ''Disconnect from peer or all'' ''Network'' (Some ''peer_address''),
     CommandSpec ''/scan'' ''/scan'' ''Scan for nearby BitChat peers'' ''Network'' None,
     CommandSpec ''/online'' ''/online'' ''List connected and known peers'' ''Network'' None,
     CommandSpec ''/peers'' ''/peers'' ''Inspect connected and nearby peers'' ''Network'' None,
     CommandSpec ''/dm'' ''/dm <peer> <message>'' ''Send encrypted direct message'' ''Chat'' (Some ''peer_id''),
     CommandSpec ''/public'' ''/public'' ''Switch active conversation to #public'' ''Chat'' None,
     CommandSpec ''/transport'' ''/transport [bluetooth|lan]'' ''Switch active transport medium (bluetooth or lan)'' ''Network'' (Some ''transport_medium''),
     CommandSpec ''/info'' ''/info <peer>'' ''View peer fingerprint and crypto state'' ''Security'' (Some ''peer_id''),
     CommandSpec ''/name'' ''/name <nickname>'' ''Set local nickname and announce'' ''Identity'' (Some ''nickname''),
     CommandSpec ''/settings'' ''/settings'' ''Open settings and node configuration'' ''System'' None,
     CommandSpec ''/edit'' ''/edit'' ''Open appearance & theme editor'' ''UI'' None,
     CommandSpec ''/status'' ''/status'' ''Show network & security diagnostics'' ''System'' None,
     CommandSpec ''/large'' ''/large <peer>'' ''Send 1000B test fragmented message'' ''Debug'' (Some ''peer_id''),
     CommandSpec ''/clear'' ''/clear'' ''Clear chat history'' ''System'' None,
     CommandSpec ''/help'' ''/help'' ''Show help and command list'' ''System'' None,
     CommandSpec ''/exit'' ''/exit'' ''Exit BitChat'' ''System'' None]"

definition CONFIGURE_SPEC :: command_spec where
  "CONFIGURE_SPEC = CommandSpec ''/configure'' ''/configure'' ''Run system configuration and hardware diagnostics'' ''System'' None"

definition get_command_suggestions :: "string \<Rightarrow> command_spec list" where
  "get_command_suggestions text =
     (let norm = py_lower (py_strip text) in
      if \<not> py_startswith norm ''/'' then []
      else if norm = ''/'' then COMMAND_REGISTRY
      else let results = filter (\<lambda>spec. py_startswith (py_lower (spec_name spec)) norm) COMMAND_REGISTRY in
        if py_startswith norm ''/conf'' \<and> CONFIGURE_SPEC \<notin> set results then results @ [CONFIGURE_SPEC] else results)"

definition is_slash_command :: "string \<Rightarrow> bool" where
  "is_slash_command text = py_startswith (py_strip text) ''/''"

record command =
  cm_type :: CommandType
  cm_raw :: string
  cm_args :: "string list"
  cm_error :: "string option"

definition Command :: "CommandType \<Rightarrow> string \<Rightarrow> string list \<Rightarrow> command" where
  "Command t raw as = \<lparr>cm_type = t, cm_raw = raw, cm_args = as, cm_error = None\<rparr>"

definition Command_error :: "CommandType \<Rightarrow> string \<Rightarrow> string list \<Rightarrow> string \<Rightarrow> command" where
  "Command_error t raw as e = \<lparr>cm_type = t, cm_raw = raw, cm_args = as, cm_error = Some e\<rparr>"

text \<open>The shorthand \<open>@peer message\<close>.\<close>

definition parse_mention :: "string \<Rightarrow> string \<Rightarrow> command" where
  "parse_mention text stripped =
     (let parts = py_split_max 1 stripped; target = py_strip (drop 1 (parts ! 0)) in
      if target = [] then Command_error DM text [] ''Usage: @<peer> <message>''
      else if length parts < 2 \<or> py_strip (parts ! 1) = []
      then Command_error DM text [target] (''Usage: @'' @ target @ '' <message>'')
      else Command DM text [target, py_strip (parts ! 1)])"

definition parse_tokens :: "string \<Rightarrow> string \<Rightarrow> command" where
  "parse_tokens text stripped =
     (let tokens = py_split stripped; normalized = map py_lower tokens in
      if length normalized \<ge> 2 \<and> take 2 normalized = [''initialize'', ''chat''] then Command INITIALIZE_CHAT text (drop 2 tokens)
      else let first = normalized ! 0 in
      if first \<in> {''help'', ''?'', ''/help'', ''/?''} then Command HELP text (drop 1 tokens)
      else if first \<in> {''exit'', ''quit'', ''/exit'', ''/quit''} then Command EXIT text (drop 1 tokens)
      else if first \<in> {''connect'', ''/connect''}
      then (if length tokens < 2 \<or> py_strip (tokens ! 1) = [] then Command_error CONNECT text [] ''Usage: /connect <peer_address_or_id>''
            else Command CONNECT text [py_strip (tokens ! 1)])
      else if first \<in> {''disconnect'', ''/disconnect''}
      then (let target = (if length tokens > 1 then tokens ! 1 else []) in Command DISCONNECT text (if target \<noteq> [] then [target] else []))
      else if first \<in> {''scan'', ''/scan''} then Command SCAN text (drop 1 tokens)
      else if first \<in> {''online'', ''/online'', ''peers'', ''/peers'', ''nodes'', ''/nodes''} then Command ONLINE text (drop 1 tokens)
      else if first \<in> {''name'', ''/name'', ''nick'', ''/nick''}
      then (if length tokens < 2 then Command_error NAME text [] ''Usage: /name <nickname>'' else Command NAME text [tokens ! 1])
      else if first \<in> {''dm'', ''/dm'', ''msg'', ''/msg''}
      then (if length tokens < 3 then Command_error DM text [] ''Usage: /dm <peer> <message>''
            else let parts = py_split_max 2 stripped in Command DM text [parts ! 1, parts ! 2])
      else if first \<in> {''info'', ''/info'', ''peer'', ''/peer''}
      then (if length tokens < 2 then Command_error INFO text [] ''Usage: /info <peer>'' else Command INFO text [tokens ! 1])
      else if first \<in> {''configure'', ''/configure'', ''diagnostics'', ''/diagnostics''} then Command CONFIGURE text (drop 1 tokens)
      else if first \<in> {''settings'', ''/settings'', ''config'', ''/config''} then Command SETTINGS text (drop 1 tokens)
      else if first \<in> {''edit'', ''/edit'', ''theme'', ''/theme'', ''appearance'', ''/appearance''} then Command EDIT text (drop 1 tokens)
      else if first \<in> {''status'', ''/status'', ''diag'', ''/diag''} then Command STATUS text (drop 1 tokens)
      else if first \<in> {''public'', ''/public'', ''channel'', ''/channel''} then Command PUBLIC text (drop 1 tokens)
      else if first \<in> {''transport'', ''/transport'', ''medium'', ''/medium''} then Command TRANSPORT text (drop 1 tokens)
      else if first \<in> {''large'', ''/large''}
      then (if length tokens < 2 then Command_error LARGE text [] ''Usage: /large <peer>'' else Command LARGE text [tokens ! 1])
      else if first \<in> {''clear'', ''/clear''} then Command CLEAR text (drop 1 tokens)
      else Command_error UNKNOWN text tokens (''Unknown command: '' @ [CHR 0x27] @ stripped @ [CHR 0x27] @ ''. Type '' @ [CHR 0x27] @ ''help'' @ [CHR 0x27] @ '' for available commands.''))"

definition parse :: "bool \<Rightarrow> bool option \<Rightarrow> string \<Rightarrow> command" where
  "parse self_slash_only slash_only text =
     (let stripped = py_strip text in
      if stripped = [] then Command EMPTY text []
      else if py_startswith stripped ''@'' then parse_mention text stripped
      else if (case slash_only of None \<Rightarrow> self_slash_only | Some b \<Rightarrow> b) \<and> \<not> py_startswith stripped ''/''
      then Command_error UNKNOWN text (py_split stripped)
             (''Unknown command: '' @ [CHR 0x27] @ stripped @ [CHR 0x27] @ ''. Slash commands must begin with '' @ [CHR 0x27] @ ''/'' @ [CHR 0x27] @ ''.'')
      else parse_tokens text stripped)"


subsection \<open>Words\<close>

lemma py_split_none: "dropWhile py_isspace s = [] \<Longrightarrow> py_split s = []"
  by (subst py_split.simps) (simp only: Let_def if_True refl)

lemma py_split_some: "dropWhile py_isspace s \<noteq> [] \<Longrightarrow> py_split s =
    takeWhile (\<lambda>c. \<not> py_isspace c) (dropWhile py_isspace s) #
    py_split (dropWhile (\<lambda>c. \<not> py_isspace c) (dropWhile py_isspace s))"
  by (subst py_split.simps) (simp only: Let_def if_False)

lemma takeWhile_first_word:
  assumes "dropWhile py_isspace s \<noteq> []"
  shows "takeWhile (\<lambda>c. \<not> py_isspace c) (dropWhile py_isspace s) \<noteq> []"
  using assms hd_dropWhile [of py_isspace s] by (cases "dropWhile py_isspace s") auto

lemma py_split_words: "w \<in> set (py_split s) \<Longrightarrow> w \<noteq> [] \<and> (\<forall>c \<in> set w. \<not> py_isspace c)"
proof (induction s rule: py_split.induct)
  case (1 s)
  show ?case
  proof (cases "dropWhile py_isspace s = []")
    case True
    with 1(2) show ?thesis by (simp only: py_split_none list.set empty_iff)
  next
    case False
    from 1(2) have "w = takeWhile (\<lambda>c. \<not> py_isspace c) (dropWhile py_isspace s) \<or>
        w \<in> set (py_split (dropWhile (\<lambda>c. \<not> py_isspace c) (dropWhile py_isspace s)))"
      unfolding py_split_some [OF False] by (simp only: list.set insert_iff)
    then show ?thesis
    proof
      assume w: "w = takeWhile (\<lambda>c. \<not> py_isspace c) (dropWhile py_isspace s)"
      then show ?thesis using takeWhile_first_word [OF False] set_takeWhileD by metis
    qed (rule 1(1) [OF refl False])
  qed
qed

lemma length_py_split_max: "length (py_split_max n s) = min (Suc n) (length (py_split s))"
proof (induction n arbitrary: s)
  case 0
  show ?case
    by (cases "dropWhile py_isspace s = []") (simp_all only: py_split_none py_split_max.simps Let_def if_True if_False, simp_all add: py_split_some)
next
  case (Suc n)
  show ?case
    by (cases "dropWhile py_isspace s = []")
       (simp_all only: py_split_none py_split_some py_split_max.simps Let_def if_True if_False list.size Suc, simp_all add: py_split_some)
qed

lemma py_split_max_nonempty: "w \<in> set (py_split_max n s) \<Longrightarrow> w \<noteq> []"
proof (induction n arbitrary: s)
  case 0
  then show ?case by (auto simp: Let_def split: if_splits)
next
  case (Suc n)
  then show ?case using takeWhile_first_word [of s] by (auto simp: Let_def split: if_splits)
qed

lemma py_strip_Nil: "py_strip s = [] \<longleftrightarrow> dropWhile py_isspace s = []"
proof
  assume "py_strip s = []"
  then have "\<forall>c \<in> set (dropWhile py_isspace s). py_isspace c" by (simp only: py_strip_def rev_is_Nil_conv dropWhile_eq_Nil_conv set_rev)
  then show "dropWhile py_isspace s = []" using hd_dropWhile [of py_isspace s] by (metis hd_in_set)
qed (simp only: py_strip_def, simp)

lemma py_strip_idem: "dropWhile py_isspace (py_strip s) = py_strip s"
proof (cases "py_strip s")
  case (Cons c cs)
  then have ne: "dropWhile py_isspace s \<noteq> []" using py_strip_Nil [of s] by auto
  obtain ws where "dropWhile py_isspace s = py_strip s @ ws"
    unfolding py_strip_def by (metis append_Nil2 rev_append rev_rev_ident takeWhile_dropWhile_id)
  with Cons hd_dropWhile [OF ne] have "\<not> py_isspace c" by simp
  with Cons show ?thesis by simp
qed simp

subsection \<open>What the parser returns\<close>

definition well_formed :: "command \<Rightarrow> bool" where
  "well_formed c \<longleftrightarrow>
     (case cm_error c of
        Some _ \<Rightarrow> cm_type c \<in> {DM, CONNECT, NAME, INFO, LARGE, UNKNOWN}
      | None \<Rightarrow>
          if cm_type c = DM then length (cm_args c) = 2 \<and> [] \<notin> set (cm_args c)
          else if cm_type c \<in> {CONNECT, NAME, INFO, LARGE} then length (cm_args c) = 1 \<and> [] \<notin> set (cm_args c)
          else cm_type c \<noteq> UNKNOWN)"

lemma py_strip_word: "w \<in> set (py_split s) \<Longrightarrow> py_strip w = w"
  using py_split_words [of w s] by (intro py_strip_no_space) auto

definition parsed :: "string \<Rightarrow> command \<Rightarrow> bool" where
  "parsed text c \<longleftrightarrow> well_formed c \<and> cm_raw c = text \<and> cm_type c \<noteq> EMPTY"

lemma parsed_if: "(b \<Longrightarrow> parsed text x) \<Longrightarrow> (\<not> b \<Longrightarrow> parsed text y) \<Longrightarrow> parsed text (if b then x else y)"
  by simp

lemma parsed_plain: "t \<notin> {DM, CONNECT, NAME, INFO, LARGE, UNKNOWN, EMPTY} \<Longrightarrow> parsed text (Command t text as)"
  by (simp add: parsed_def well_formed_def Command_def)

lemma parsed_one: "t \<in> {CONNECT, NAME, INFO, LARGE} \<Longrightarrow> a \<noteq> [] \<Longrightarrow> parsed text (Command t text [a])"
  by (auto simp: parsed_def well_formed_def Command_def)

lemma parsed_two: "a \<noteq> [] \<Longrightarrow> b \<noteq> [] \<Longrightarrow> parsed text (Command DM text [a, b])"
  by (simp add: parsed_def well_formed_def Command_def)

lemma parsed_error: "t \<in> {DM, CONNECT, NAME, INFO, LARGE, UNKNOWN} \<Longrightarrow> parsed text (Command_error t text as e)"
  by (auto simp: parsed_def well_formed_def Command_error_def)

lemma parse_mention_ok: "parsed text (parse_mention text stripped)"
  unfolding parse_mention_def Let_def by (intro parsed_if parsed_error parsed_two) simp_all

lemma parse_mention_type: "cm_type (parse_mention text stripped) = DM"
  unfolding parse_mention_def Let_def Command_def Command_error_def by (split if_split)+ (simp only: command.simps simp_thms)

lemma parse_tokens_ok: "parsed text (parse_tokens text stripped)"
proof -
  have word: "py_split stripped ! 1 \<noteq> []" if "\<not> length (py_split stripped) < 2"
    using py_split_words [OF nth_mem, of 1 stripped] that by simp
  have part: "py_split_max 2 stripped ! i \<noteq> []" if "\<not> length (py_split stripped) < 3" "i < 3" for i
    by (rule py_split_max_nonempty [OF nth_mem]) (use that in \<open>simp add: length_py_split_max\<close>)
  show ?thesis
    unfolding parse_tokens_def Let_def
    by (intro parsed_if; (rule parsed_error parsed_plain, simp; fail)?; (rule parsed_one, simp, erule word; fail)?;
        (rule parsed_one, simp, blast)?; (rule parsed_two; rule part, assumption, simp))
qed



lemma py_split_word_rest:
  assumes "w \<noteq> []" "\<forall>c \<in> set w. \<not> py_isspace c" "rest = [] \<or> py_isspace (hd rest)"
  shows "dropWhile py_isspace (w @ rest) = w @ rest" "takeWhile (\<lambda>c. \<not> py_isspace c) (w @ rest) = w"
    "dropWhile (\<lambda>c. \<not> py_isspace c) (w @ rest) = rest"
  using assms by (cases w; cases rest; auto simp: takeWhile_append dropWhile_append)+

lemma py_split_first:
  assumes "w \<noteq> []" "\<forall>c \<in> set w. \<not> py_isspace c" "rest = [] \<or> py_isspace (hd rest)"
  shows "py_split (w @ rest) = w # py_split rest" "py_split_max (Suc n) (w @ rest) = w # py_split_max n rest"
proof -
  note parts = py_split_word_rest [OF assms]
  have ne: "w @ rest \<noteq> []" using assms(1) by simp
  have "dropWhile py_isspace (w @ rest) \<noteq> []" using parts(1) ne by simp
  from py_split_some [OF this] show "py_split (w @ rest) = w # py_split rest" by (simp only: parts)
  show "py_split_max (Suc n) (w @ rest) = w # py_split_max n rest"
    by (simp only: py_split_max.simps Let_def parts ne if_False)
qed

lemma py_split_space: "py_isspace c \<Longrightarrow> py_split (c # s) = py_split s"
  by (cases "dropWhile py_isspace s = []") (simp_all add: py_split_none py_split_some)

lemma py_split_max_space: "py_isspace c \<Longrightarrow> py_split_max n (c # s) = py_split_max n s"
  by (cases n) simp_all

text \<open>
  A direct message arrives as it was typed: \<open>/dm peer text\<close> parses to the peer and the whole
  text, inner spaces included, whenever the peer is one word and the text does not begin or end
  with a space.
\<close>
theorem dm_roundtrip:
  assumes "peer \<noteq> []" "\<forall>c \<in> set peer. \<not> py_isspace c"
    and "msg \<noteq> []" "\<not> py_isspace (hd msg)" "\<not> py_isspace (last msg)"
    and "text = ''/dm '' @ peer @ '' '' @ msg"
  shows "parse self_slash_only slash_only text = Command DM text [peer, msg]"
proof -
  have sp: "py_isspace CHR '' ''" "\<not> py_isspace CHR ''/''" "\<forall>c \<in> set ''/dm''. \<not> py_isspace c" by code_simp+
  have "rev text = rev msg @ rev (''/dm '' @ peer @ '' '')" using assms(6) by simp
  then have "dropWhile py_isspace (rev text) = rev text"
    using assms(3,5) by (cases msg rule: rev_cases) auto
  then have strip: "py_strip text = text" using sp(2) assms(6) by (simp add: py_strip_def)
  have dm: "text = ''/dm'' @ ('' '' @ peer @ '' '' @ msg)" using assms(6) by simp
  have msg: "dropWhile py_isspace msg = msg" using assms(3,4) by (cases msg) auto
  have peer: "py_split (peer @ '' '' @ msg) = peer # py_split ('' '' @ msg)"
    "py_split_max (Suc 0) (peer @ '' '' @ msg) = peer # py_split_max 0 ('' '' @ msg)"
    using assms(1,2) sp(1) by (intro py_split_first; simp)+
  have msg1: "py_split msg \<noteq> []" "py_split_max 0 msg = [msg]" using assms(3) msg by (simp_all add: py_split_some)
  have gap: "py_split ('' '' @ t) = py_split t" "py_split_max n ('' '' @ t) = py_split_max n t" for n t
    using py_split_space [OF sp(1)] py_split_max_space [OF sp(1)] by simp_all
  have first: "py_split (''/dm'' @ '' '' @ t) = ''/dm'' # py_split ('' '' @ t)"
    "py_split_max (Suc n) (''/dm'' @ '' '' @ t) = ''/dm'' # py_split_max n ('' '' @ t)" for n t
    using sp by (intro py_split_first; simp)+
  have tokens: "py_split text = ''/dm'' # peer # py_split msg"
    unfolding dm first peer gap ..
  have parts: "py_split_max 2 text = [''/dm'', peer, msg]"
    unfolding dm numeral_2_eq_2 first gap peer msg1 ..
  have three: "\<not> length (''/dm'' # peer # py_split msg) < 3" using msg1(1) by (cases "py_split msg") simp_all
  have low: "py_lower ''/dm'' = ''/dm''" by code_simp
  have "parse_tokens text text = Command DM text [peer, msg]"
    using three unfolding parse_tokens_def tokens parts by (simp add: Let_def low)
  moreover have "text \<noteq> []" "\<not> py_startswith text ''@''" "py_startswith text ''/''"
    unfolding dm by (simp_all add: py_startswith_def)
  ultimately show ?thesis by (simp add: parse_def strip)
qed


lemma dm_roundtrip_witness:
  "parse True None ''/dm bob see  you'' = Command DM ''/dm bob see  you'' [''bob'', ''see  you'']"
proof -
  have "\<not> py_isspace CHR ''b''" "\<not> py_isspace CHR ''o''" "\<not> py_isspace CHR ''s''" "\<not> py_isspace CHR ''u''" by code_simp+
  then show ?thesis by (intro dm_roundtrip) simp_all
qed

end
