(* ===== verification/Primitives.thy ===== *)
theory Primitives
  imports Errors Py_Str Sha256
begin

text \<open>
  The wrappers of \<open>crypto/x25519.py\<close>, \<open>crypto/ed25519.py\<close>, \<open>crypto/aes_gcm.py\<close>,
  \<open>crypto/hkdf.py\<close>, \<open>crypto/pbkdf2.py\<close> and the identity of \<open>crypto/identity.py\<close>. The
  \<open>cryptography\<close> package is not part of the repository: its operations are the fields of a record
  \<open>crypto_lib\<close>, an argument of every definition that calls it, and its documented behaviour is the
  predicates \<open>x25519_laws\<close>, \<open>ed25519_laws\<close> and \<open>aead_laws\<close>. SHA-256 and HMAC come from the
  standard library and are computed.
\<close>

subsection \<open>The cryptography package\<close>

record crypto_lib =
  lib_x25519_public :: "bytes \<Rightarrow> exn + bytes"
  lib_x25519_load :: "bytes \<Rightarrow> exn + unit"
  lib_x25519_exchange :: "bytes \<Rightarrow> bytes \<Rightarrow> exn + bytes"
  lib_ed25519_public :: "bytes \<Rightarrow> exn + bytes"
  lib_ed25519_load :: "bytes \<Rightarrow> exn + unit"
  lib_ed25519_sign :: "bytes \<Rightarrow> bytes \<Rightarrow> exn + bytes"
  lib_ed25519_verify :: "bytes \<Rightarrow> bytes \<Rightarrow> bytes \<Rightarrow> exn + unit"
  lib_chacha_encrypt :: "bytes \<Rightarrow> bytes \<Rightarrow> bytes \<Rightarrow> bytes \<Rightarrow> exn + bytes"
  lib_chacha_decrypt :: "bytes \<Rightarrow> bytes \<Rightarrow> bytes \<Rightarrow> bytes \<Rightarrow> exn + bytes"
  lib_aesgcm_encrypt :: "bytes \<Rightarrow> bytes \<Rightarrow> bytes \<Rightarrow> exn + bytes"
  lib_aesgcm_decrypt :: "bytes \<Rightarrow> bytes \<Rightarrow> bytes \<Rightarrow> exn + bytes"
  lib_hkdf :: "bytes \<Rightarrow> bytes \<Rightarrow> bytes \<Rightarrow> nat \<Rightarrow> exn + bytes"
  lib_pbkdf2 :: "bytes \<Rightarrow> bytes \<Rightarrow> nat \<Rightarrow> nat \<Rightarrow> exn + bytes"

text \<open>Keys of 32 octets load; the exchange of two key pairs commutes, errors included.\<close>

definition x25519_laws :: "crypto_lib \<Rightarrow> bool" where
  "x25519_laws lib \<longleftrightarrow>
     (\<forall>k. length k = 32 \<longrightarrow> (\<exists>K. lib_x25519_public lib k = Inr K \<and> length K = 32)) \<and>
     (\<forall>K. length K = 32 \<longrightarrow> lib_x25519_load lib K = Inr ()) \<and>
     (\<forall>a A b B. lib_x25519_public lib a = Inr A \<longrightarrow> lib_x25519_public lib b = Inr B \<longrightarrow>
        lib_x25519_exchange lib a B = lib_x25519_exchange lib b A) \<and>
     (\<forall>a B s. lib_x25519_exchange lib a B = Inr s \<longrightarrow> length s = 32)"

text \<open>Signatures have 64 octets and verify under the public key of their signing key.\<close>

definition ed25519_laws :: "crypto_lib \<Rightarrow> bool" where
  "ed25519_laws lib \<longleftrightarrow>
     (\<forall>k. length k = 32 \<longrightarrow> (\<exists>K. lib_ed25519_public lib k = Inr K \<and> length K = 32 \<and> lib_ed25519_load lib K = Inr ())) \<and>
     (\<forall>k K d. lib_ed25519_public lib k = Inr K \<longrightarrow>
        (\<exists>sig. lib_ed25519_sign lib k d = Inr sig \<and> length sig = 64 \<and> lib_ed25519_verify lib K sig d = Inr ()))"

text \<open>
  An AEAD with a 16-octet tag, on data below its documented limit of \<open>2 ^ 31 - 1\<close> octets: what
  decrypts is exactly what was encrypted under the same key, nonce and associated data.
\<close>

definition aead_laws :: "(bytes \<Rightarrow> bytes \<Rightarrow> bytes \<Rightarrow> bytes \<Rightarrow> exn + bytes) \<Rightarrow> (bytes \<Rightarrow> bytes \<Rightarrow> bytes \<Rightarrow> bytes \<Rightarrow> exn + bytes) \<Rightarrow> bool" where
  "aead_laws enc dec \<longleftrightarrow>
     (\<forall>k n p a. length k = 32 \<longrightarrow> length n = 12 \<longrightarrow> length p < 2 ^ 31 \<longrightarrow> length a < 2 ^ 31 \<longrightarrow>
        (\<exists>c. enc k n p a = Inr c \<and> length c = length p + 16)) \<and>
     (\<forall>k n p a c. enc k n p a = Inr c \<longleftrightarrow> dec k n c a = Inr p)"

text \<open>An instance with the documented behaviour, for the examples.\<close>

definition sample_seal :: "bytes \<Rightarrow> bytes \<Rightarrow> bytes \<Rightarrow> bytes \<Rightarrow> exn + bytes" where
  "sample_seal k n p a = Inr (p @ replicate 16 0)"

definition sample_open :: "bytes \<Rightarrow> bytes \<Rightarrow> bytes \<Rightarrow> bytes \<Rightarrow> exn + bytes" where
  "sample_open k n c a =
     (if 16 \<le> length c \<and> drop (length c - 16) c = replicate 16 0 then Inr (take (length c - 16) c) else Inl InvalidTag)"

definition sample_lib :: crypto_lib where
  "sample_lib = \<lparr>lib_x25519_public = (\<lambda>k. if length k = 32 then Inr k else Inl ValueError),
     lib_x25519_load = (\<lambda>K. if length K = 32 then Inr () else Inl ValueError),
     lib_x25519_exchange = (\<lambda>a B. if length a = 32 \<and> length B = 32 then Inr (map2 (\<lambda>x y. x + y) a B) else Inl ValueError),
     lib_ed25519_public = (\<lambda>k. if length k = 32 then Inr k else Inl ValueError),
     lib_ed25519_load = (\<lambda>K. Inr ()),
     lib_ed25519_sign = (\<lambda>k d. if length k = 32 then Inr (k @ sha256 (k @ d)) else Inl ValueError),
     lib_ed25519_verify = (\<lambda>K sig d. if sig = K @ sha256 (K @ d) then Inr () else Inl InvalidSignature),
     lib_chacha_encrypt = sample_seal, lib_chacha_decrypt = sample_open,
     lib_aesgcm_encrypt = (\<lambda>k n p. sample_seal k n p []), lib_aesgcm_decrypt = (\<lambda>k n c. sample_open k n c []),
     lib_hkdf = (\<lambda>ikm salt info len. Inr (take len (hmac_sha256 salt (ikm @ info)))),
     lib_pbkdf2 = (\<lambda>pw salt n len. Inr (take len (hmac_sha256 pw salt)))\<rparr>"

lemma sample_aead: "aead_laws sample_seal sample_open"
proof -
  have "sample_seal k n p a = Inr c \<longleftrightarrow> sample_open k n c a = Inr p" for k n p a c
  proof
    assume "sample_open k n c a = Inr p"
    then have "drop (length c - 16) c = replicate 16 0" "p = take (length c - 16) c"
      by (auto simp: sample_open_def split: if_splits)
    then show "sample_seal k n p a = Inr c"
      unfolding sample_seal_def using append_take_drop_id [of "length c - 16" c] by simp
  qed (auto simp: sample_seal_def sample_open_def)
  then show ?thesis by (simp add: aead_laws_def) (simp add: sample_seal_def)
qed

lemma map2_plus_commute: "map2 (\<lambda>x y :: byte. x + y) a b = map2 (\<lambda>x y. x + y) b a"
  by (induction a b rule: list_induct2') (simp_all add: add.commute)

lemma sample_x25519: "x25519_laws sample_lib"
  by (auto simp: x25519_laws_def sample_lib_def map2_plus_commute split: if_splits)

lemma sample_ed25519: "ed25519_laws sample_lib"
  by (auto simp: ed25519_laws_def sample_lib_def split: if_splits)

lemma sample_chacha: "aead_laws (lib_chacha_encrypt sample_lib) (lib_chacha_decrypt sample_lib)"
  using sample_aead by (simp add: sample_lib_def)


subsection \<open>X25519\<close>

definition X25519_KEY_SIZE :: nat where "X25519_KEY_SIZE = 32"
definition X25519_SHARED_SECRET_SIZE :: nat where "X25519_SHARED_SECRET_SIZE = 32"

definition low_order_points :: "bytes list" where
  "low_order_points =
    [replicate 32 0,
     [1] @ replicate 30 0 @ [1],
     replicate 31 0 @ [1],
     [0xE0, 0xEB, 0x7A, 0x7C, 0x3B, 0x41, 0xB8, 0xAE, 0x16, 0x56, 0xE3, 0xFA, 0xF1, 0x9F, 0xC4, 0x6A,
      0xDA, 0x09, 0x8D, 0xEB, 0x9C, 0x32, 0xB1, 0xFD, 0x86, 0x62, 0x05, 0x16, 0x5F, 0x49, 0xB8, 0x00],
     [0x5F, 0x9C, 0x95, 0xBC, 0xA3, 0x50, 0x8C, 0x24, 0xB1, 0xD0, 0xB1, 0x55, 0x9C, 0x83, 0xEF, 0x5B,
      0x04, 0x44, 0x5C, 0xC4, 0x58, 0x1C, 0x8E, 0x86, 0xD8, 0x22, 0x4E, 0xDD, 0xD0, 0x9F, 0x11, 0x57],
     replicate 32 0xFF,
     [0xDA] @ replicate 31 0xFF,
     [0xDB] @ replicate 31 0xFF]"

definition validate_private_key_input :: "bytes \<Rightarrow> exn + unit" where
  "validate_private_key_input k = (if length k \<noteq> X25519_KEY_SIZE then Inl InvalidKeyError else Inr ())"

definition x25519_public_key_from_private :: "crypto_lib \<Rightarrow> bytes \<Rightarrow> exn + bytes" where
  "x25519_public_key_from_private lib k =
     (case validate_private_key_input k of
        Inl e \<Rightarrow> Inl e
      | Inr _ \<Rightarrow> except_as [ValueError, TypeError] InvalidKeyError (lib_x25519_public lib k))"

definition validate_public_key :: "crypto_lib \<Rightarrow> bytes \<Rightarrow> exn + bytes" where
  "validate_public_key lib K =
     (if length K \<noteq> X25519_KEY_SIZE then Inl InvalidKeyError
      else if K \<in> set low_order_points then Inl InvalidKeyError
      else case except_as [ValueError, TypeError] InvalidKeyError (lib_x25519_load lib K) of
             Inl e \<Rightarrow> Inl e
           | Inr _ \<Rightarrow> Inr K)"

text \<open>\<open>except InvalidKeyError: raise\<close> comes first, then \<open>ValueError\<close> and \<open>TypeError\<close> are wrapped.\<close>

definition diffie_hellman :: "crypto_lib \<Rightarrow> bytes \<Rightarrow> bytes \<Rightarrow> exn + bytes" where
  "diffie_hellman lib k K =
     (case validate_private_key_input k of
        Inl e \<Rightarrow> Inl e
      | Inr _ \<Rightarrow>
          case validate_public_key lib K of
            Inl e \<Rightarrow> Inl e
          | Inr remote \<Rightarrow>
              case except_as [ValueError, TypeError] KeyExchangeError (lib_x25519_exchange lib k remote) of
                Inl e \<Rightarrow> Inl e
              | Inr shared \<Rightarrow>
                  if length shared \<noteq> X25519_SHARED_SECRET_SIZE then Inl KeyExchangeError else Inr shared)"

lemma length_validated: "validate_public_key lib K = Inr V \<Longrightarrow> V = K \<and> length K = 32"
  by (auto simp: validate_public_key_def X25519_KEY_SIZE_def split: if_splits sum.splits)

lemma public_key_total:
  assumes "x25519_laws lib" "length k = 32"
  obtains K where "x25519_public_key_from_private lib k = Inr K" "lib_x25519_public lib k = Inr K" "length K = 32"
  using assms
  by (auto simp: x25519_laws_def x25519_public_key_from_private_def validate_private_key_input_def X25519_KEY_SIZE_def)

lemma public_key_lib: "x25519_public_key_from_private lib k = Inr K \<Longrightarrow> lib_x25519_public lib k = Inr K \<and> length k = 32"
  by (auto simp: x25519_public_key_from_private_def validate_private_key_input_def X25519_KEY_SIZE_def
      split: sum.splits if_splits)

lemma diffie_hellman_length: "diffie_hellman lib k K = Inr s \<Longrightarrow> length s = 32"
  by (auto simp: diffie_hellman_def X25519_SHARED_SECRET_SIZE_def split: sum.splits if_splits)

text \<open>Two parties with valid public keys compute the same secret, or fail alike.\<close>

lemma diffie_hellman_commutes:
  assumes "x25519_laws lib" "x25519_public_key_from_private lib a = Inr A"
    and "x25519_public_key_from_private lib b = Inr B"
    and "validate_public_key lib A = Inr A" "validate_public_key lib B = Inr B"
  shows "diffie_hellman lib a B = diffie_hellman lib b A"
proof -
  have "lib_x25519_exchange lib a B = lib_x25519_exchange lib b A"
    using assms(1) public_key_lib [OF assms(2)] public_key_lib [OF assms(3)] by (auto simp: x25519_laws_def)
  then show ?thesis
    using assms(4,5) public_key_lib [OF assms(2)] public_key_lib [OF assms(3)]
    by (simp add: diffie_hellman_def validate_private_key_input_def X25519_KEY_SIZE_def)
qed

subsection \<open>Ed25519\<close>

definition ED25519_PRIVATE_KEY_SIZE :: nat where "ED25519_PRIVATE_KEY_SIZE = 32"
definition ED25519_PUBLIC_KEY_SIZE :: nat where "ED25519_PUBLIC_KEY_SIZE = 32"
definition ED25519_SIGNATURE_SIZE :: nat where "ED25519_SIGNATURE_SIZE = 64"

definition ed25519_public_key_from_private :: "crypto_lib \<Rightarrow> bytes \<Rightarrow> exn + bytes" where
  "ed25519_public_key_from_private lib k =
     (if length k \<noteq> ED25519_PRIVATE_KEY_SIZE then Inl InvalidKeyError
      else except_as [ValueError, TypeError] InvalidKeyError (lib_ed25519_public lib k))"

definition load_public_key :: "crypto_lib \<Rightarrow> bytes \<Rightarrow> exn + bytes" where
  "load_public_key lib K =
     (if length K \<noteq> ED25519_PUBLIC_KEY_SIZE then Inl InvalidKeyError
      else case except_as [ValueError, TypeError] InvalidKeyError (lib_ed25519_load lib K) of
             Inl e \<Rightarrow> Inl e
           | Inr _ \<Rightarrow> Inr K)"

definition ed25519_sign :: "crypto_lib \<Rightarrow> bytes \<Rightarrow> bytes \<Rightarrow> exn + bytes" where
  "ed25519_sign lib k data =
     (if length k \<noteq> ED25519_PRIVATE_KEY_SIZE then Inl InvalidKeyError
      else case except_as [ValueError, TypeError] InvalidKeyError (lib_ed25519_sign lib k data) of
             Inl e \<Rightarrow> Inl e
           | Inr sig \<Rightarrow> if length sig = ED25519_SIGNATURE_SIZE then Inr sig else Inl AssertionError)"

definition ed25519_verify :: "crypto_lib \<Rightarrow> bytes \<Rightarrow> bytes \<Rightarrow> bytes \<Rightarrow> exn + unit" where
  "ed25519_verify lib K sig data =
     (if length K \<noteq> ED25519_PUBLIC_KEY_SIZE then Inl InvalidKeyError
      else if length sig \<noteq> ED25519_SIGNATURE_SIZE then Inl InvalidSignatureError
      else case except_as [ValueError, TypeError] InvalidKeyError (lib_ed25519_load lib K) of
             Inl e \<Rightarrow> Inl e
           | Inr _ \<Rightarrow> except_as [InvalidSignature] SignatureVerificationError (lib_ed25519_verify lib K sig data))"

subsection \<open>AES-256-GCM\<close>

definition AES_KEY_SIZE :: nat where "AES_KEY_SIZE = 32"
definition AES_NONCE_SIZE :: nat where "AES_NONCE_SIZE = 12"
definition AES_TAG_SIZE :: nat where "AES_TAG_SIZE = 16"
definition MIN_CIPHERTEXT_SIZE :: nat where "MIN_CIPHERTEXT_SIZE = AES_NONCE_SIZE + AES_TAG_SIZE"

definition validate_key :: "bytes \<Rightarrow> exn + unit" where
  "validate_key key = (if length key \<noteq> AES_KEY_SIZE then Inl EncryptionError else Inr ())"

text \<open>\<open>nonce\<close> is the result of \<open>os.urandom(12)\<close>.\<close>

definition aes_encrypt :: "crypto_lib \<Rightarrow> bytes \<Rightarrow> bytes \<Rightarrow> bytes \<Rightarrow> exn + bytes" where
  "aes_encrypt lib nonce key plaintext =
     (case validate_key key of
        Inl e \<Rightarrow> Inl e
      | Inr _ \<Rightarrow>
          case except_as [ValueError, TypeError] EncryptionError (lib_aesgcm_encrypt lib key nonce plaintext) of
            Inl e \<Rightarrow> Inl e
          | Inr ct \<Rightarrow> Inr (nonce @ ct))"

definition aes_encrypt_with_key :: "crypto_lib \<Rightarrow> bytes \<Rightarrow> bytes \<Rightarrow> bytes \<Rightarrow> exn + bytes" where
  "aes_encrypt_with_key lib nonce key plaintext = aes_encrypt lib nonce key plaintext"

definition aes_decrypt :: "crypto_lib \<Rightarrow> bytes \<Rightarrow> bytes \<Rightarrow> exn + bytes" where
  "aes_decrypt lib key data =
     (case validate_key key of
        Inl e \<Rightarrow> Inl e
      | Inr _ \<Rightarrow>
          if length data < MIN_CIPHERTEXT_SIZE then Inl DecryptionError
          else except_as [PyException] DecryptionError
                 (lib_aesgcm_decrypt lib key (take AES_NONCE_SIZE data) (drop AES_NONCE_SIZE data)))"

definition aes_decrypt_with_key :: "crypto_lib \<Rightarrow> bytes \<Rightarrow> bytes \<Rightarrow> exn + bytes" where
  "aes_decrypt_with_key lib key data = aes_decrypt lib key data"

subsection \<open>Key derivation\<close>

text \<open>The chained HMAC of the handshake: output \<open>i\<close> is keyed with the temporary key and fed with the one before.\<close>

fun noise_hkdf_blocks :: "bytes \<Rightarrow> bytes \<Rightarrow> nat \<Rightarrow> nat \<Rightarrow> bytes list" where
  "noise_hkdf_blocks temp_key current i 0 = []"
| "noise_hkdf_blocks temp_key current i (Suc n) =
     (let current = hmac_sha256 temp_key (current @ [word_of_nat i])
      in current # noise_hkdf_blocks temp_key current (Suc i) n)"

definition noise_hkdf :: "bytes \<Rightarrow> bytes \<Rightarrow> nat \<Rightarrow> exn + bytes list" where
  "noise_hkdf chaining_key ikm num_outputs =
     (if num_outputs < 1 \<or> num_outputs > 255 then Inl ValueError
      else Inr (noise_hkdf_blocks (hmac_sha256 chaining_key ikm) [] 1 num_outputs))"

definition legacy_hkdf :: "crypto_lib \<Rightarrow> bytes \<Rightarrow> bytes \<Rightarrow> bytes \<Rightarrow> nat \<Rightarrow> exn + bytes" where
  "legacy_hkdf lib ikm salt info len = lib_hkdf lib ikm salt info len"

definition default_legacy_hkdf :: "crypto_lib \<Rightarrow> bytes \<Rightarrow> exn + bytes" where
  "default_legacy_hkdf lib ikm = legacy_hkdf lib ikm (py_utf8 ''bitchat-v1'') [] 32"

definition PBKDF2_ITERATIONS :: nat where "PBKDF2_ITERATIONS = 100000"
definition PBKDF2_OUTPUT_LENGTH :: nat where "PBKDF2_OUTPUT_LENGTH = 32"

definition derive_channel_key :: "crypto_lib \<Rightarrow> string \<Rightarrow> string \<Rightarrow> exn + bytes" where
  "derive_channel_key lib password channel_name =
     lib_pbkdf2 lib (py_utf8 password) (py_utf8 channel_name) PBKDF2_ITERATIONS PBKDF2_OUTPUT_LENGTH"

lemma noise_hkdf_blocks_length: "length (noise_hkdf_blocks t c i n) = n"
  by (induction n arbitrary: c i) (simp_all add: Let_def)

lemma noise_hkdf_blocks_32: "b \<in> set (noise_hkdf_blocks t c i n) \<Longrightarrow> length b = 32"
  by (induction n arbitrary: c i) (auto simp: Let_def)

lemma noise_hkdf_two:
  obtains k1 k2 where "noise_hkdf ck ikm 2 = Inr [k1, k2]" "length k1 = 32" "length k2 = 32"
  by (auto simp: noise_hkdf_def Let_def numeral_2_eq_2)

subsection \<open>Identities\<close>

record identity =
  id_x25519_private :: bytes
  id_ed25519_private :: bytes
  id_x25519_public :: bytes
  id_ed25519_public :: bytes
  id_peer_id :: bytes
  id_fingerprint :: string

definition combined_public_key :: "identity \<Rightarrow> bytes" where
  "combined_public_key i = id_x25519_public i @ id_ed25519_public i @ id_ed25519_public i"

definition peer_id_hex :: "identity \<Rightarrow> string" where
  "peer_id_hex i = bytes_hex (id_peer_id i)"

definition device_id :: "identity \<Rightarrow> bytes" where "device_id i = id_peer_id i"
definition device_id_hex :: "identity \<Rightarrow> string" where "device_id_hex i = bytes_hex (id_peer_id i)"

definition identity_from_private_keys :: "crypto_lib \<Rightarrow> bytes \<Rightarrow> bytes \<Rightarrow> exn + identity" where
  "identity_from_private_keys lib x ed =
     (case x25519_public_key_from_private lib x of
        Inl e \<Rightarrow> Inl e
      | Inr X \<Rightarrow>
          case ed25519_public_key_from_private lib ed of
            Inl e \<Rightarrow> Inl e
          | Inr ED \<Rightarrow>
              let fp_digest = sha256 X in
              Inr \<lparr>id_x25519_private = x, id_ed25519_private = ed, id_x25519_public = X, id_ed25519_public = ED,
                   id_peer_id = take 8 fp_digest, id_fingerprint = bytes_hex fp_digest\<rparr>)"

text \<open>\<open>fresh_x\<close> and \<open>fresh_ed\<close> are the keys the operating system generates.\<close>

definition identity_generate :: "crypto_lib \<Rightarrow> bytes \<Rightarrow> bytes \<Rightarrow> exn + identity" where
  "identity_generate lib fresh_x fresh_ed = identity_from_private_keys lib fresh_x fresh_ed"

definition identity_from_x25519_private :: "crypto_lib \<Rightarrow> bytes \<Rightarrow> bytes \<Rightarrow> bytes option \<Rightarrow> exn + identity" where
  "identity_from_x25519_private lib fresh_ed x ed =
     identity_from_private_keys lib x (case ed of None \<Rightarrow> fresh_ed | Some k \<Rightarrow> k)"

definition calculate_fingerprint :: "bytes \<Rightarrow> string" where
  "calculate_fingerprint X = bytes_hex (sha256 X)"

definition generate_instance_id :: "bytes \<Rightarrow> string" where
  "generate_instance_id rnd = bytes_hex rnd"


subsection \<open>What the wrappers guarantee\<close>

lemma sign_verify:
  assumes "ed25519_laws lib" "ed25519_public_key_from_private lib k = Inr K"
  shows "\<exists>sig. ed25519_sign lib k data = Inr sig \<and> ed25519_verify lib K sig data = Inr ()"
proof -
  have k: "length k = 32" "lib_ed25519_public lib k = Inr K"
    using assms(2) by (auto simp: ed25519_public_key_from_private_def ED25519_PRIVATE_KEY_SIZE_def split: if_splits)
  with assms(1) have K: "length K = 32" "lib_ed25519_load lib K = Inr ()"
    unfolding ed25519_laws_def by fastforce+
  obtain sig where "lib_ed25519_sign lib k data = Inr sig" "length sig = 64" "lib_ed25519_verify lib K sig data = Inr ()"
    using assms(1) k unfolding ed25519_laws_def by blast
  with k K show ?thesis
    by (simp add: ed25519_sign_def ed25519_verify_def ED25519_PRIVATE_KEY_SIZE_def ED25519_PUBLIC_KEY_SIZE_def
        ED25519_SIGNATURE_SIZE_def)
qed

lemma aes_roundtrip:
  assumes "aead_laws (\<lambda>k n p a. lib_aesgcm_encrypt lib k n p) (\<lambda>k n c a. lib_aesgcm_decrypt lib k n c)"
    and "length key = 32" "length nonce = 12" "length p < 2 ^ 31"
  shows "\<exists>c. aes_encrypt lib nonce key p = Inr c \<and> length c = length p + 28 \<and> aes_decrypt lib key c = Inr p"
proof -
  obtain c where c: "lib_aesgcm_encrypt lib key nonce p = Inr c" "length c = length p + 16"
    using assms unfolding aead_laws_def by (metis list.size(3) zero_less_numeral zero_less_power)
  then have "lib_aesgcm_decrypt lib key nonce c = Inr p"
    using assms(1) unfolding aead_laws_def by blast
  with c assms(2,3) show ?thesis
    by (simp add: aes_encrypt_def aes_decrypt_def validate_key_def AES_KEY_SIZE_def MIN_CIPHERTEXT_SIZE_def
        AES_NONCE_SIZE_def AES_TAG_SIZE_def)
qed

text \<open>A key of the wrong length is an \<open>EncryptionError\<close> of both directions.\<close>

lemma aes_bad_key:
  "length key \<noteq> 32 \<Longrightarrow> aes_decrypt lib key data = Inl EncryptionError \<and> aes_encrypt lib nonce key p = Inl EncryptionError"
  by (simp add: aes_encrypt_def aes_decrypt_def validate_key_def AES_KEY_SIZE_def)

lemma identity_fields:
  assumes "identity_from_private_keys lib x ed = Inr i"
  shows "id_x25519_private i = x" "x25519_public_key_from_private lib x = Inr (id_x25519_public i)"
    "id_peer_id i = take 8 (sha256 (id_x25519_public i))" "length (peer_id_hex i) = 16"
    "id_fingerprint i = calculate_fingerprint (id_x25519_public i)"
  using assms
  by (auto simp: identity_from_private_keys_def Let_def calculate_fingerprint_def peer_id_hex_def split: sum.splits)

lemma low_order_lengths: "list_all (\<lambda>p. length p = 32) low_order_points"
  by (simp add: low_order_points_def)

text \<open>The point with \<open>u = 1\<close>, of order four, is not in the list: its entry has a stray last octet.\<close>

lemma low_order_point_accepted:
  assumes "x25519_laws lib"
  shows "validate_public_key lib (1 # replicate 31 0) = Inr (1 # replicate 31 0)"
proof -
  have "lib_x25519_load lib (1 # replicate 31 0) = Inr ()" using assms by (simp add: x25519_laws_def)
  moreover have "1 # replicate 31 0 \<notin> set low_order_points"
    by code_simp
  ultimately show ?thesis
    by (simp add: validate_public_key_def X25519_KEY_SIZE_def)
qed

end
