(* ===== verification/Noise.thy ===== *)
theory Noise
  imports Primitives Interfaces
begin

text \<open>
  The cipher state and the symmetric state of \<open>crypto/noise.py\<close>: ChaCha20-Poly1305 with its nonce
  counter and the replay window of the transport mode, and the running hash and chaining key of the
  handshake. An operation that mutates its object and may raise returns the new state and the
  result.
\<close>

subsection \<open>Constants and roles\<close>

definition NOISE_PROTOCOL_NAME :: string where
  "NOISE_PROTOCOL_NAME = ''Noise_XX_25519_ChaChaPoly_SHA256''"
definition NOISE_REPLAY_WINDOW_SIZE :: nat where "NOISE_REPLAY_WINDOW_SIZE = 1024"
definition NONCE_SIZE_BYTES :: nat where "NONCE_SIZE_BYTES = 4"
definition DH_KEY_SIZE :: nat where "DH_KEY_SIZE = 32"
definition TAG_SIZE :: nat where "TAG_SIZE = 16"

datatype NoiseRole = INITIATOR | RESPONDER

datatype NoiseSessionState = UNINITIALIZED | HANDSHAKING | ESTABLISHED | FAILED | CLOSED

definition determine_handshake_role :: "string \<Rightarrow> string \<Rightarrow> exn + NoiseRole" where
  "determine_handshake_role me remote =
     (if me = [] then Inl ValueError
      else if remote = [] then Inl ValueError
      else if me < remote then Inr INITIATOR else Inr RESPONDER)"

subsection \<open>The cipher state\<close>

record cipher =
  cs_key :: "bytes option"
  cs_nonce :: nat
  cs_extracted :: bool
  cs_window :: "nat set"
  cs_highest :: nat

definition NoiseCipherState :: "bytes option \<Rightarrow> bool \<Rightarrow> cipher" where
  "NoiseCipherState key use_extracted_nonce =
     \<lparr>cs_key = key, cs_nonce = 0, cs_extracted = use_extracted_nonce, cs_window = {}, cs_highest = 0\<rparr>"

definition has_key :: "cipher \<Rightarrow> bool" where
  "has_key c \<longleftrightarrow> cs_key c \<noteq> None"

definition initialize_key :: "bytes \<Rightarrow> cipher \<Rightarrow> cipher" where
  "initialize_key key c = c\<lparr>cs_key := Some key, cs_nonce := 0, cs_window := {}, cs_highest := 0\<rparr>"

text \<open>\<open>counter.to_bytes(8, "little")\<close> raises \<open>OverflowError\<close> from \<open>2 ^ 64\<close> on.\<close>

definition build_chacha_nonce :: "nat \<Rightarrow> exn + bytes" where
  "build_chacha_nonce counter =
     (if counter < 2 ^ 64 then Inr (replicate 4 0 @ le_bytes 8 (int counter)) else Inl OverflowError)"

definition counter_to_wire_bytes :: "nat \<Rightarrow> exn + bytes" where
  "counter_to_wire_bytes counter =
     (if counter < 2 ^ 64 then Inr (take NONCE_SIZE_BYTES (le_bytes 8 (int counter))) else Inl OverflowError)"

definition extract_wire_nonce :: "bytes \<Rightarrow> exn + (nat \<times> bytes)" where
  "extract_wire_nonce data =
     (if length data < NONCE_SIZE_BYTES then Inl InvalidNonceError
      else Inr (nat (le_int (take NONCE_SIZE_BYTES data)), drop NONCE_SIZE_BYTES data))"

definition is_valid_nonce :: "nat \<Rightarrow> cipher \<Rightarrow> bool" where
  "is_valid_nonce received c =
     (if received + NOISE_REPLAY_WINDOW_SIZE \<le> cs_highest c then False
      else if received > cs_highest c then True
      else received \<notin> cs_window c)"

definition mark_nonce_seen :: "nat \<Rightarrow> cipher \<Rightarrow> cipher" where
  "mark_nonce_seen received c =
     (let c1 = (if received > cs_highest c
                then (let shift = received - cs_highest c in
                      c\<lparr>cs_window := (if shift \<ge> NOISE_REPLAY_WINDOW_SIZE then {}
                                     else {n \<in> cs_window c. n + NOISE_REPLAY_WINDOW_SIZE > received}),
                        cs_highest := received\<rparr>)
                else c)
      in c1\<lparr>cs_window := insert received (cs_window c1)\<rparr>)"

definition cipher_encrypt :: "crypto_lib \<Rightarrow> bytes \<Rightarrow> bytes \<Rightarrow> cipher \<Rightarrow> cipher \<times> (exn + bytes)" where
  "cipher_encrypt lib plaintext aad c =
     (case cs_key c of
        None \<Rightarrow> (c, Inl NoiseStateError)
      | Some key \<Rightarrow>
          let current = cs_nonce c in
          case build_chacha_nonce current of
            Inl e \<Rightarrow> (c, Inl e)
          | Inr nonce \<Rightarrow>
              case except_as [PyException] EncryptionError (lib_chacha_encrypt lib key nonce plaintext aad) of
                Inl e \<Rightarrow> (c, Inl e)
              | Inr ciphertext \<Rightarrow>
                  let c' = c\<lparr>cs_nonce := current + 1\<rparr> in
                  if cs_extracted c
                  then (case counter_to_wire_bytes current of
                          Inl e \<Rightarrow> (c', Inl e)
                        | Inr wire \<Rightarrow> (c', Inr (wire @ ciphertext)))
                  else (c', Inr ciphertext))"

text \<open>The counter and the sealed part: from the wire in transport mode, from the state otherwise.\<close>

definition receive_counter :: "bytes \<Rightarrow> cipher \<Rightarrow> exn + (nat \<times> bytes)" where
  "receive_counter ciphertext c =
     (if cs_extracted c
      then (case extract_wire_nonce ciphertext of
              Inl e \<Rightarrow> Inl e
            | Inr (counter, payload) \<Rightarrow>
                if is_valid_nonce counter c then Inr (counter, payload) else Inl ReplayError)
      else Inr (cs_nonce c, ciphertext))"

definition cipher_decrypt :: "crypto_lib \<Rightarrow> bytes \<Rightarrow> bytes \<Rightarrow> cipher \<Rightarrow> cipher \<times> (exn + bytes)" where
  "cipher_decrypt lib ciphertext aad c =
     (case cs_key c of
        None \<Rightarrow> (c, Inl NoiseStateError)
      | Some key \<Rightarrow>
          case receive_counter ciphertext c of
            Inl e \<Rightarrow> (c, Inl e)
          | Inr (counter, payload) \<Rightarrow>
              case build_chacha_nonce counter of
                Inl e \<Rightarrow> (c, Inl e)
              | Inr nonce \<Rightarrow>
                  case except_as [PyException] DecryptionError (lib_chacha_decrypt lib key nonce payload aad) of
                    Inl e \<Rightarrow> (c, Inl e)
                  | Inr plaintext \<Rightarrow>
                      (if cs_extracted c then mark_nonce_seen counter c else c\<lparr>cs_nonce := cs_nonce c + 1\<rparr>,
                       Inr plaintext))"

subsection \<open>The replay window\<close>

text \<open>The counters a cipher will not accept: those in the window and those below it.\<close>

definition spent_counters :: "cipher \<Rightarrow> nat set" where
  "spent_counters c = cs_window c \<union> {n. n + NOISE_REPLAY_WINDOW_SIZE \<le> cs_highest c}"

text \<open>The window holds the last 1024 counters below the highest one.\<close>

definition window_ok :: "cipher \<Rightarrow> bool" where
  "window_ok c \<longleftrightarrow> (\<forall>n \<in> cs_window c. n \<le> cs_highest c \<and> cs_highest c < n + NOISE_REPLAY_WINDOW_SIZE)"

lemma window_ok_new [simp]: "window_ok (NoiseCipherState key ext)"
  by (simp add: window_ok_def NoiseCipherState_def)

lemma window_ok_initialize [simp]: "window_ok (initialize_key k c)"
  by (simp add: window_ok_def initialize_key_def)

lemma valid_iff_unspent: "window_ok c \<Longrightarrow> is_valid_nonce n c \<longleftrightarrow> n \<notin> spent_counters c"
  by (auto simp: window_ok_def is_valid_nonce_def spent_counters_def NOISE_REPLAY_WINDOW_SIZE_def)

lemma mark_fields [simp]:
  "cs_key (mark_nonce_seen n c) = cs_key c" "cs_nonce (mark_nonce_seen n c) = cs_nonce c"
  "cs_extracted (mark_nonce_seen n c) = cs_extracted c"
  "cs_highest (mark_nonce_seen n c) = max n (cs_highest c)"
  by (auto simp: mark_nonce_seen_def Let_def max_def)

lemma mark_window:
  "window_ok c \<Longrightarrow> is_valid_nonce n c \<Longrightarrow> cs_window (mark_nonce_seen n c) =
     insert n {m \<in> cs_window c. max n (cs_highest c) < m + NOISE_REPLAY_WINDOW_SIZE}"
  by (force simp: mark_nonce_seen_def Let_def window_ok_def NOISE_REPLAY_WINDOW_SIZE_def)

lemma mark_window_ok: "window_ok c \<Longrightarrow> is_valid_nonce n c \<Longrightarrow> window_ok (mark_nonce_seen n c)"
  by (auto simp: window_ok_def mark_window is_valid_nonce_def NOISE_REPLAY_WINDOW_SIZE_def split: if_splits)

lemma mark_spends:
  assumes "window_ok c" "is_valid_nonce n c"
  shows "insert n (spent_counters c) \<subseteq> spent_counters (mark_nonce_seen n c)"
  using assms by (auto simp: spent_counters_def mark_window)

lemma card_window:
  assumes "window_ok c"
  shows "card (cs_window c) \<le> NOISE_REPLAY_WINDOW_SIZE"
proof -
  let ?W = "NOISE_REPLAY_WINDOW_SIZE"
  have "cs_window c \<subseteq> {Suc (cs_highest c) - ?W ..< Suc (cs_highest c)}"
    using assms by (fastforce simp: window_ok_def NOISE_REPLAY_WINDOW_SIZE_def)
  then have "card (cs_window c) \<le> card {Suc (cs_highest c) - ?W ..< Suc (cs_highest c)}"
    by (rule card_mono [rotated]) simp
  then show ?thesis by simp
qed


subsection \<open>Receiving\<close>

definition wire_counter :: "bytes \<Rightarrow> nat" where
  "wire_counter ct = nat (le_int (take 4 ct))"

definition counter_nonce :: "nat \<Rightarrow> bytes" where
  "counter_nonce n = replicate 4 0 @ le_bytes 8 (int n)"

lemma length_counter_nonce [simp]: "length (counter_nonce n) = 12"
  by (simp add: counter_nonce_def)

lemma build_nonce: "n < 2 ^ 64 \<Longrightarrow> build_chacha_nonce n = Inr (counter_nonce n)"
  by (simp add: build_chacha_nonce_def counter_nonce_def)

lemma wire_counter_less: "wire_counter ct < 2 ^ 32"
proof -
  have "le_int (take 4 ct) < 256 ^ length (take 4 ct)" by (rule le_int_range)
  also have "\<dots> \<le> 256 ^ 4" by (intro power_increasing) auto
  finally show ?thesis by (simp add: wire_counter_def nat_less_iff)
qed

lemma wire_counter_64: "wire_counter ct < 2 ^ 64"
  using wire_counter_less [of ct] by simp

lemma build_wire_nonce: "build_chacha_nonce (wire_counter ct) = Inr (counter_nonce (wire_counter ct))"
  using wire_counter_64 by (rule build_nonce)

lemma decrypt_transport:
  assumes "cs_key c = Some k" "cs_extracted c" "window_ok c"
  shows "cipher_decrypt lib ct aad c =
    (if length ct < 4 then (c, Inl InvalidNonceError)
     else if wire_counter ct \<in> spent_counters c then (c, Inl ReplayError)
     else case lib_chacha_decrypt lib k (counter_nonce (wire_counter ct)) (drop 4 ct) aad of
            Inl e \<Rightarrow> (c, Inl DecryptionError)
          | Inr p \<Rightarrow> (mark_nonce_seen (wire_counter ct) c, Inr p))"
  using assms
  by (auto simp: cipher_decrypt_def receive_counter_def extract_wire_nonce_def NONCE_SIZE_BYTES_def
      valid_iff_unspent build_wire_nonce isinstance_Exception simp flip: wire_counter_def
      split: sum.split)

lemma decrypt_accepts:
  assumes "cs_key c = Some k" "cs_extracted c" "window_ok c" "snd (cipher_decrypt lib ct aad c) = Inr p"
  shows "4 \<le> length ct" "wire_counter ct \<notin> spent_counters c"
    "fst (cipher_decrypt lib ct aad c) = mark_nonce_seen (wire_counter ct) c"
    "lib_chacha_decrypt lib k (counter_nonce (wire_counter ct)) (drop 4 ct) aad = Inr p"
  using assms by (auto simp: decrypt_transport split: if_splits sum.splits)

lemma decrypt_rejects: "snd (cipher_decrypt lib ct aad c) = Inl e \<Longrightarrow> fst (cipher_decrypt lib ct aad c) = c"
  by (auto simp: cipher_decrypt_def split: option.splits sum.splits prod.splits)

text \<open>A receiving cipher as a machine: events are received messages, the counters it accepts are spent.\<close>

definition receive_step :: "crypto_lib \<Rightarrow> cipher \<Rightarrow> bytes \<times> bytes \<Rightarrow> cipher \<times> (exn + bytes)" where
  "receive_step lib c e = cipher_decrypt lib (fst e) (snd e) c"

definition accepted_counter :: "bytes \<times> bytes \<Rightarrow> exn + bytes \<Rightarrow> nat option" where
  "accepted_counter e out = (case out of Inl _ \<Rightarrow> None | Inr _ \<Rightarrow> Some (wire_counter (fst e)))"

definition receiver_ok :: "cipher \<Rightarrow> bool" where
  "receiver_ok c \<longleftrightarrow> cs_extracted c \<and> cs_key c \<noteq> None \<and> window_ok c"

lemma receive_cases:
  assumes "receiver_ok c"
  obtains (accept) p where "snd (receive_step lib c e) = Inr p" "wire_counter (fst e) \<notin> spent_counters c"
      "fst (receive_step lib c e) = mark_nonce_seen (wire_counter (fst e)) c" "is_valid_nonce (wire_counter (fst e)) c"
  | (reject) x where "snd (receive_step lib c e) = Inl x" "fst (receive_step lib c e) = c"
proof (cases "snd (receive_step lib c e)")
  case (Inr p)
  obtain k where k: "cs_key c = Some k" "cs_extracted c" "window_ok c"
    using assms by (auto simp: receiver_ok_def)
  show ?thesis
    using decrypt_accepts [OF k, of lib "fst e" "snd e" p] Inr k(3)
    by (intro accept [OF Inr]) (simp_all add: receive_step_def valid_iff_unspent)
qed (auto simp: receive_step_def intro: reject dest: decrypt_rejects)

interpretation receiver: one_shot "receive_step lib" receiver_ok accepted_counter spent_counters for lib
proof
  fix c :: cipher and e :: "bytes \<times> bytes" and i :: nat
  assume c: "receiver_ok c"
  show "receiver_ok (fst (receive_step lib c e))"
    using c by (cases rule: receive_cases [OF c, of lib e]) (auto simp: receiver_ok_def intro: mark_window_ok)
  show "spent_counters c \<subseteq> spent_counters (fst (receive_step lib c e))"
    using c by (cases rule: receive_cases [OF c, of lib e]) (auto simp: receiver_ok_def dest: mark_spends)
  assume i: "accepted_counter e (snd (receive_step lib c e)) = Some i"
  then show "i \<notin> spent_counters c"
    by (cases rule: receive_cases [OF c, of lib e]) (auto simp: accepted_counter_def)
  show "i \<in> spent_counters (fst (receive_step lib c e))"
    using i c by (cases rule: receive_cases [OF c, of lib e])
      (auto simp: accepted_counter_def receiver_ok_def dest: mark_spends)
qed

subsection \<open>Sending\<close>

lemma encrypt_no_key: "cs_key c = None \<Longrightarrow> cipher_encrypt lib p aad c = (c, Inl NoiseStateError)"
  by (simp add: cipher_encrypt_def)

lemma encrypt_some:
  assumes "cs_key c = Some k" "cs_nonce c < 2 ^ 64"
  shows "cipher_encrypt lib p aad c =
    (case lib_chacha_encrypt lib k (counter_nonce (cs_nonce c)) p aad of
       Inl e \<Rightarrow> (c, Inl EncryptionError)
     | Inr ct \<Rightarrow> (c\<lparr>cs_nonce := Suc (cs_nonce c)\<rparr>,
         Inr ((if cs_extracted c then take 4 (le_bytes 8 (int (cs_nonce c))) else []) @ ct)))"
  using assms
  by (simp add: cipher_encrypt_def build_nonce Let_def counter_to_wire_bytes_def NONCE_SIZE_BYTES_def
      isinstance_Exception split: sum.split)

text \<open>From \<open>2 ^ 64\<close> messages on, every encryption raises.\<close>

lemma encrypt_overflow:
  "cs_key c = Some k \<Longrightarrow> 2 ^ 64 \<le> cs_nonce c \<Longrightarrow> cipher_encrypt lib p aad c = (c, Inl OverflowError)"
  by (simp add: cipher_encrypt_def build_chacha_nonce_def)

text \<open>A sending cipher as a machine: the nonce each sealed message used.\<close>

definition send_step :: "crypto_lib \<Rightarrow> cipher \<Rightarrow> bytes \<times> bytes \<Rightarrow> cipher \<times> nat option" where
  "send_step lib c e = (case cipher_encrypt lib (fst e) (snd e) c of
     (c', Inl _) \<Rightarrow> (c', None) | (c', Inr _) \<Rightarrow> (c', Some (cs_nonce c)))"

interpretation sender: one_shot "send_step lib" "\<lambda>_. True" "\<lambda>_ out. out" "\<lambda>c. {n. n < cs_nonce c}" for lib
proof
  fix c :: cipher and e :: "bytes \<times> bytes" and i :: nat
  have *: "cs_nonce (fst (cipher_encrypt lib (fst e) (snd e) c)) =
      (if \<exists>ct. snd (cipher_encrypt lib (fst e) (snd e) c) = Inr ct then Suc (cs_nonce c) else cs_nonce c)"
    by (cases "cs_key c"; cases "cs_nonce c < 2 ^ 64")
       (simp_all add: encrypt_no_key encrypt_some encrypt_overflow split: sum.split)
  then show "{n. n < cs_nonce c} \<subseteq> {n. n < cs_nonce (fst (send_step lib c e))}"
    by (auto simp: send_step_def split: prod.split sum.split)
  assume "snd (send_step lib c e) = Some i"
  with * show "i \<notin> {n. n < cs_nonce c}" "i \<in> {n. n < cs_nonce (fst (send_step lib c e))}"
    by (auto simp: send_step_def split: prod.splits sum.splits)
qed simp


subsection \<open>Delivery in transport mode\<close>

lemma le_bytes_Suc: "le_bytes (Suc n) v = word_of_int v # le_bytes n (v div 256)"
  by (simp add: le_bytes_def)

lemma take_le_bytes: "take m (le_bytes (m + n) v) = le_bytes m v"
  by (induction m arbitrary: v) (simp_all add: le_bytes_Suc, simp add: le_bytes_def)

lemma be_int_be_bytes_mod: "be_int (be_bytes n v) = v mod 256 ^ n"
proof (induction n arbitrary: v)
  case (Suc n)
  have "v mod (256 * 256 ^ n) = 256 * (v div 256 mod 256 ^ n) + v mod 256"
    by (rule zmod_zmult2_eq) simp
  then show ?case by (simp add: Suc uint_word_of_int mult.commute)
qed simp

lemma take4_le_bytes: "le_int (take 4 (le_bytes 8 (int n))) = int n mod 2 ^ 32"
  using take_le_bytes [of 4 4 "int n"] be_int_be_bytes_mod [of 4 "int n"]
  by (simp add: le_int_def le_bytes_def)

lemma wire_counter_of: "wire_counter (take 4 (le_bytes 8 (int n)) @ ct) = n mod 2 ^ 32"
  by (simp add: wire_counter_def take4_le_bytes nat_mod_distrib)

lemma aead_seal:
  assumes "aead_laws enc dec" "length k = 32" "length n = 12" "length p < 2 ^ 31" "length a < 2 ^ 31"
  obtains c where "enc k n p a = Inr c" "length c = length p + 16" "dec k n c a = Inr p"
  using assms unfolding aead_laws_def by blast

text \<open>A message sealed by a cipher with counter \<open>n\<close>.\<close>

lemma encrypt_transport:
  assumes "aead_laws (lib_chacha_encrypt lib) (lib_chacha_decrypt lib)"
    and "cs_key c = Some k" "cs_extracted c" "cs_nonce c < 2 ^ 64" "length k = 32" "length p < 2 ^ 31" "length aad < 2 ^ 31"
  obtains ct where "cipher_encrypt lib p aad c =
      (c\<lparr>cs_nonce := Suc (cs_nonce c)\<rparr>, Inr (take 4 (le_bytes 8 (int (cs_nonce c))) @ ct))"
    "lib_chacha_decrypt lib k (counter_nonce (cs_nonce c)) ct aad = Inr p" "length ct = length p + 16"
proof -
  obtain ct where ct: "lib_chacha_encrypt lib k (counter_nonce (cs_nonce c)) p aad = Inr ct"
    "length ct = length p + 16" "lib_chacha_decrypt lib k (counter_nonce (cs_nonce c)) ct aad = Inr p"
    by (rule aead_seal [OF assms(1), of k "counter_nonce (cs_nonce c)" p aad]) (use assms in auto)
  show thesis by (rule that [of ct]) (use assms ct in \<open>simp_all add: encrypt_some\<close>)
qed

lemma send_run:
  assumes "aead_laws (lib_chacha_encrypt lib) (lib_chacha_decrypt lib)"
    and "cs_key c = Some k" "cs_extracted c" "length k = 32" "length aad < 2 ^ 31"
    and "cs_nonce c + length ps \<le> 2 ^ 32" "\<forall>p \<in> set ps. length p < 2 ^ 31"
  shows "\<exists>cts. snd (run (\<lambda>c p. cipher_encrypt lib p aad c) c ps) = map Inr cts \<and> length cts = length ps \<and>
    (\<forall>i < length ps. 4 \<le> length (cts ! i) \<and> wire_counter (cts ! i) = cs_nonce c + i \<and>
       lib_chacha_decrypt lib k (counter_nonce (cs_nonce c + i)) (drop 4 (cts ! i)) aad = Inr (ps ! i))"
  using assms(2-)
proof (induction ps arbitrary: c)
  case (Cons p ps)
  have "cs_nonce c < 2 ^ 32" using Cons.prems(5) by simp
  then have n: "cs_nonce c < 2 ^ 64" "cs_nonce c mod 2 ^ 32 = cs_nonce c" by simp_all
  obtain ct where ct: "cipher_encrypt lib p aad c =
      (c\<lparr>cs_nonce := Suc (cs_nonce c)\<rparr>, Inr (take 4 (le_bytes 8 (int (cs_nonce c))) @ ct))"
    "lib_chacha_decrypt lib k (counter_nonce (cs_nonce c)) ct aad = Inr p"
    by (rule encrypt_transport [OF assms(1) Cons.prems(1,2) n(1) Cons.prems(3), of p aad])
      (use Cons.prems in auto)
  let ?c = "c\<lparr>cs_nonce := Suc (cs_nonce c)\<rparr>"
  obtain cts where cts: "snd (run (\<lambda>c p. cipher_encrypt lib p aad c) ?c ps) = map Inr cts" "length cts = length ps"
    "\<And>i. i < length ps \<Longrightarrow> 4 \<le> length (cts ! i) \<and> wire_counter (cts ! i) = Suc (cs_nonce c + i) \<and>
       lib_chacha_decrypt lib k (counter_nonce (Suc (cs_nonce c + i))) (drop 4 (cts ! i)) aad = Inr (ps ! i)"
    using Cons.IH [of ?c] Cons.prems by auto
  show ?case
    by (rule exI [of _ "(take 4 (le_bytes 8 (int (cs_nonce c))) @ ct) # cts"])
       (use ct cts n in \<open>auto simp: wire_counter_of nth_Cons split: nat.split\<close>)
qed simp

lemma receive_run:
  assumes "cs_key c = Some k" "cs_extracted c" "window_ok c"
    and "\<forall>i \<in> set is. 4 \<le> length (m i) \<and> wire_counter (m i) = i \<and> i < 1024 \<and>
       lib_chacha_decrypt lib k (counter_nonce i) (drop 4 (m i)) aad = Inr (f i)"
    and "distinct is" "set is \<inter> cs_window c = {}" "cs_highest c < 1024"
  shows "snd (run (\<lambda>c ct. cipher_decrypt lib ct aad c) c (map m is)) = map (\<lambda>i. Inr (f i)) is"
  using assms
proof (induction "is" arbitrary: c)
  case (Cons i "is")
  have unspent: "i \<notin> spent_counters c"
    using Cons.prems by (auto simp: spent_counters_def NOISE_REPLAY_WINDOW_SIZE_def)
  then have valid: "is_valid_nonce i c" using Cons.prems(3) by (simp add: valid_iff_unspent)
  have step: "cipher_decrypt lib (m i) aad c = (mark_nonce_seen i c, Inr (f i))"
    using Cons.prems unspent by (simp add: decrypt_transport [OF Cons.prems(1-3)])
  have "snd (run (\<lambda>c ct. cipher_decrypt lib ct aad c) (mark_nonce_seen i c) (map m is)) = map (\<lambda>i. Inr (f i)) is"
    using Cons.prems valid by (intro Cons.IH) (auto simp: mark_window mark_window_ok)
  with step show ?case by simp
qed simp


text \<open>The counters of the accepted messages, in order.\<close>

definition accepted_counters :: "(bytes \<times> bytes) list \<Rightarrow> (exn + bytes) list \<Rightarrow> nat list" where
  "accepted_counters es outs = List.map_filter (\<lambda>(e, out). accepted_counter e out) (zip es outs)"

text \<open>The nonces of the sealed messages, in order.\<close>

definition sealing_nonces :: "nat option list \<Rightarrow> nat list" where
  "sealing_nonces outs = List.map_filter id outs"

lemma receiver_new [simp]: "receiver_ok (NoiseCipherState (Some k) True)"
  by (simp add: receiver_ok_def) (simp add: NoiseCipherState_def)

lemma sealing_used: "length es = length outs \<Longrightarrow> sender.used es outs = sealing_nonces outs"
  by (induction es outs rule: list_induct2)
     (simp_all add: sender.used_def sealing_nonces_def map_filter_simps split: option.split)

text \<open>
  C7. Replay protection of the transport mode: whatever messages reach a receiving cipher, and
  whatever the AEAD answers, no wire counter is accepted twice, and the set of remembered counters
  never exceeds the window of 1024 entries.
\<close>
theorem replay_safe:
  "distinct (accepted_counters msgs (snd (run (receive_step lib) (NoiseCipherState (Some key) True) msgs))) \<and>
   card (cs_window (fst (run (receive_step lib) (NoiseCipherState (Some key) True) msgs))) \<le> NOISE_REPLAY_WINDOW_SIZE"
proof
  let ?r = "run (receive_step lib) (NoiseCipherState (Some key) True) msgs"
  show "distinct (accepted_counters msgs (snd ?r))"
    using receiver.used_once [OF receiver_new, where lib = lib and es = msgs]
    by (simp add: receiver.used_def accepted_counters_def)
  have "receiver_ok (fst ?r)" by (rule receiver.run_inv) simp
  then show "card (cs_window (fst ?r)) \<le> NOISE_REPLAY_WINDOW_SIZE" by (simp add: receiver_ok_def card_window)
qed


text \<open>
  C8. Delivery in any order: of at most 1024 messages sealed by a fresh sending cipher, any
  selection arriving in any order at a receiving cipher with the same key is decrypted, each
  message to its own plaintext.
\<close>
theorem transport_any_order:
  assumes "aead_laws (lib_chacha_encrypt lib) (lib_chacha_decrypt lib)" "length key = 32" "length aad < 2 ^ 31"
    and "length ps \<le> 1024" "\<forall>p \<in> set ps. length p < 2 ^ 31" "distinct order" "set order \<subseteq> {..< length ps}"
  shows "\<exists>cts. snd (run (\<lambda>c p. cipher_encrypt lib p aad c) (NoiseCipherState (Some key) True) ps) = map Inr cts
    \<and> length cts = length ps
    \<and> snd (run (\<lambda>c ct. cipher_decrypt lib ct aad c) (NoiseCipherState (Some key) True) (map ((!) cts) order))
        = map (\<lambda>i. Inr (ps ! i)) order"
proof -
  let ?c = "NoiseCipherState (Some key) True"
  have c: "cs_key ?c = Some key" "cs_extracted ?c" "cs_nonce ?c = 0" "cs_window ?c = {}" "cs_highest ?c = 0"
    by (simp_all add: NoiseCipherState_def)
  obtain cts where cts: "snd (run (\<lambda>c p. cipher_encrypt lib p aad c) ?c ps) = map Inr cts" "length cts = length ps"
    "\<forall>i < length ps. 4 \<le> length (cts ! i) \<and> wire_counter (cts ! i) = i \<and>
       lib_chacha_decrypt lib key (counter_nonce i) (drop 4 (cts ! i)) aad = Inr (ps ! i)"
    using send_run [OF assms(1) c(1,2) assms(2,3), of ps] assms(4,5) c(3) by auto
  have "snd (run (\<lambda>c ct. cipher_decrypt lib ct aad c) ?c (map ((!) cts) order)) = map (\<lambda>i. Inr (ps ! i)) order"
    using cts(3) assms(4,6,7) c by (intro receive_run [OF c(1,2)]) (auto dest!: subsetD)
  with cts show ?thesis by blast
qed

lemma transport_any_order_witness:
  "\<exists>cts. snd (run (\<lambda>c p. cipher_encrypt sample_lib p [] c) (NoiseCipherState (Some (replicate 32 7)) True) [[1], [2, 3], []])
      = map Inr cts \<and> length cts = length [[1], [2, 3], [] :: bytes] \<and>
    snd (run (\<lambda>c ct. cipher_decrypt sample_lib ct [] c) (NoiseCipherState (Some (replicate 32 7)) True) (map ((!) cts) [2, 0, 1]))
      = map (\<lambda>i. Inr ([[1], [2, 3], []] ! i)) [2, 0, 1]"
  by (rule transport_any_order [OF sample_chacha]) auto

text \<open>
  The counter on the wire has 32 bits while the nonce counts on: a message sealed with a counter
  from \<open>2 ^ 32\<close> on carries its low half, and a receiver that accepted the counter before
  \<open>2 ^ 32\<close> refuses it as a replay. A session cannot deliver more than \<open>2 ^ 32\<close> messages in one direction.
\<close>
theorem wire_counter_wraps:
  assumes "aead_laws (lib_chacha_encrypt lib) (lib_chacha_decrypt lib)" "length k = 32" "length p < 2 ^ 31" "length aad < 2 ^ 31"
    and "cs_key s = Some k" "cs_extracted s" "cs_nonce s = 2 ^ 32 + j" "j + 1024 < 2 ^ 32"
    and "cs_key r = Some k" "cs_extracted r" "window_ok r" "cs_highest r = 2 ^ 32 - 1"
  shows "\<exists>ct. snd (cipher_encrypt lib p aad s) = Inr ct \<and> cipher_decrypt lib ct aad r = (r, Inl ReplayError)"
proof -
  have "j < 2 ^ 32" using assms(8) by simp
  then have n: "cs_nonce s < 2 ^ 64" "cs_nonce s mod 2 ^ 32 = j" using assms(7) by simp_all
  obtain ct where ct: "snd (cipher_encrypt lib p aad s) = Inr (take 4 (le_bytes 8 (int (cs_nonce s))) @ ct)"
    by (rule encrypt_transport [OF assms(1,5,6) n(1) assms(2-4)]) simp
  have "wire_counter (take 4 (le_bytes 8 (int (cs_nonce s))) @ ct) \<in> spent_counters r"
    unfolding wire_counter_of n(2) using assms(8,12) by (simp add: spent_counters_def NOISE_REPLAY_WINDOW_SIZE_def)
  with ct show ?thesis
    by (intro exI [of _ "take 4 (le_bytes 8 (int (cs_nonce s))) @ ct"]) (simp add: decrypt_transport [OF assms(9-11)])
qed

lemma wire_counter_wraps_witness:
  "\<exists>ct. snd (cipher_encrypt sample_lib [1] [] ((NoiseCipherState (Some (replicate 32 7)) True)\<lparr>cs_nonce := 2 ^ 32 + 5\<rparr>)) = Inr ct \<and>
     cipher_decrypt sample_lib ct [] ((NoiseCipherState (Some (replicate 32 7)) True)\<lparr>cs_highest := 2 ^ 32 - 1\<rparr>)
       = ((NoiseCipherState (Some (replicate 32 7)) True)\<lparr>cs_highest := 2 ^ 32 - 1\<rparr>, Inl ReplayError)"
  by (rule wire_counter_wraps [OF sample_chacha, where j = 5 and k = "replicate 32 7"])
     (simp_all add: NoiseCipherState_def window_ok_def)


subsection \<open>The symmetric state of the handshake\<close>

record symmetric =
  sy_hash :: bytes
  sy_chaining_key :: bytes
  sy_cipher :: cipher

definition NoiseSymmetricState :: "string \<Rightarrow> symmetric" where
  "NoiseSymmetricState protocol_name =
     (let name_bytes = py_utf8 protocol_name;
          initial_hash = (if length name_bytes \<le> 32 then name_bytes @ replicate (32 - length name_bytes) 0
                          else sha256 name_bytes)
      in \<lparr>sy_hash = initial_hash, sy_chaining_key = initial_hash, sy_cipher = NoiseCipherState None False\<rparr>)"

definition has_cipher_key :: "symmetric \<Rightarrow> bool" where
  "has_cipher_key sy = has_key (sy_cipher sy)"

definition mix_hash :: "bytes \<Rightarrow> symmetric \<Rightarrow> symmetric" where
  "mix_hash data sy = sy\<lparr>sy_hash := sha256 (sy_hash sy @ data)\<rparr>"

text \<open>\<open>noise_hkdf\<close> with two or three outputs returns as many; the other cases are unreachable.\<close>

definition mix_key :: "bytes \<Rightarrow> symmetric \<Rightarrow> symmetric \<times> (exn + unit)" where
  "mix_key ikm sy =
     (case noise_hkdf (sy_chaining_key sy) ikm 2 of
        Inl e \<Rightarrow> (sy, Inl e)
      | Inr outputs \<Rightarrow>
          (sy\<lparr>sy_chaining_key := outputs ! 0, sy_cipher := initialize_key (outputs ! 1) (sy_cipher sy)\<rparr>, Inr ()))"

definition mix_key_and_hash :: "bytes \<Rightarrow> symmetric \<Rightarrow> symmetric \<times> (exn + unit)" where
  "mix_key_and_hash ikm sy =
     (case noise_hkdf (sy_chaining_key sy) ikm 3 of
        Inl e \<Rightarrow> (sy, Inl e)
      | Inr outputs \<Rightarrow>
          (let sy1 = mix_hash (outputs ! 1) (sy\<lparr>sy_chaining_key := outputs ! 0\<rparr>)
           in (sy1\<lparr>sy_cipher := initialize_key (outputs ! 2) (sy_cipher sy1)\<rparr>, Inr ())))"

definition encrypt_and_hash :: "crypto_lib \<Rightarrow> bytes \<Rightarrow> symmetric \<Rightarrow> symmetric \<times> (exn + bytes)" where
  "encrypt_and_hash lib plaintext sy =
     (if has_cipher_key sy
      then (case cipher_encrypt lib plaintext (sy_hash sy) (sy_cipher sy) of
              (c, Inl e) \<Rightarrow> (sy\<lparr>sy_cipher := c\<rparr>, Inl e)
            | (c, Inr ciphertext) \<Rightarrow> (mix_hash ciphertext (sy\<lparr>sy_cipher := c\<rparr>), Inr ciphertext))
      else (mix_hash plaintext sy, Inr plaintext))"

definition decrypt_and_hash :: "crypto_lib \<Rightarrow> bytes \<Rightarrow> symmetric \<Rightarrow> symmetric \<times> (exn + bytes)" where
  "decrypt_and_hash lib ciphertext sy =
     (if has_cipher_key sy
      then (if length ciphertext = 0 then (mix_hash [] sy, Inr [])
            else case cipher_decrypt lib ciphertext (sy_hash sy) (sy_cipher sy) of
                   (c, Inl e) \<Rightarrow> (sy\<lparr>sy_cipher := c\<rparr>,
                       Inl (if isinstance e DecryptionError \<or> isinstance e ReplayError then AuthenticationError else e))
                 | (c, Inr plaintext) \<Rightarrow> (mix_hash ciphertext (sy\<lparr>sy_cipher := c\<rparr>), Inr plaintext))
      else (mix_hash ciphertext sy, Inr ciphertext))"

definition split_ciphers :: "symmetric \<Rightarrow> exn + (cipher \<times> cipher)" where
  "split_ciphers sy =
     (case noise_hkdf (sy_chaining_key sy) [] 2 of
        Inl e \<Rightarrow> Inl e
      | Inr outputs \<Rightarrow> Inr (NoiseCipherState (Some (outputs ! 0)) True, NoiseCipherState (Some (outputs ! 1)) True))"

text \<open>The states a handshake goes through: a 32-octet hash, an internal counter, a 32-octet key if any.\<close>

definition sy_ok :: "symmetric \<Rightarrow> bool" where
  "sy_ok sy \<longleftrightarrow> length (sy_hash sy) = 32 \<and> \<not> cs_extracted (sy_cipher sy) \<and>
     (\<forall>k. cs_key (sy_cipher sy) = Some k \<longrightarrow> length k = 32) \<and> cs_nonce (sy_cipher sy) \<le> 2"

lemma sy_ok_new: "sy_ok (NoiseSymmetricState NOISE_PROTOCOL_NAME)"
  by (simp add: sy_ok_def NoiseSymmetricState_def Let_def NOISE_PROTOCOL_NAME_def py_utf8_def py_utf8_char_def NoiseCipherState_def)

lemma mix_hash_fields [simp]:
  "sy_chaining_key (mix_hash d sy) = sy_chaining_key sy" "sy_cipher (mix_hash d sy) = sy_cipher sy"
  "has_cipher_key (mix_hash d sy) = has_cipher_key sy" "sy_hash (mix_hash d sy) = sha256 (sy_hash sy @ d)"
  by (simp_all add: mix_hash_def has_cipher_key_def)

lemma sy_ok_mix_hash: "sy_ok sy \<Longrightarrow> sy_ok (mix_hash d sy)"
  by (simp add: sy_ok_def)

text \<open>Mixing a shared secret always gives a fresh key.\<close>

lemma mix_key_total:
  assumes "sy_ok sy"
  obtains sy' k where "mix_key ikm sy = (sy', Inr ())" "sy_ok sy'" "cs_key (sy_cipher sy') = Some k" "has_cipher_key sy'"
    "sy_hash sy' = sy_hash sy" "cs_nonce (sy_cipher sy') = 0"
proof -
  obtain k1 k2 where "noise_hkdf (sy_chaining_key sy) ikm 2 = Inr [k1, k2]" "length k2 = 32"
    by (rule noise_hkdf_two)
  then show thesis
    using assms
    by (intro that [of "sy\<lparr>sy_chaining_key := k1, sy_cipher := initialize_key k2 (sy_cipher sy)\<rparr>" k2])
       (auto simp: mix_key_def initialize_key_def sy_ok_def has_cipher_key_def has_key_def)
qed

text \<open>The receiver of a sealed part reaches the sender's state.\<close>

lemma encrypt_decrypt_and_hash:
  assumes "aead_laws (lib_chacha_encrypt lib) (lib_chacha_decrypt lib)" "sy_ok sy" "has_cipher_key sy"
    and "cs_nonce (sy_cipher sy) \<le> 1" "length p < 2 ^ 31"
  obtains ct sy' where "encrypt_and_hash lib p sy = (sy', Inr ct)" "length ct = length p + 16"
    "decrypt_and_hash lib ct sy = (sy', Inr p)" "sy_ok sy'" "has_cipher_key sy'"
    "cs_nonce (sy_cipher sy') = Suc (cs_nonce (sy_cipher sy))" "sy_hash sy' = sha256 (sy_hash sy @ ct)"
    "sy_chaining_key sy' = sy_chaining_key sy"
proof -
  obtain k where k: "cs_key (sy_cipher sy) = Some k" "length k = 32" "\<not> cs_extracted (sy_cipher sy)"
    using assms(2,3) by (auto simp: sy_ok_def has_cipher_key_def has_key_def)
  let ?n = "cs_nonce (sy_cipher sy)"
  have n: "?n < 2 ^ 64" using assms(4) by simp
  obtain ct where ct: "lib_chacha_encrypt lib k (counter_nonce ?n) p (sy_hash sy) = Inr ct" "length ct = length p + 16"
    "lib_chacha_decrypt lib k (counter_nonce ?n) ct (sy_hash sy) = Inr p"
    by (rule aead_seal [OF assms(1), of k "counter_nonce ?n" p "sy_hash sy"]) (use assms k in \<open>auto simp: sy_ok_def\<close>)
  let ?sy = "mix_hash ct (sy\<lparr>sy_cipher := (sy_cipher sy)\<lparr>cs_nonce := Suc ?n\<rparr>\<rparr>)"
  have enc: "encrypt_and_hash lib p sy = (?sy, Inr ct)"
    using assms(3) k n ct by (simp add: encrypt_and_hash_def encrypt_some)
  have "cipher_decrypt lib ct (sy_hash sy) (sy_cipher sy) = ((sy_cipher sy)\<lparr>cs_nonce := Suc ?n\<rparr>, Inr p)"
    using k n ct by (simp add: cipher_decrypt_def receive_counter_def build_nonce)
  moreover have "ct \<noteq> []" using ct(2) by auto
  ultimately have dec: "decrypt_and_hash lib ct sy = (?sy, Inr p)"
    using assms(3) by (simp add: decrypt_and_hash_def)
  show thesis
    by (rule that [OF enc ct(2) dec]) (use assms k in \<open>auto simp: sy_ok_def has_cipher_key_def has_key_def\<close>)
qed

end
