(* ===== verification/Handshake.thy ===== *)
theory Handshake
  imports Noise
begin

text \<open>
  \<open>NoiseHandshakeState\<close> of \<open>crypto/noise.py\<close>: the three messages of the XX pattern, read and
  written token by token. The fresh ephemeral key that \<open>write_message\<close> generates is an argument.
  After a failure the object keeps what it had already changed, so every operation returns the
  state beside its result.
\<close>

datatype token = TE | TS | TEE | TES | TSE

definition XX_PATTERNS :: "token list list" where
  "XX_PATTERNS = [[TE], [TE, TEE, TS, TES], [TS, TSE]]"

record handshake =
  hs_role :: NoiseRole
  hs_static_private :: bytes
  hs_static_public :: bytes
  hs_ephemeral_private :: "bytes option"
  hs_ephemeral_public :: "bytes option"
  hs_remote_static :: "bytes option"
  hs_remote_ephemeral :: "bytes option"
  hs_symmetric :: symmetric
  hs_current :: nat

definition NoiseHandshakeState :: "crypto_lib \<Rightarrow> NoiseRole \<Rightarrow> bytes \<Rightarrow> bytes option \<Rightarrow> exn + handshake" where
  "NoiseHandshakeState lib role local_static_private remote_static_public =
     (case x25519_public_key_from_private lib local_static_private of
        Inl e \<Rightarrow> Inl e
      | Inr static_public \<Rightarrow>
          Inr \<lparr>hs_role = role, hs_static_private = local_static_private, hs_static_public = static_public,
               hs_ephemeral_private = None, hs_ephemeral_public = None,
               hs_remote_static = remote_static_public, hs_remote_ephemeral = None,
               hs_symmetric = mix_hash [] (NoiseSymmetricState NOISE_PROTOCOL_NAME), hs_current = 0\<rparr>)"

definition is_handshake_complete :: "handshake \<Rightarrow> bool" where
  "is_handshake_complete hs \<longleftrightarrow> hs_current hs \<ge> length XX_PATTERNS"

definition get_transport_ciphers :: "handshake \<Rightarrow> exn + (cipher \<times> cipher)" where
  "get_transport_ciphers hs =
     (if \<not> is_handshake_complete hs then Inl NoiseStateError
      else case split_ciphers (hs_symmetric hs) of
             Inl e \<Rightarrow> Inl e
           | Inr (c1, c2) \<Rightarrow> Inr (if hs_role hs = INITIATOR then (c1, c2) else (c2, c1)))"

definition get_remote_static_public_key :: "handshake \<Rightarrow> bytes option" where
  "get_remote_static_public_key hs = hs_remote_static hs"

definition get_handshake_hash :: "handshake \<Rightarrow> bytes" where
  "get_handshake_hash hs = sy_hash (hs_symmetric hs)"

definition dh_mix_key :: "crypto_lib \<Rightarrow> bytes option \<Rightarrow> bytes option \<Rightarrow> handshake \<Rightarrow> handshake \<times> (exn + unit)" where
  "dh_mix_key lib local_private remote_public hs =
     (case local_private of
        None \<Rightarrow> (hs, Inl NoiseError)
      | Some k \<Rightarrow>
          case remote_public of
            None \<Rightarrow> (hs, Inl NoiseError)
          | Some K \<Rightarrow>
              case diffie_hellman lib k K of
                Inl e \<Rightarrow> (hs, Inl e)
              | Inr shared \<Rightarrow>
                  case mix_key shared (hs_symmetric hs) of (sy, r) \<Rightarrow> (hs\<lparr>hs_symmetric := sy\<rparr>, r))"

text \<open>The three key agreements, the same for the writer and the reader.\<close>

definition dh_ee :: "crypto_lib \<Rightarrow> handshake \<Rightarrow> handshake \<times> (exn + unit)" where
  "dh_ee lib hs = dh_mix_key lib (hs_ephemeral_private hs) (hs_remote_ephemeral hs) hs"

definition dh_es :: "crypto_lib \<Rightarrow> handshake \<Rightarrow> handshake \<times> (exn + unit)" where
  "dh_es lib hs =
     (if hs_role hs = INITIATOR then dh_mix_key lib (hs_ephemeral_private hs) (hs_remote_static hs) hs
      else dh_mix_key lib (Some (hs_static_private hs)) (hs_remote_ephemeral hs) hs)"

definition dh_se :: "crypto_lib \<Rightarrow> handshake \<Rightarrow> handshake \<times> (exn + unit)" where
  "dh_se lib hs =
     (if hs_role hs = INITIATOR then dh_mix_key lib (Some (hs_static_private hs)) (hs_remote_ephemeral hs) hs
      else dh_mix_key lib (hs_ephemeral_private hs) (hs_remote_static hs) hs)"

text \<open>Writing a token gives the octets it appends to the message.\<close>

fun write_token :: "crypto_lib \<Rightarrow> bytes \<Rightarrow> token \<Rightarrow> handshake \<Rightarrow> handshake \<times> (exn + bytes)" where
  "write_token lib fresh TE hs =
     (let hs1 = hs\<lparr>hs_ephemeral_private := Some fresh\<rparr> in
      case x25519_public_key_from_private lib fresh of
        Inl e \<Rightarrow> (hs1, Inl e)
      | Inr K \<Rightarrow> (hs1\<lparr>hs_ephemeral_public := Some K, hs_symmetric := mix_hash K (hs_symmetric hs1)\<rparr>, Inr K))"
| "write_token lib fresh TS hs =
     (case encrypt_and_hash lib (hs_static_public hs) (hs_symmetric hs) of
        (sy, r) \<Rightarrow> (hs\<lparr>hs_symmetric := sy\<rparr>, r))"
| "write_token lib fresh TEE hs = (case dh_ee lib hs of (hs', Inl e) \<Rightarrow> (hs', Inl e) | (hs', Inr _) \<Rightarrow> (hs', Inr []))"
| "write_token lib fresh TES hs = (case dh_es lib hs of (hs', Inl e) \<Rightarrow> (hs', Inl e) | (hs', Inr _) \<Rightarrow> (hs', Inr []))"
| "write_token lib fresh TSE hs = (case dh_se lib hs of (hs', Inl e) \<Rightarrow> (hs', Inl e) | (hs', Inr _) \<Rightarrow> (hs', Inr []))"

fun write_tokens :: "crypto_lib \<Rightarrow> bytes \<Rightarrow> token list \<Rightarrow> bytes \<Rightarrow> handshake \<Rightarrow> handshake \<times> (exn + bytes)" where
  "write_tokens lib fresh [] buffer hs = (hs, Inr buffer)"
| "write_tokens lib fresh (t # ts) buffer hs =
     (case write_token lib fresh t hs of
        (hs', Inl e) \<Rightarrow> (hs', Inl e)
      | (hs', Inr bs) \<Rightarrow> write_tokens lib fresh ts (buffer @ bs) hs')"

definition write_message :: "crypto_lib \<Rightarrow> bytes \<Rightarrow> bytes \<Rightarrow> handshake \<Rightarrow> handshake \<times> (exn + bytes)" where
  "write_message lib fresh payload hs =
     (if is_handshake_complete hs then (hs, Inl NoiseStateError)
      else case write_tokens lib fresh (XX_PATTERNS ! hs_current hs) [] hs of
             (hs1, Inl e) \<Rightarrow> (hs1, Inl e)
           | (hs1, Inr buffer) \<Rightarrow>
               case encrypt_and_hash lib payload (hs_symmetric hs1) of
                 (sy, Inl e) \<Rightarrow> (hs1\<lparr>hs_symmetric := sy\<rparr>, Inl e)
               | (sy, Inr encrypted) \<Rightarrow>
                   (hs1\<lparr>hs_symmetric := sy, hs_current := hs_current hs1 + 1\<rparr>, Inr (buffer @ encrypted)))"

text \<open>Reading a token consumes the message from an offset and gives the new offset.\<close>

fun read_token :: "crypto_lib \<Rightarrow> bytes \<Rightarrow> token \<Rightarrow> nat \<Rightarrow> handshake \<Rightarrow> handshake \<times> (exn + nat)" where
  "read_token lib message TE offset hs =
     (if offset + DH_KEY_SIZE > length message then (hs, Inl NoiseError)
      else let ephemeral = py_slice offset (offset + DH_KEY_SIZE) message in
        (hs\<lparr>hs_remote_ephemeral := Some ephemeral, hs_symmetric := mix_hash ephemeral (hs_symmetric hs)\<rparr>,
         Inr (offset + DH_KEY_SIZE)))"
| "read_token lib message TS offset hs =
     (let key_len = (if has_cipher_key (hs_symmetric hs) then DH_KEY_SIZE + TAG_SIZE else DH_KEY_SIZE) in
      if offset + key_len > length message then (hs, Inl NoiseError)
      else case decrypt_and_hash lib (py_slice offset (offset + key_len) message) (hs_symmetric hs) of
             (sy, Inl e) \<Rightarrow> (hs\<lparr>hs_symmetric := sy\<rparr>, Inl e)
           | (sy, Inr static) \<Rightarrow>
               if length static \<noteq> DH_KEY_SIZE then (hs\<lparr>hs_symmetric := sy\<rparr>, Inl AuthenticationError)
               else case except_as [InvalidKeyError] AuthenticationError (validate_public_key lib static) of
                      Inl e \<Rightarrow> (hs\<lparr>hs_symmetric := sy\<rparr>, Inl e)
                    | Inr validated \<Rightarrow>
                        (hs\<lparr>hs_symmetric := sy, hs_remote_static := Some validated\<rparr>, Inr (offset + key_len)))"
| "read_token lib message TEE offset hs = (case dh_ee lib hs of (hs', Inl e) \<Rightarrow> (hs', Inl e) | (hs', Inr _) \<Rightarrow> (hs', Inr offset))"
| "read_token lib message TES offset hs = (case dh_es lib hs of (hs', Inl e) \<Rightarrow> (hs', Inl e) | (hs', Inr _) \<Rightarrow> (hs', Inr offset))"
| "read_token lib message TSE offset hs = (case dh_se lib hs of (hs', Inl e) \<Rightarrow> (hs', Inl e) | (hs', Inr _) \<Rightarrow> (hs', Inr offset))"

fun read_tokens :: "crypto_lib \<Rightarrow> bytes \<Rightarrow> token list \<Rightarrow> nat \<Rightarrow> handshake \<Rightarrow> handshake \<times> (exn + nat)" where
  "read_tokens lib message [] offset hs = (hs, Inr offset)"
| "read_tokens lib message (t # ts) offset hs =
     (case read_token lib message t offset hs of
        (hs', Inl e) \<Rightarrow> (hs', Inl e)
      | (hs', Inr offset') \<Rightarrow> read_tokens lib message ts offset' hs')"

definition read_message :: "crypto_lib \<Rightarrow> bytes \<Rightarrow> handshake \<Rightarrow> handshake \<times> (exn + bytes)" where
  "read_message lib message hs =
     (if is_handshake_complete hs then (hs, Inl NoiseStateError)
      else case read_tokens lib message (XX_PATTERNS ! hs_current hs) 0 hs of
             (hs1, Inl e) \<Rightarrow> (hs1, Inl e)
           | (hs1, Inr offset) \<Rightarrow>
               case decrypt_and_hash lib (drop offset message) (hs_symmetric hs1) of
                 (sy, Inl e) \<Rightarrow> (hs1\<lparr>hs_symmetric := sy\<rparr>, Inl e)
               | (sy, Inr payload) \<Rightarrow>
                   (hs1\<lparr>hs_symmetric := sy, hs_current := hs_current hs1 + 1\<rparr>, Inr payload))"

subsection \<open>The messages of an honest run\<close>

definition key_pair :: "crypto_lib \<Rightarrow> bytes \<Rightarrow> bytes \<Rightarrow> bool" where
  "key_pair lib k K \<longleftrightarrow> x25519_public_key_from_private lib k = Inr K \<and> validate_public_key lib K = Inr K"

definition chacha_ok :: "crypto_lib \<Rightarrow> bool" where
  "chacha_ok lib \<longleftrightarrow> aead_laws (lib_chacha_encrypt lib) (lib_chacha_decrypt lib)"

lemma key_pair_length: "key_pair lib k K \<Longrightarrow> length K = 32"
  by (auto simp: key_pair_def dest: length_validated)

lemma dh_mix_key_some:
  assumes "diffie_hellman lib k K = Inr shared"
  shows "dh_mix_key lib (Some k) (Some K) hs =
    (hs\<lparr>hs_symmetric := fst (mix_key shared (hs_symmetric hs))\<rparr>, snd (mix_key shared (hs_symmetric hs)))"
  using assms by (simp add: dh_mix_key_def split: prod.split)

lemma message1:
  assumes "hs_current hi = 0" "hs_current hr = 0" "hs_symmetric hr = hs_symmetric hi" "\<not> has_cipher_key (hs_symmetric hi)"
    and "x25519_public_key_from_private lib e = Inr E" "length E = 32"
  shows "write_message lib e [] hi = (hi\<lparr>hs_ephemeral_private := Some e, hs_ephemeral_public := Some E,
      hs_symmetric := mix_hash [] (mix_hash E (hs_symmetric hi)), hs_current := 1\<rparr>, Inr E)"
    "read_message lib E hr = (hr\<lparr>hs_remote_ephemeral := Some E,
      hs_symmetric := mix_hash [] (mix_hash E (hs_symmetric hi)), hs_current := 1\<rparr>, Inr [])"
  using assms
  by (simp_all add: write_message_def read_message_def is_handshake_complete_def XX_PATTERNS_def Let_def
      encrypt_and_hash_def decrypt_and_hash_def DH_KEY_SIZE_def py_slice_def)


lemma drop_two: "length xs = n \<Longrightarrow> length ys = m \<Longrightarrow> drop (n + m) (xs @ ys @ zs) = zs"
  by simp

text \<open>The second message: the responder's ephemeral key, its sealed static key and a sealed empty payload.\<close>

lemma message2:
  assumes lib: "chacha_ok lib" "sy_ok s"
    and hr: "hs_current hr = 1" "hs_role hr = RESPONDER" "hs_static_private hr = sr" "hs_static_public hr = SR"
      "hs_remote_ephemeral hr = Some EI" "hs_symmetric hr = s"
    and hi: "hs_current hi = 1" "hs_role hi = INITIATOR" "hs_ephemeral_private hi = Some ei" "hs_symmetric hi = s"
    and keys: "x25519_public_key_from_private lib er = Inr ER" "length ER = 32" "validate_public_key lib SR = Inr SR"
    and dh: "diffie_hellman lib er EI = Inr ee" "diffie_hellman lib ei ER = Inr ee"
      "diffie_hellman lib sr EI = Inr es" "diffie_hellman lib ei SR = Inr es"
  obtains c1 c2 s' where
    "write_message lib er [] hr = (hr\<lparr>hs_ephemeral_private := Some er, hs_ephemeral_public := Some ER,
       hs_symmetric := s', hs_current := 2\<rparr>, Inr (ER @ c1 @ c2))"
    "read_message lib (ER @ c1 @ c2) hi = (hi\<lparr>hs_remote_ephemeral := Some ER, hs_remote_static := Some SR,
       hs_symmetric := s', hs_current := 2\<rparr>, Inr [])"
    "length c1 = 48" "length c2 = 16" "sy_ok s'" "has_cipher_key s'" "cs_nonce (sy_cipher s') = 1"
proof -
  have SR: "length SR = 32" using keys(3) by (auto dest: length_validated)
  let ?s1 = "mix_hash ER s"
  obtain s2 k2 where s2: "mix_key ee ?s1 = (s2, Inr ())" "sy_ok s2" "has_cipher_key s2" "cs_nonce (sy_cipher s2) = 0"
    using mix_key_total [OF sy_ok_mix_hash [OF lib(2)]] by metis
  obtain c1 s3 where s3: "encrypt_and_hash lib SR s2 = (s3, Inr c1)" "length c1 = 48"
    "decrypt_and_hash lib c1 s2 = (s3, Inr SR)" "sy_ok s3"
    by (rule encrypt_decrypt_and_hash [OF lib(1) [unfolded chacha_ok_def] s2(2,3), of SR]) (use s2 SR in auto)
  obtain s4 k4 where s4: "mix_key es s3 = (s4, Inr ())" "sy_ok s4" "has_cipher_key s4" "cs_nonce (sy_cipher s4) = 0"
    using mix_key_total [OF s3(4)] by metis
  obtain c2 s5 where s5: "encrypt_and_hash lib [] s4 = (s5, Inr c2)" "length c2 = 16"
    "decrypt_and_hash lib c2 s4 = (s5, Inr [])" "sy_ok s5" "has_cipher_key s5" "cs_nonce (sy_cipher s5) = 1"
    by (rule encrypt_decrypt_and_hash [OF lib(1) [unfolded chacha_ok_def] s4(2,3), of "[]"]) (use s4 in auto)
  have slices: "py_slice 0 32 (ER @ c1 @ c2) = ER" "py_slice 32 80 (ER @ c1 @ c2) = c1" "drop 80 (ER @ c1 @ c2) = c2"
    using keys(2) s3(2) s5(2) by (simp_all add: py_slice_def)
  note steps = XX_PATTERNS_def is_handshake_complete_def Let_def DH_KEY_SIZE_def TAG_SIZE_def dh_ee_def dh_es_def
    dh_mix_key_some
  have "write_message lib er [] hr = (hr\<lparr>hs_ephemeral_private := Some er, hs_ephemeral_public := Some ER,
       hs_symmetric := s5, hs_current := 2\<rparr>, Inr (ER @ c1 @ c2))"
    by (simp add: write_message_def steps hr keys dh s2 s3 s4 s5)
  moreover have "read_message lib (ER @ c1 @ c2) hi = (hi\<lparr>hs_remote_ephemeral := Some ER, hs_remote_static := Some SR,
       hs_symmetric := s5, hs_current := 2\<rparr>, Inr [])"
    by (simp add: read_message_def steps hi keys SR dh s2 s3 s4 s5 slices)
  ultimately show thesis using s3(2) s5 by (intro that) auto
qed

text \<open>
  The third message of an initiator that presents the static key \<open>V\<close>: the reader recovers \<open>V\<close> from
  the first 48 octets alone, and the rest only has to be empty or sealed under the agreed key.
\<close>

lemma message3_static:
  assumes lib: "chacha_ok lib" "sy_ok s" "has_cipher_key s" "cs_nonce (sy_cipher s) = 1"
    and hr: "hs_current hr = 2" "hs_role hr = RESPONDER" "hs_ephemeral_private hr = Some er" "hs_symmetric hr = s"
    and V: "validate_public_key lib V = Inr V" "diffie_hellman lib er V = Inr se"
  obtains c1 s3 s4 where "encrypt_and_hash lib V s = (s3, Inr c1)" "length c1 = 48" "mix_key se s3 = (s4, Inr ())"
    "sy_ok s3" "sy_ok s4" "has_cipher_key s4" "cs_nonce (sy_cipher s4) = 0"
    "\<And>rest sy payload. decrypt_and_hash lib rest s4 = (sy, Inr payload) \<Longrightarrow>
       read_message lib (c1 @ rest) hr = (hr\<lparr>hs_remote_static := Some V, hs_symmetric := sy, hs_current := 3\<rparr>, Inr payload)"
proof -
  have len: "length V = 32" using V(1) by (auto dest: length_validated)
  obtain c1 s3 where s3: "encrypt_and_hash lib V s = (s3, Inr c1)" "length c1 = 48"
    "decrypt_and_hash lib c1 s = (s3, Inr V)" "sy_ok s3"
    by (rule encrypt_decrypt_and_hash [OF lib(1) [unfolded chacha_ok_def] lib(2,3), of V]) (use lib len in auto)
  obtain s4 k4 where s4: "mix_key se s3 = (s4, Inr ())" "sy_ok s4" "has_cipher_key s4" "cs_nonce (sy_cipher s4) = 0"
    using mix_key_total [OF s3(4)] by metis
  have slices: "py_slice 0 48 (c1 @ rest) = c1" "drop 48 (c1 @ rest) = rest" for rest
    using s3(2) by (simp_all add: py_slice_def)
  note steps = XX_PATTERNS_def is_handshake_complete_def Let_def DH_KEY_SIZE_def TAG_SIZE_def dh_se_def dh_mix_key_some
  have "read_message lib (c1 @ rest) hr = (hr\<lparr>hs_remote_static := Some V, hs_symmetric := sy, hs_current := 3\<rparr>, Inr payload)"
    if "decrypt_and_hash lib rest s4 = (sy, Inr payload)" for rest sy payload
    using that by (simp add: read_message_def steps hr lib V len s3 s4 slices)
  with s3 s4 show thesis by (intro that)
qed

lemma message3:
  assumes lib: "chacha_ok lib" "sy_ok s" "has_cipher_key s" "cs_nonce (sy_cipher s) = 1"
    and hr: "hs_current hr = 2" "hs_role hr = RESPONDER" "hs_ephemeral_private hr = Some er" "hs_symmetric hr = s"
    and hi: "hs_current hi = 2" "hs_role hi = INITIATOR" "hs_static_private hi = si" "hs_static_public hi = SI"
      "hs_remote_ephemeral hi = Some ER" "hs_symmetric hi = s"
    and SI: "validate_public_key lib SI = Inr SI" "diffie_hellman lib er SI = Inr se" "diffie_hellman lib si ER = Inr se"
  obtains m s' where
    "write_message lib fresh [] hi = (hi\<lparr>hs_symmetric := s', hs_current := 3\<rparr>, Inr m)" "length m = 64"
    "read_message lib m hr = (hr\<lparr>hs_remote_static := Some SI, hs_symmetric := s', hs_current := 3\<rparr>, Inr [])" "sy_ok s'"
proof -
  obtain c1 s3 s4 where st: "encrypt_and_hash lib SI s = (s3, Inr c1)" "length c1 = 48" "mix_key se s3 = (s4, Inr ())"
    "sy_ok s3" "sy_ok s4" "has_cipher_key s4" "cs_nonce (sy_cipher s4) = 0"
    and read: "\<And>rest sy payload. decrypt_and_hash lib rest s4 = (sy, Inr payload) \<Longrightarrow>
       read_message lib (c1 @ rest) hr = (hr\<lparr>hs_remote_static := Some SI, hs_symmetric := sy, hs_current := 3\<rparr>, Inr payload)"
    by (rule message3_static [OF lib hr SI(1,2)]) (rule that, assumption+)
  obtain c2 s5 where s5: "encrypt_and_hash lib [] s4 = (s5, Inr c2)" "length c2 = 16"
    "decrypt_and_hash lib c2 s4 = (s5, Inr [])" "sy_ok s5"
    by (rule encrypt_decrypt_and_hash [OF lib(1) [unfolded chacha_ok_def] st(5,6), of "[]"]) (use st in auto)
  have "write_message lib fresh [] hi = (hi\<lparr>hs_symmetric := s5, hs_current := 3\<rparr>, Inr (c1 @ c2))"
    by (simp add: write_message_def XX_PATTERNS_def is_handshake_complete_def dh_se_def dh_mix_key_some hi SI st s5)
  with read [OF s5(3)] st(2) s5 show thesis by (intro that) auto
qed

end
