(* ===== verification/Sessions.thy ===== *)
theory Sessions
  imports Handshake
begin

text \<open>
  \<open>NoiseSession\<close> of \<open>crypto/sessions.py\<close>: one peer's handshake and transport ciphers behind a state
  machine. Every method returns the new session and its result; the fresh ephemeral key that a
  handshake message may need is an argument.
\<close>

record session =
  se_identity :: identity
  se_remote_peer_id :: string
  se_role :: NoiseRole
  se_state :: NoiseSessionState
  se_handshake :: "handshake option"
  se_send_cipher :: "cipher option"
  se_recv_cipher :: "cipher option"
  se_remote_static :: "bytes option"
  se_handshake_hash :: "bytes option"
  se_remote_fingerprint :: "string option"

definition NoiseSession :: "identity \<Rightarrow> string \<Rightarrow> NoiseRole option \<Rightarrow> exn + session" where
  "NoiseSession local_identity remote_peer_id role =
     (case (case role of Some r \<Rightarrow> Inr r
            | None \<Rightarrow> determine_handshake_role (peer_id_hex local_identity) remote_peer_id) of
        Inl e \<Rightarrow> Inl e
      | Inr r \<Rightarrow> Inr \<lparr>se_identity = local_identity, se_remote_peer_id = remote_peer_id, se_role = r,
          se_state = UNINITIALIZED, se_handshake = None, se_send_cipher = None, se_recv_cipher = None,
          se_remote_static = None, se_handshake_hash = None, se_remote_fingerprint = None\<rparr>)"

definition is_established :: "session \<Rightarrow> bool" where
  "is_established se \<longleftrightarrow> se_state se = ESTABLISHED"

definition start_handshake :: "crypto_lib \<Rightarrow> bytes \<Rightarrow> session \<Rightarrow> session \<times> (exn + bytes option)" where
  "start_handshake lib fresh se =
     (if se_state se \<noteq> UNINITIALIZED then (se, Inl NoiseStateError)
      else case NoiseHandshakeState lib (se_role se) (id_x25519_private (se_identity se)) None of
             Inl e \<Rightarrow> (se, Inl e)
           | Inr hs \<Rightarrow>
               let se1 = se\<lparr>se_handshake := Some hs, se_state := HANDSHAKING\<rparr> in
               if se_role se = INITIATOR
               then (case write_message lib fresh [] hs of
                       (hs', Inl e) \<Rightarrow> (se1\<lparr>se_handshake := Some hs'\<rparr>, Inl e)
                     | (hs', Inr m) \<Rightarrow> (se1\<lparr>se_handshake := Some hs'\<rparr>, Inr (Some m)))
               else (se1, Inr None))"

text \<open>The remote peer identifier as octets, or the reason it is refused.\<close>

definition claimed_peer_id :: "string \<Rightarrow> bytes option" where
  "claimed_peer_id s = (if length s \<noteq> 16 then None else bytes_fromhex s)"

definition finalise_handshake :: "handshake \<Rightarrow> session \<Rightarrow> session \<times> (exn + unit)" where
  "finalise_handshake hs se =
     (let failed = se\<lparr>se_state := FAILED, se_handshake := None\<rparr> in
      case get_remote_static_public_key hs of
        None \<Rightarrow> (failed, Inl AuthenticationError)
      | Some remote \<Rightarrow>
          case claimed_peer_id (se_remote_peer_id se) of
            None \<Rightarrow> (failed, Inl AuthenticationError)
          | Some claimed \<Rightarrow>
              let authenticated = take 8 (sha256 remote) in
              if length claimed \<noteq> length authenticated \<or> authenticated \<noteq> claimed
              then (failed, Inl AuthenticationError)
              else if remote = id_x25519_public (se_identity se) then (failed, Inl AuthenticationError)
              else case get_transport_ciphers hs of
                     Inl e \<Rightarrow> (se, Inl e)
                   | Inr (send, recv) \<Rightarrow>
                       (se\<lparr>se_send_cipher := Some send, se_recv_cipher := Some recv, se_remote_static := Some remote,
                           se_handshake_hash := Some (get_handshake_hash hs),
                           se_remote_fingerprint := Some (calculate_fingerprint remote),
                           se_handshake := None, se_state := ESTABLISHED\<rparr>, Inr ()))"

text \<open>A responder without a handshake starts one with the first message.\<close>

definition auto_initialise :: "crypto_lib \<Rightarrow> session \<Rightarrow> session \<times> (exn + unit)" where
  "auto_initialise lib se =
     (if se_state se = UNINITIALIZED \<and> se_role se = RESPONDER
      then (case NoiseHandshakeState lib (se_role se) (id_x25519_private (se_identity se)) None of
              Inl e \<Rightarrow> (se, Inl e)
            | Inr hs \<Rightarrow> (se\<lparr>se_handshake := Some hs, se_state := HANDSHAKING\<rparr>, Inr ()))
      else (se, Inr ()))"

text \<open>Reading one message and writing the answer, if the handshake goes on.\<close>

definition read_and_respond ::
  "crypto_lib \<Rightarrow> bytes \<Rightarrow> bytes \<Rightarrow> handshake \<Rightarrow> handshake \<times> (exn + bytes option)" where
  "read_and_respond lib fresh message hs =
     (case read_message lib message hs of
        (hs1, Inl e) \<Rightarrow> (hs1, Inl e)
      | (hs1, Inr payload) \<Rightarrow>
          if is_handshake_complete hs1 then (hs1, Inr None)
          else case write_message lib fresh [] hs1 of
                 (hs2, Inl e) \<Rightarrow> (hs2, Inl e)
               | (hs2, Inr m) \<Rightarrow> (hs2, Inr (Some m)))"

definition process_body :: "crypto_lib \<Rightarrow> bytes \<Rightarrow> bytes \<Rightarrow> session \<Rightarrow> session \<times> (exn + bytes option)" where
  "process_body lib fresh message se =
     (case auto_initialise lib se of
        (se0, Inl e) \<Rightarrow> (se0, Inl e)
      | (se0, Inr _) \<Rightarrow>
          if se_state se0 \<noteq> HANDSHAKING then (se0, Inl NoiseStateError)
          else case se_handshake se0 of
                 None \<Rightarrow> (se0, Inl NoiseStateError)
               | Some hs \<Rightarrow>
                   case read_and_respond lib fresh message hs of
                     (hs1, Inl e) \<Rightarrow> (se0\<lparr>se_handshake := Some hs1\<rparr>, Inl e)
                   | (hs1, Inr response) \<Rightarrow>
                       let se1 = se0\<lparr>se_handshake := Some hs1\<rparr> in
                       if is_handshake_complete hs1
                       then (case finalise_handshake hs1 se1 of
                               (se2, Inl e) \<Rightarrow> (se2, Inl e)
                             | (se2, Inr _) \<Rightarrow> (se2, Inr response))
                       else (se1, Inr response))"

definition process_handshake_message ::
  "crypto_lib \<Rightarrow> bytes \<Rightarrow> bytes \<Rightarrow> session \<Rightarrow> session \<times> (exn + bytes option)" where
  "process_handshake_message lib fresh message se =
     (case process_body lib fresh message se of
        (se', Inl e) \<Rightarrow> (se'\<lparr>se_state := FAILED\<rparr>, Inl e)
      | (se', Inr response) \<Rightarrow> (se', Inr response))"

definition session_encrypt :: "crypto_lib \<Rightarrow> bytes \<Rightarrow> session \<Rightarrow> session \<times> (exn + bytes)" where
  "session_encrypt lib plaintext se =
     (if se_state se \<noteq> ESTABLISHED then (se, Inl NoiseStateError)
      else case se_send_cipher se of
             None \<Rightarrow> (se, Inl NoiseStateError)
           | Some c \<Rightarrow> case cipher_encrypt lib plaintext [] c of (c', r) \<Rightarrow> (se\<lparr>se_send_cipher := Some c'\<rparr>, r))"

definition session_decrypt :: "crypto_lib \<Rightarrow> bytes \<Rightarrow> session \<Rightarrow> session \<times> (exn + bytes)" where
  "session_decrypt lib ciphertext se =
     (if se_state se \<noteq> ESTABLISHED then (se, Inl NoiseStateError)
      else case se_recv_cipher se of
             None \<Rightarrow> (se, Inl NoiseStateError)
           | Some c \<Rightarrow> case cipher_decrypt lib ciphertext [] c of (c', r) \<Rightarrow> (se\<lparr>se_recv_cipher := Some c'\<rparr>, r))"

definition session_close :: "session \<Rightarrow> session" where
  "session_close se = se\<lparr>se_send_cipher := None, se_recv_cipher := None, se_handshake := None, se_state := CLOSED\<rparr>"

subsection \<open>The state machine\<close>

datatype session_event =
    Start bytes | Handshake_Message bytes bytes | Encrypt bytes | Decrypt bytes | Close

fun session_step :: "crypto_lib \<Rightarrow> session \<Rightarrow> session_event \<Rightarrow> session \<times> (exn + bytes option)" where
  "session_step lib se (Start fresh) = start_handshake lib fresh se"
| "session_step lib se (Handshake_Message fresh m) = process_handshake_message lib fresh m se"
| "session_step lib se (Encrypt p) = (case session_encrypt lib p se of (se', r) \<Rightarrow> (se', map_sum id Some r))"
| "session_step lib se (Decrypt c) = (case session_decrypt lib c se of (se', r) \<Rightarrow> (se', map_sum id Some r))"
| "session_step lib se Close = (session_close se, Inr None)"

text \<open>
  An established session has both ciphers, no handshake left, and a remote key whose hash is the
  claimed peer identifier and which is not the session's own.
\<close>

definition cipher_ready :: "cipher option \<Rightarrow> bool" where
  "cipher_ready c \<longleftrightarrow> (\<exists>c'. c = Some c' \<and> receiver_ok c')"

definition established_ok :: "session \<Rightarrow> bool" where
  "established_ok se \<longleftrightarrow> cipher_ready (se_send_cipher se) \<and> cipher_ready (se_recv_cipher se) \<and> se_handshake se = None \<and>
     se_handshake_hash se \<noteq> None \<and>
     (\<exists>S. se_remote_static se = Some S \<and> se_remote_fingerprint se = Some (calculate_fingerprint S) \<and>
        claimed_peer_id (se_remote_peer_id se) = Some (take 8 (sha256 S)) \<and> S \<noteq> id_x25519_public (se_identity se))"

fun state_ok :: "session \<Rightarrow> bool" where
  "state_ok se = (case se_state se of
     UNINITIALIZED \<Rightarrow> se_handshake se = None \<and> se_send_cipher se = None \<and> se_recv_cipher se = None
   | HANDSHAKING \<Rightarrow> se_handshake se \<noteq> None \<and> se_send_cipher se = None \<and> se_recv_cipher se = None
   | ESTABLISHED \<Rightarrow> established_ok se
   | FAILED \<Rightarrow> True
   | CLOSED \<Rightarrow> se_handshake se = None \<and> se_send_cipher se = None \<and> se_recv_cipher se = None)"

declare state_ok.simps [simp del]


lemma split_ready:
  assumes "split_ciphers sy = Inr (c1, c2)"
  shows "receiver_ok c1 \<and> receiver_ok c2"
  using assms by (auto simp: split_ciphers_def split: sum.splits)

lemma transport_ready: "get_transport_ciphers hs = Inr (c1, c2) \<Longrightarrow> receiver_ok c1 \<and> receiver_ok c2"
  by (auto simp: get_transport_ciphers_def split: if_splits sum.splits dest: split_ready)

lemma encrypt_fields:
  "cs_key (fst (cipher_encrypt lib p a c)) = cs_key c" "cs_extracted (fst (cipher_encrypt lib p a c)) = cs_extracted c"
  "cs_window (fst (cipher_encrypt lib p a c)) = cs_window c" "cs_highest (fst (cipher_encrypt lib p a c)) = cs_highest c"
  by (simp_all add: cipher_encrypt_def Let_def split: option.split sum.split)

lemma encrypt_ready: "receiver_ok c \<Longrightarrow> receiver_ok (fst (cipher_encrypt lib p a c))"
  by (simp add: receiver_ok_def window_ok_def encrypt_fields)

lemma decrypt_ready: "receiver_ok c \<Longrightarrow> receiver_ok (fst (cipher_decrypt lib ct a c))"
  using receiver.step_inv [of c lib "(ct, a)"] by (simp add: receive_step_def)

lemma finalise_ok:
  assumes "finalise_handshake hs se = (se', Inr u)"
  shows "se_state se' = ESTABLISHED \<and> established_ok se'"
  using assms
  by (auto simp: finalise_handshake_def Let_def established_ok_def cipher_ready_def
      split: option.splits sum.splits if_splits dest: transport_ready)

lemma auto_initialise_cases:
  "fst (auto_initialise lib se) = se \<or>
   (se_state se = UNINITIALIZED \<and> (\<exists>hs. fst (auto_initialise lib se) = se\<lparr>se_handshake := Some hs, se_state := HANDSHAKING\<rparr>))"
  by (simp add: auto_initialise_def split: sum.split) blast

lemma auto_initialise_ok: "state_ok se \<Longrightarrow> state_ok (fst (auto_initialise lib se))"
  using auto_initialise_cases [of lib se] by (elim disjE) (simp, auto simp: state_ok.simps)

text \<open>The body either fails, goes on handshaking or establishes the session.\<close>

lemma process_body_ok:
  assumes "state_ok se" "process_body lib fresh m se = (se', Inr r)"
  shows "state_ok se' \<and> (se_state se' = HANDSHAKING \<or> se_state se' = ESTABLISHED)"
proof -
  have "state_ok (fst (auto_initialise lib se))" by (rule auto_initialise_ok [OF assms(1)])
  then show ?thesis using assms(2)
    by (auto simp: process_body_def Let_def state_ok.simps split: prod.splits sum.splits if_splits option.splits
        dest!: finalise_ok)
qed

lemma process_ok:
  assumes "state_ok se"
  shows "state_ok (fst (process_handshake_message lib fresh m se))"
  using process_body_ok [OF assms, of lib fresh m]
  by (auto simp: process_handshake_message_def state_ok.simps split: prod.splits sum.splits)

lemma start_ok: "state_ok se \<Longrightarrow> state_ok (fst (start_handshake lib fresh se))"
  by (cases "se_state se = UNINITIALIZED")
     (auto simp: start_handshake_def Let_def state_ok.simps split: sum.split prod.split)

text \<open>Encrypting and decrypting only change a cipher of an established session.\<close>

lemma session_encrypt_cases:
  obtains (refused) "session_encrypt lib p se = (se, Inl NoiseStateError)"
  | (changed) c where "se_state se = ESTABLISHED" "se_send_cipher se = Some c"
      "session_encrypt lib p se = (se\<lparr>se_send_cipher := Some (fst (cipher_encrypt lib p [] c))\<rparr>, snd (cipher_encrypt lib p [] c))"
  by (cases "se_state se = ESTABLISHED"; cases "se_send_cipher se") (auto simp: session_encrypt_def split: prod.split)

lemma session_decrypt_cases:
  obtains (refused) "session_decrypt lib p se = (se, Inl NoiseStateError)"
  | (changed) c where "se_state se = ESTABLISHED" "se_recv_cipher se = Some c"
      "session_decrypt lib p se = (se\<lparr>se_recv_cipher := Some (fst (cipher_decrypt lib p [] c))\<rparr>, snd (cipher_decrypt lib p [] c))"
  by (cases "se_state se = ESTABLISHED"; cases "se_recv_cipher se") (auto simp: session_decrypt_def split: prod.split)

lemma state_ok_established: "se_state se = ESTABLISHED \<Longrightarrow> state_ok se \<longleftrightarrow> established_ok se"
  by (simp add: state_ok.simps)

lemma session_encrypt_ok: "state_ok se \<Longrightarrow> state_ok (fst (session_encrypt lib p se))"
  by (cases rule: session_encrypt_cases [of lib p se])
     (auto simp: state_ok_established established_ok_def cipher_ready_def encrypt_ready)

lemma session_decrypt_ok: "state_ok se \<Longrightarrow> state_ok (fst (session_decrypt lib c se))"
  by (cases rule: session_decrypt_cases [of lib c se])
     (auto simp: state_ok_established established_ok_def cipher_ready_def decrypt_ready)

lemma session_close_ok: "state_ok (session_close se)"
  by (simp add: session_close_def state_ok.simps)

lemma session_step_fst [simp]:
  "fst (session_step lib se (Encrypt p)) = fst (session_encrypt lib p se)"
  "fst (session_step lib se (Decrypt c)) = fst (session_decrypt lib c se)"
  by (simp_all split: prod.split)

lemma session_step_ok: "state_ok se \<Longrightarrow> state_ok (fst (session_step lib se ev))"
  by (cases ev) (simp_all add: session_encrypt_ok session_decrypt_ok start_ok process_ok session_close_ok
      del: session_step.simps(3,4))

interpretation sessions: machine "session_step lib" state_ok for lib
  by unfold_locales (rule session_step_ok)

lemma state_ok_new: "NoiseSession i pid role = Inr se \<Longrightarrow> state_ok se"
  by (auto simp: NoiseSession_def state_ok.simps split: sum.splits option.splits)


lemma dh_mix_key_current: "hs_current (fst (dh_mix_key lib k K hs)) = hs_current hs"
  by (auto simp: dh_mix_key_def split: option.split sum.split prod.split)

lemma dh_current:
  "hs_current (fst (dh_ee lib hs)) = hs_current hs" "hs_current (fst (dh_es lib hs)) = hs_current hs"
  "hs_current (fst (dh_se lib hs)) = hs_current hs"
  by (simp_all add: dh_ee_def dh_es_def dh_se_def dh_mix_key_current)

lemma fst_case_sum: "fst (case x of (a, Inl e) \<Rightarrow> (a, Inl e) | (a, Inr b) \<Rightarrow> (a, Inr (f b))) = fst x"
  by (auto split: prod.split sum.split)

lemma read_token_current: "hs_current (fst (read_token lib m t n hs)) = hs_current hs"
  by (cases t) (auto simp: fst_case_sum dh_current Let_def split: prod.split sum.split)

lemma write_token_current: "hs_current (fst (write_token lib fresh t hs)) = hs_current hs"
  by (cases t) (auto simp: fst_case_sum dh_current Let_def split: prod.split sum.split)

lemma read_tokens_current: "hs_current (fst (read_tokens lib m ts n hs)) = hs_current hs"
proof (induction ts arbitrary: n hs)
  case (Cons t ts)
  with read_token_current [of lib m t n hs] show ?case by (auto split: prod.split sum.split)
qed simp

lemma write_tokens_current: "hs_current (fst (write_tokens lib fresh ts buf hs)) = hs_current hs"
proof (induction ts arbitrary: buf hs)
  case (Cons t ts)
  with write_token_current [of lib fresh t hs] show ?case by (auto split: prod.split sum.split)
qed simp

lemma read_message_current:
  assumes "read_message lib m hs = (hs', Inr p)"
  shows "hs_current hs' = Suc (hs_current hs)"
  using assms read_tokens_current [of lib m "XX_PATTERNS ! hs_current hs" 0 hs]
  by (auto simp: read_message_def split: prod.splits sum.splits if_splits)

lemma write_message_current:
  assumes "write_message lib fresh pl hs = (hs', Inr p)"
  shows "hs_current hs' = Suc (hs_current hs)"
  using assms write_tokens_current [of lib fresh "XX_PATTERNS ! hs_current hs" "[]" hs]
  by (auto simp: write_message_def split: prod.splits sum.splits if_splits)

lemma respond_current:
  assumes "read_and_respond lib fresh m hs = (hs', Inr r)"
  shows "hs_current hs' \<le> hs_current hs + 2"
  using assms
  by (auto simp: read_and_respond_def split: prod.splits sum.splits if_splits
      dest!: read_message_current write_message_current)

text \<open>The life cycle of a session, one method call at a time.\<close>

inductive lifecycle :: "NoiseSessionState \<Rightarrow> NoiseSessionState \<Rightarrow> bool" where
  stay: "lifecycle s s"
| start: "lifecycle UNINITIALIZED HANDSHAKING"
| establish: "lifecycle HANDSHAKING ESTABLISHED"
| fail: "lifecycle s FAILED"
| close: "lifecycle s CLOSED"

inductive_simps lifecycle_to: "lifecycle s HANDSHAKING" "lifecycle s ESTABLISHED" "lifecycle s UNINITIALIZED"

lemma fresh_handshake_current: "NoiseHandshakeState lib role k r = Inr hs \<Longrightarrow> hs_current hs = 0"
  by (auto simp: NoiseHandshakeState_def split: sum.splits)

lemma process_body_lifecycle:
  assumes "state_ok se" "process_body lib fresh m se = (se', Inr r)"
  shows "lifecycle (se_state se) (se_state se')"
proof (cases "se_state se = UNINITIALIZED")
  case True
  have "se_state se' \<noteq> ESTABLISHED"
    using assms(2) True
    by (auto simp: process_body_def auto_initialise_def Let_def is_handshake_complete_def XX_PATTERNS_def
        split: prod.splits sum.splits if_splits option.splits
        dest!: respond_current fresh_handshake_current)
  with process_body_ok [OF assms] True show ?thesis by (auto intro: lifecycle.intros)
next
  case False
  then have "auto_initialise lib se = (se, Inr ())" by (simp add: auto_initialise_def)
  with assms(2) have "se_state se = HANDSHAKING"
    by (auto simp: process_body_def split: if_splits)
  with process_body_ok [OF assms] show ?thesis by (auto intro: lifecycle.intros)
qed



subsection \<open>An honest handshake\<close>

lemma split_ciphers_keys:
  obtains k1 k2 where "split_ciphers sy = Inr (NoiseCipherState (Some k1) True, NoiseCipherState (Some k2) True)"
    "length k1 = 32" "length k2 = 32"
proof -
  obtain k1 k2 where "noise_hkdf (sy_chaining_key sy) [] 2 = Inr [k1, k2]" "length k1 = 32" "length k2 = 32"
    by (rule noise_hkdf_two)
  then show thesis by (intro that [of k1 k2]) (simp_all add: split_ciphers_def)
qed

lemma claimed_hex: "length p = 8 \<Longrightarrow> claimed_peer_id (bytes_hex p) = Some p"
  by (simp add: claimed_peer_id_def)

text \<open>The session that a completed handshake with the remote key \<open>S\<close> leaves.\<close>

definition established :: "bytes \<Rightarrow> handshake \<Rightarrow> cipher \<Rightarrow> cipher \<Rightarrow> session \<Rightarrow> session" where
  "established S hs send recv se = se\<lparr>se_send_cipher := Some send, se_recv_cipher := Some recv,
     se_remote_static := Some S, se_handshake_hash := Some (sy_hash (hs_symmetric hs)),
     se_remote_fingerprint := Some (calculate_fingerprint S), se_handshake := None, se_state := ESTABLISHED\<rparr>"

lemma finalise_success:
  assumes "hs_remote_static hs = Some S" "claimed_peer_id (se_remote_peer_id se) = Some (take 8 (sha256 S))"
    and "S \<noteq> id_x25519_public (se_identity se)" "get_transport_ciphers hs = Inr (send, recv)"
  shows "finalise_handshake hs se = (established S hs send recv se, Inr ())"
  using assms
  by (simp add: finalise_handshake_def get_remote_static_public_key_def established_def get_handshake_hash_def)

lemma process_completes:
  assumes "se_state se = HANDSHAKING" "se_handshake se = Some hs" "read_and_respond lib fresh m hs = (hs', Inr response)"
    and "hs_current hs' = 3" "hs_remote_static hs' = Some S"
    and "claimed_peer_id (se_remote_peer_id se) = Some (take 8 (sha256 S))" "S \<noteq> id_x25519_public (se_identity se)"
    and "get_transport_ciphers hs' = Inr (send, recv)"
  shows "process_handshake_message lib fresh m se = (established S hs' send recv se, Inr response)"
proof -
  have "auto_initialise lib se = (se, Inr ())" using assms(1) by (simp add: auto_initialise_def)
  moreover have "is_handshake_complete hs'" using assms(4) by (simp add: is_handshake_complete_def XX_PATTERNS_def)
  moreover have "finalise_handshake hs' (se\<lparr>se_handshake := Some hs'\<rparr>) = (established S hs' send recv se, Inr ())"
    using finalise_success [of hs' S "se\<lparr>se_handshake := Some hs'\<rparr>" send recv] assms by (simp add: established_def)
  ultimately show ?thesis
    using assms(1-3) by (simp add: process_handshake_message_def process_body_def Let_def)
qed

text \<open>The initial handshake object of a role.\<close>

lemma handshake_initial:
  assumes "x25519_public_key_from_private lib k = Inr K"
  obtains hs where "NoiseHandshakeState lib role k None = Inr hs" "hs_role hs = role" "hs_static_private hs = k"
    "hs_static_public hs = K" "hs_current hs = 0"
    "hs_symmetric hs = mix_hash [] (NoiseSymmetricState NOISE_PROTOCOL_NAME)"
  using assms by (simp add: NoiseHandshakeState_def)

lemma initial_symmetric:
  "sy_ok (mix_hash [] (NoiseSymmetricState NOISE_PROTOCOL_NAME))"
  "\<not> has_cipher_key (mix_hash [] (NoiseSymmetricState NOISE_PROTOCOL_NAME))"
  by (rule sy_ok_mix_hash [OF sy_ok_new])
     (simp add: NoiseSymmetricState_def Let_def has_cipher_key_def has_key_def NoiseCipherState_def)

text \<open>
  A responder session that read the first message with the ephemeral key \<open>E\<close> and answered; \<open>hi\<close> is
  any initiator handshake that wrote the first message and reads the answer.
\<close>

lemma responder_answers:
  assumes lib: "chacha_ok lib"
    and B: "se_state B = UNINITIALIZED" "se_role B = RESPONDER"
      "x25519_public_key_from_private lib (id_x25519_private (se_identity B)) = Inr SB" "validate_public_key lib SB = Inr SB"
    and e: "x25519_public_key_from_private lib ei = Inr EI" "length EI = 32"
      "x25519_public_key_from_private lib er = Inr ER" "length ER = 32"
    and dh: "diffie_hellman lib er EI = Inr ee" "diffie_hellman lib ei ER = Inr ee"
      "diffie_hellman lib (id_x25519_private (se_identity B)) EI = Inr es" "diffie_hellman lib ei SB = Inr es"
    and hi: "hs_role hi = INITIATOR" "hs_current hi = 0" "hs_symmetric hi = mix_hash [] (NoiseSymmetricState NOISE_PROTOCOL_NAME)"
  obtains hi1 m2 hi2 hr2 s where
    "write_message lib ei [] hi = (hi1, Inr EI)"
    "process_handshake_message lib er EI B = (B\<lparr>se_handshake := Some hr2, se_state := HANDSHAKING\<rparr>, Inr (Some m2))"
    "read_message lib m2 hi1 = (hi2, Inr [])"
    "hs_current hi2 = 2" "hs_role hi2 = INITIATOR" "hs_static_private hi2 = hs_static_private hi"
    "hs_static_public hi2 = hs_static_public hi" "hs_remote_ephemeral hi2 = Some ER" "hs_remote_static hi2 = Some SB"
    "hs_symmetric hi2 = s"
    "hs_current hr2 = 2" "hs_role hr2 = RESPONDER" "hs_ephemeral_private hr2 = Some er" "hs_symmetric hr2 = s"
    "sy_ok s" "has_cipher_key s" "cs_nonce (sy_cipher s) = 1" "length m2 = 96"
proof -
  let ?s0 = "mix_hash [] (NoiseSymmetricState NOISE_PROTOCOL_NAME)"
  let ?s1 = "mix_hash [] (mix_hash EI ?s0)"
  obtain hr where hr: "NoiseHandshakeState lib RESPONDER (id_x25519_private (se_identity B)) None = Inr hr"
    "hs_role hr = RESPONDER" "hs_static_private hr = id_x25519_private (se_identity B)" "hs_static_public hr = SB"
    "hs_current hr = 0" "hs_symmetric hr = ?s0"
    by (rule handshake_initial [OF B(3)])
  let ?hi1 = "hi\<lparr>hs_ephemeral_private := Some ei, hs_ephemeral_public := Some EI, hs_symmetric := ?s1, hs_current := 1\<rparr>"
  let ?hr1 = "hr\<lparr>hs_remote_ephemeral := Some EI, hs_symmetric := ?s1, hs_current := 1\<rparr>"
  have m1: "write_message lib ei [] hi = (?hi1, Inr EI)" "read_message lib EI hr = (?hr1, Inr [])"
    using message1 [of hi hr lib ei EI] hi hr e initial_symmetric by simp_all
  have s1: "sy_ok ?s1" by (intro sy_ok_mix_hash initial_symmetric)
  obtain c1 c2 s where m2:
    "write_message lib er [] ?hr1 = (?hr1\<lparr>hs_ephemeral_private := Some er, hs_ephemeral_public := Some ER,
       hs_symmetric := s, hs_current := 2\<rparr>, Inr (ER @ c1 @ c2))"
    "read_message lib (ER @ c1 @ c2) ?hi1 = (?hi1\<lparr>hs_remote_ephemeral := Some ER, hs_remote_static := Some SB,
       hs_symmetric := s, hs_current := 2\<rparr>, Inr [])"
    "sy_ok s" "has_cipher_key s" "cs_nonce (sy_cipher s) = 1" "length c1 = 48" "length c2 = 16"
    by (rule message2 [OF lib s1, of ?hr1 "id_x25519_private (se_identity B)" SB EI ?hi1 ei er ER ee es])
       (use hr hi e B dh in auto)
  let ?hr2 = "?hr1\<lparr>hs_ephemeral_private := Some er, hs_ephemeral_public := Some ER, hs_symmetric := s, hs_current := 2\<rparr>"
  have "process_handshake_message lib er EI B = (B\<lparr>se_handshake := Some ?hr2, se_state := HANDSHAKING\<rparr>, Inr (Some (ER @ c1 @ c2)))"
    using hr(1) m1(2) m2(1) B(1,2)
    by (simp add: process_handshake_message_def process_body_def auto_initialise_def read_and_respond_def
        is_handshake_complete_def XX_PATTERNS_def Let_def)
  then show thesis
    by (rule that [OF m1(1) _ m2(2)]) (use hr hi m2 e(4) in auto)
qed


lemma established_fields [simp]:
  "se_state (established S hs c d se) = ESTABLISHED" "se_send_cipher (established S hs c d se) = Some c"
  "se_recv_cipher (established S hs c d se) = Some d" "se_remote_static (established S hs c d se) = Some S"
  "se_handshake_hash (established S hs c d se) = Some (sy_hash (hs_symmetric hs))"
  "se_remote_fingerprint (established S hs c d se) = Some (calculate_fingerprint S)"
  by (simp_all add: established_def)

lemma completed_ciphers:
  assumes "hs_current hs = 3" "split_ciphers (hs_symmetric hs) = Inr (c, d)"
  shows "get_transport_ciphers hs = Inr (if hs_role hs = INITIATOR then (c, d) else (d, c))"
  using assms by (simp add: get_transport_ciphers_def is_handshake_complete_def XX_PATTERNS_def)

lemma new_session:
  assumes "NoiseSession i remote role = Inr S"
  shows "se_state S = UNINITIALIZED" "se_identity S = i" "se_remote_peer_id S = remote"
  using assms by (auto simp: NoiseSession_def split: sum.splits)

text \<open>Without explicit roles, two peers with distinct identifiers take complementary ones.\<close>

lemma default_roles:
  assumes "a \<noteq> []" "b \<noteq> []" "a \<noteq> b"
  shows "determine_handshake_role a b = Inr INITIATOR \<longleftrightarrow> determine_handshake_role b a = Inr RESPONDER"
  using assms order_less_not_sym [of a b] less_linear [of a b] by (auto simp: determine_handshake_role_def)

lemma honest_run_sized:
  assumes lib: "x25519_laws lib" "chacha_ok lib"
    and ids: "identity_from_private_keys lib xa eda = Inr ia" "identity_from_private_keys lib xb edb = Inr ib"
      "id_x25519_public ia \<noteq> id_x25519_public ib"
    and sessions: "NoiseSession ia (peer_id_hex ib) ra = Inr A" "NoiseSession ib (peer_id_hex ia) rb = Inr B"
      "se_role A = INITIATOR" "se_role B = RESPONDER"
    and keys: "key_pair lib ea EA" "key_pair lib eb EB" "key_pair lib xa (id_x25519_public ia)" "key_pair lib xb (id_x25519_public ib)"
    and dh: "diffie_hellman lib ea EB = Inr ee" "diffie_hellman lib ea (id_x25519_public ib) = Inr es" "diffie_hellman lib xa EB = Inr se"
  shows "\<exists>a1 m1 b1 m2 a2 m3 b2 k1 k2.
    start_handshake lib ea A = (a1, Inr (Some m1)) \<and>
    process_handshake_message lib eb m1 B = (b1, Inr (Some m2)) \<and>
    process_handshake_message lib fa m2 a1 = (a2, Inr (Some m3)) \<and>
    process_handshake_message lib fb m3 b1 = (b2, Inr None) \<and>
    se_state a2 = ESTABLISHED \<and> se_state b2 = ESTABLISHED \<and> se_handshake_hash a2 = se_handshake_hash b2 \<and>
    se_remote_fingerprint a2 = Some (id_fingerprint ib) \<and> se_remote_fingerprint b2 = Some (id_fingerprint ia) \<and>
    se_send_cipher a2 = Some (NoiseCipherState (Some k1) True) \<and> se_recv_cipher b2 = se_send_cipher a2 \<and>
    se_recv_cipher a2 = Some (NoiseCipherState (Some k2) True) \<and> se_send_cipher b2 = se_recv_cipher a2 \<and>
    length k1 = 32 \<and> length k2 = 32 \<and> length m1 = 32 \<and> length m2 = 96 \<and> length m3 = 64 \<and>
    se_state a1 = HANDSHAKING \<and> se_state b1 = HANDSHAKING"
proof -
  let ?SA = "id_x25519_public ia" and ?SB = "id_x25519_public ib"
  note fa = identity_fields [OF ids(1)] and fb = identity_fields [OF ids(2)]
  have neq: "?SB \<noteq> ?SA" using ids(3) by simp
  have id8: "claimed_peer_id (peer_id_hex ia) = Some (take 8 (sha256 ?SA))" "claimed_peer_id (peer_id_hex ib) = Some (take 8 (sha256 ?SB))"
    using fa(3) fb(3) by (simp_all add: peer_id_hex_def claimed_hex)
  have A: "se_state A = UNINITIALIZED" "se_role A = INITIATOR" "se_identity A = ia" "se_remote_peer_id A = peer_id_hex ib"
    and B: "se_state B = UNINITIALIZED" "se_role B = RESPONDER" "se_identity B = ib" "se_remote_peer_id B = peer_id_hex ia"
    using new_session [OF sessions(1)] new_session [OF sessions(2)] sessions(3,4) by simp_all
  have K: "x25519_public_key_from_private lib k = Inr K" "validate_public_key lib K = Inr K" "length K = 32"
    if "key_pair lib k K" for k K using that key_pair_length by (auto simp: key_pair_def)
  have swap: "diffie_hellman lib a Kb = Inr s \<Longrightarrow> diffie_hellman lib b Ka = Inr s"
    if "key_pair lib a Ka" "key_pair lib b Kb" for a b Ka Kb s
    using diffie_hellman_commutes [OF lib(1) K(1) [OF that(1)] K(1) [OF that(2)] K(2) [OF that(1)] K(2) [OF that(2)]] by simp
  obtain hi where hi: "NoiseHandshakeState lib INITIATOR xa None = Inr hi" "hs_role hi = INITIATOR" "hs_static_private hi = xa"
    "hs_static_public hi = ?SA" "hs_current hi = 0" "hs_symmetric hi = mix_hash [] (NoiseSymmetricState NOISE_PROTOCOL_NAME)"
    by (rule handshake_initial [OF K(1) [OF keys(3)]])
  have xB: "id_x25519_private (se_identity B) = xb" using B(3) fb(1) by simp
  note KB = K [OF keys(4)]
  obtain hi1 m2 hi2 hr2 s where run: "write_message lib ea [] hi = (hi1, Inr EA)"
    "process_handshake_message lib eb EA B = (B\<lparr>se_handshake := Some hr2, se_state := HANDSHAKING\<rparr>, Inr (Some m2))"
    "read_message lib m2 hi1 = (hi2, Inr [])"
    and hi2: "hs_current hi2 = 2" "hs_role hi2 = INITIATOR" "hs_static_private hi2 = hs_static_private hi"
      "hs_static_public hi2 = hs_static_public hi"
      "hs_remote_ephemeral hi2 = Some EB" "hs_remote_static hi2 = Some ?SB" "hs_symmetric hi2 = s"
    and hr2: "hs_current hr2 = 2" "hs_role hr2 = RESPONDER" "hs_ephemeral_private hr2 = Some eb" "hs_symmetric hr2 = s"
    and s: "sy_ok s" "has_cipher_key s" "cs_nonce (sy_cipher s) = 1" and m2: "length m2 = 96"
    by (rule responder_answers [OF lib(2) B(1,2) KB(1,2) [folded xB] K(1,3) [OF keys(1)] K(1,3) [OF keys(2)]
          swap [OF keys(1,2) dh(1)] dh(1) swap [OF keys(1,4) dh(2), folded xB] dh(2) hi(2,5,6)]) (rule that, assumption+)
  note hi2' = hi2(1,2) hi2(3) [unfolded hi(3)] hi2(4) [unfolded hi(4)] hi2(5,7)
  obtain m3 s' where m3: "write_message lib fa [] hi2 = (hi2\<lparr>hs_symmetric := s', hs_current := 3\<rparr>, Inr m3)" "length m3 = 64"
    "read_message lib m3 hr2 = (hr2\<lparr>hs_remote_static := Some ?SA, hs_symmetric := s', hs_current := 3\<rparr>, Inr [])"
    by (rule message3 [OF lib(2) s hr2 hi2' K(2) [OF keys(3)] swap [OF keys(3,2) dh(3)] dh(3), of fa])
  obtain k1 k2 where k: "split_ciphers s' = Inr (NoiseCipherState (Some k1) True, NoiseCipherState (Some k2) True)"
    "length k1 = 32" "length k2 = 32" by (rule split_ciphers_keys)
  let ?c1 = "NoiseCipherState (Some k1) True" and ?c2 = "NoiseCipherState (Some k2) True"
  let ?hi3 = "hi2\<lparr>hs_symmetric := s', hs_current := 3\<rparr>"
  let ?hr3 = "hr2\<lparr>hs_remote_static := Some ?SA, hs_symmetric := s', hs_current := 3\<rparr>"
  let ?a1 = "A\<lparr>se_handshake := Some hi1, se_state := HANDSHAKING\<rparr>" and ?b1 = "B\<lparr>se_handshake := Some hr2, se_state := HANDSHAKING\<rparr>"
  have complete: "is_handshake_complete ?hr3" "\<not> is_handshake_complete hi2"
    using hi2(1) by (simp_all add: is_handshake_complete_def XX_PATTERNS_def)
  have p1: "start_handshake lib ea A = (?a1, Inr (Some EA))"
    using A fa(1) hi(1) run(1) by (simp add: start_handshake_def Let_def)
  have "read_and_respond lib fa m2 hi1 = (?hi3, Inr (Some m3))"
    using complete by (simp add: read_and_respond_def run m3)
  then have p2: "process_handshake_message lib fa m2 ?a1 = (established ?SB ?hi3 ?c1 ?c2 ?a1, Inr (Some m3))"
    using A id8 neq hi2 k by (intro process_completes) (simp_all add: completed_ciphers)
  have "read_and_respond lib fb m3 hr2 = (?hr3, Inr None)"
    using complete by (simp add: read_and_respond_def m3)
  then have p3: "process_handshake_message lib fb m3 ?b1 = (established ?SA ?hr3 ?c2 ?c1 ?b1, Inr None)"
    using B id8 neq hr2 k by (intro process_completes) (simp_all add: completed_ciphers)
  show ?thesis
    by (rule exI [of _ ?a1], rule exI [of _ EA], rule exI [of _ ?b1], rule exI [of _ m2],
        rule exI [of _ "established ?SB ?hi3 ?c1 ?c2 ?a1"], rule exI [of _ m3],
        rule exI [of _ "established ?SA ?hr3 ?c2 ?c1 ?b1"], rule exI [of _ k1], rule exI [of _ k2])
       (use p1 run(2) p2 p3 k fa(5) fb(5) m2 m3(2) K(3) [OF keys(1)] in simp)
qed


lemma honest_run:
  assumes lib: "x25519_laws lib" "chacha_ok lib"
    and ids: "identity_from_private_keys lib xa eda = Inr ia" "identity_from_private_keys lib xb edb = Inr ib"
      "id_x25519_public ia \<noteq> id_x25519_public ib"
    and sessions: "NoiseSession ia (peer_id_hex ib) ra = Inr A" "NoiseSession ib (peer_id_hex ia) rb = Inr B"
      "se_role A = INITIATOR" "se_role B = RESPONDER"
    and keys: "key_pair lib ea EA" "key_pair lib eb EB" "key_pair lib xa (id_x25519_public ia)" "key_pair lib xb (id_x25519_public ib)"
    and dh: "diffie_hellman lib ea EB = Inr ee" "diffie_hellman lib ea (id_x25519_public ib) = Inr es" "diffie_hellman lib xa EB = Inr se"
  shows "\<exists>a1 m1 b1 m2 a2 m3 b2 k1 k2.
    start_handshake lib ea A = (a1, Inr (Some m1)) \<and>
    process_handshake_message lib eb m1 B = (b1, Inr (Some m2)) \<and>
    process_handshake_message lib fa m2 a1 = (a2, Inr (Some m3)) \<and>
    process_handshake_message lib fb m3 b1 = (b2, Inr None) \<and>
    se_state a2 = ESTABLISHED \<and> se_state b2 = ESTABLISHED \<and> se_handshake_hash a2 = se_handshake_hash b2 \<and>
    se_remote_fingerprint a2 = Some (id_fingerprint ib) \<and> se_remote_fingerprint b2 = Some (id_fingerprint ia) \<and>
    se_send_cipher a2 = Some (NoiseCipherState (Some k1) True) \<and> se_recv_cipher b2 = se_send_cipher a2 \<and>
    se_recv_cipher a2 = Some (NoiseCipherState (Some k2) True) \<and> se_send_cipher b2 = se_recv_cipher a2 \<and>
    length k1 = 32 \<and> length k2 = 32"
  using honest_run_sized [OF assms, of fa fb] by blast

text \<open>
  C1. Agreement of the handshake: when two honest peers with distinct static keys and
  complementary roles exchange the three messages, both sessions are established, with the same
  transcript hash, each holding the other's fingerprint, and the sending cipher of one is the
  receiving cipher of the other, fresh and with a 32-octet key.
\<close>
theorem session_agreement:
  assumes lib: "x25519_laws lib" "chacha_ok lib"
    and ids: "identity_from_private_keys lib xa eda = Inr ia" "identity_from_private_keys lib xb edb = Inr ib"
      "id_x25519_public ia \<noteq> id_x25519_public ib"
    and sessions: "NoiseSession ia (peer_id_hex ib) ra = Inr A" "NoiseSession ib (peer_id_hex ia) rb = Inr B"
      "se_role A = INITIATOR" "se_role B = RESPONDER"
    and keys: "key_pair lib ea EA" "key_pair lib eb EB" "key_pair lib xa (id_x25519_public ia)" "key_pair lib xb (id_x25519_public ib)"
    and dh: "diffie_hellman lib ea EB = Inr ee" "diffie_hellman lib ea (id_x25519_public ib) = Inr es" "diffie_hellman lib xa EB = Inr se"
  shows "\<exists>a1 m1 b1 m2 a2 m3 b2 k1 k2.
    start_handshake lib ea A = (a1, Inr (Some m1)) \<and>
    process_handshake_message lib eb m1 B = (b1, Inr (Some m2)) \<and>
    process_handshake_message lib fa m2 a1 = (a2, Inr (Some m3)) \<and>
    process_handshake_message lib fb m3 b1 = (b2, Inr None) \<and>
    se_state a2 = ESTABLISHED \<and> se_state b2 = ESTABLISHED \<and> se_handshake_hash a2 = se_handshake_hash b2 \<and>
    se_remote_fingerprint a2 = Some (id_fingerprint ib) \<and> se_remote_fingerprint b2 = Some (id_fingerprint ia) \<and>
    se_send_cipher a2 = Some (NoiseCipherState (Some k1) True) \<and> se_recv_cipher b2 = se_send_cipher a2 \<and>
    se_recv_cipher a2 = Some (NoiseCipherState (Some k2) True) \<and> se_send_cipher b2 = se_recv_cipher a2 \<and>
    length k1 = 32 \<and> length k2 = 32"
  by (rule honest_run [OF assms])

text \<open>Two identities of the sample library, for the examples.\<close>

definition sample_key :: "byte \<Rightarrow> bytes" where "sample_key b = replicate 32 b"

definition sample_identity :: "byte \<Rightarrow> identity" where
  "sample_identity b = \<lparr>id_x25519_private = sample_key b, id_ed25519_private = sample_key b,
     id_x25519_public = sample_key b, id_ed25519_public = sample_key b,
     id_peer_id = take 8 (sha256 (sample_key b)), id_fingerprint = bytes_hex (sha256 (sample_key b))\<rparr>"

lemma length_sample_key [simp]: "length (sample_key b) = 32"
  by (simp add: sample_key_def)

lemma sample_identity_fields [simp]:
  "id_x25519_public (sample_identity b) = sample_key b" "id_x25519_private (sample_identity b) = sample_key b"
  by (simp_all add: sample_identity_def)

lemma sample_key_inject [simp]: "sample_key a = sample_key b \<longleftrightarrow> a = b"
  by (simp add: sample_key_def)

lemma sample_identity: "identity_from_private_keys sample_lib (sample_key b) (sample_key b) = Inr (sample_identity b)"
  by (simp add: identity_from_private_keys_def x25519_public_key_from_private_def ed25519_public_key_from_private_def
      validate_private_key_input_def X25519_KEY_SIZE_def ED25519_PRIVATE_KEY_SIZE_def sample_lib_def sample_identity_def Let_def)

lemma sample_key_good:
  assumes "b \<in> {1, 2, 3, 4, 7, 9}"
  shows "sample_key b \<notin> set low_order_points"
proof -
  have "list_all (\<lambda>b. sample_key b \<notin> set low_order_points) [1, 2, 3, 4, 7, 9]" by code_simp
  with assms show ?thesis by auto
qed

lemma sample_key_pair: "b \<in> {1, 2, 3, 4, 7, 9} \<Longrightarrow> key_pair sample_lib (sample_key b) (sample_key b)"
  using sample_key_good [of b]
  by (simp add: key_pair_def x25519_public_key_from_private_def validate_public_key_def validate_private_key_input_def
      X25519_KEY_SIZE_def) (simp add: sample_lib_def)

lemma sample_dh:
  "b \<in> {1, 2, 3, 4, 7, 9} \<Longrightarrow> diffie_hellman sample_lib (sample_key a) (sample_key b) = Inr (map2 (\<lambda>x y. x + y) (sample_key a) (sample_key b))"
proof -
  assume "b \<in> {1, 2, 3, 4, 7, 9}"
  then have "validate_public_key sample_lib (sample_key b) = Inr (sample_key b)" using sample_key_pair by (simp add: key_pair_def)
  moreover have "lib_x25519_exchange sample_lib (sample_key a) (sample_key b) = Inr (map2 (\<lambda>x y. x + y) (sample_key a) (sample_key b))"
    by (simp add: sample_lib_def)
  ultimately show ?thesis
    by (simp add: diffie_hellman_def validate_private_key_input_def X25519_KEY_SIZE_def X25519_SHARED_SECRET_SIZE_def)
qed

definition sample_session :: "byte \<Rightarrow> byte \<Rightarrow> NoiseRole \<Rightarrow> session" where
  "sample_session own remote role = \<lparr>se_identity = sample_identity own, se_remote_peer_id = peer_id_hex (sample_identity remote),
     se_role = role, se_state = UNINITIALIZED, se_handshake = None, se_send_cipher = None, se_recv_cipher = None,
     se_remote_static = None, se_handshake_hash = None, se_remote_fingerprint = None\<rparr>"

lemma sample_session:
  "NoiseSession (sample_identity own) (peer_id_hex (sample_identity remote)) (Some role) = Inr (sample_session own remote role)"
  by (simp add: NoiseSession_def sample_session_def)

lemma sample_chacha_ok: "chacha_ok sample_lib"
  using sample_chacha by (simp add: chacha_ok_def)

lemma session_agreement_witness:
  "\<exists>a1 m1 b1 m2 a2 m3 b2 k1 k2.
    start_handshake sample_lib (sample_key 1) (sample_session 7 9 INITIATOR) = (a1, Inr (Some m1)) \<and>
    process_handshake_message sample_lib (sample_key 2) m1 (sample_session 9 7 RESPONDER) = (b1, Inr (Some m2)) \<and>
    process_handshake_message sample_lib [] m2 a1 = (a2, Inr (Some m3)) \<and>
    process_handshake_message sample_lib [] m3 b1 = (b2, Inr None) \<and>
    se_state a2 = ESTABLISHED \<and> se_state b2 = ESTABLISHED \<and> se_handshake_hash a2 = se_handshake_hash b2 \<and>
    se_remote_fingerprint a2 = Some (id_fingerprint (sample_identity 9)) \<and>
    se_remote_fingerprint b2 = Some (id_fingerprint (sample_identity 7)) \<and>
    se_send_cipher a2 = Some (NoiseCipherState (Some k1) True) \<and> se_recv_cipher b2 = se_send_cipher a2 \<and>
    se_recv_cipher a2 = Some (NoiseCipherState (Some k2) True) \<and> se_send_cipher b2 = se_recv_cipher a2 \<and>
    length k1 = 32 \<and> length k2 = 32"
  by (rule session_agreement [OF sample_x25519 sample_chacha_ok sample_identity sample_identity _ sample_session sample_session
        _ _ sample_key_pair sample_key_pair _ _ sample_dh _ sample_dh])
     (simp_all add: sample_session_def sample_key_pair sample_dh)


subsection \<open>Who is at the other end\<close>

lemma finalise_keeps:
  "finalise_handshake hs se = (se', r) \<Longrightarrow> se_identity se' = se_identity se \<and> se_remote_peer_id se' = se_remote_peer_id se"
  by (auto simp: finalise_handshake_def Let_def split: option.splits sum.splits prod.splits if_splits)

lemma auto_initialise_keeps:
  "auto_initialise lib se = (se', r) \<Longrightarrow> se_identity se' = se_identity se \<and> se_remote_peer_id se' = se_remote_peer_id se"
  using auto_initialise_cases [of lib se] by auto

lemma process_body_keeps:
  "se_identity (fst (process_body lib fresh m se)) = se_identity se \<and>
   se_remote_peer_id (fst (process_body lib fresh m se)) = se_remote_peer_id se"
proof -
  obtain se0 r0 where init: "auto_initialise lib se = (se0, r0)" by (cases "auto_initialise lib se")
  note k0 = auto_initialise_keeps [OF init]
  show ?thesis
  proof (cases "\<exists>u hs. r0 = Inr u \<and> se_state se0 = HANDSHAKING \<and> se_handshake se0 = Some hs")
    case True
    then obtain u hs where h: "r0 = Inr u" "se_state se0 = HANDSHAKING" "se_handshake se0 = Some hs" by blast
    obtain hs1 r1 where rr: "read_and_respond lib fresh m hs = (hs1, r1)" by (cases "read_and_respond lib fresh m hs")
    obtain se2 r2 where fin: "finalise_handshake hs1 (se0\<lparr>se_handshake := Some hs1\<rparr>) = (se2, r2)"
      by (cases "finalise_handshake hs1 (se0\<lparr>se_handshake := Some hs1\<rparr>)")
    from finalise_keeps [OF fin] k0 show ?thesis
      by (cases r1; cases r2) (simp_all add: process_body_def init h rr fin Let_def)
  next
    case False
    then show ?thesis using k0 by (cases r0) (auto simp: process_body_def init split: option.split)
  qed
qed

lemma process_keeps:
  "se_identity (fst (process_handshake_message lib fresh m se)) = se_identity se \<and>
   se_remote_peer_id (fst (process_handshake_message lib fresh m se)) = se_remote_peer_id se"
  using process_body_keeps [of lib fresh m se]
  by (cases "process_body lib fresh m se") (auto simp: process_handshake_message_def split: sum.split)

lemma session_step_keeps:
  "se_identity (fst (session_step lib se ev)) = se_identity se \<and>
   se_remote_peer_id (fst (session_step lib se ev)) = se_remote_peer_id se"
proof (cases ev)
  case (Encrypt p)
  then show ?thesis by (cases rule: session_encrypt_cases [of lib p se]) auto
next
  case (Decrypt c)
  then show ?thesis by (cases rule: session_decrypt_cases [of lib c se]) auto
qed (auto simp: process_keeps start_handshake_def Let_def session_close_def split: sum.split prod.split)

lemma session_run_keeps:
  "se_identity (fst (run (session_step lib) se evs)) = se_identity se \<and>
   se_remote_peer_id (fst (run (session_step lib) se evs)) = se_remote_peer_id se"
  by (induction evs arbitrary: se) (simp_all add: session_step_keeps)

text \<open>
  C6. Identity binding: however a session became established, the remote static key it accepted
  hashes to the peer identifier it was opened for, is not the device's own key, and is the one its
  fingerprint names; both transport ciphers are ready and the handshake object is gone.
\<close>
theorem established_binds_identity:
  assumes "NoiseSession identity pid role = Inr se0" "se = fst (run (session_step lib) se0 evs)" "is_established se"
  shows "(\<exists>S. se_remote_static se = Some S \<and> claimed_peer_id pid = Some (take 8 (sha256 S)) \<and>
      S \<noteq> id_x25519_public identity \<and> se_remote_fingerprint se = Some (calculate_fingerprint S)) \<and>
    cipher_ready (se_send_cipher se) \<and> cipher_ready (se_recv_cipher se) \<and> se_handshake se = None"
proof -
  have "state_ok se"
    unfolding assms(2) by (rule sessions.run_inv) (rule state_ok_new [OF assms(1)])
  then have "established_ok se" using assms(3) by (simp add: state_ok_established is_established_def)
  moreover have "se_identity se = identity" "se_remote_peer_id se = pid"
    using session_run_keeps [of lib se0 evs] new_session [OF assms(1)] assms(2) by simp_all
  ultimately show ?thesis by (auto simp: established_ok_def)
qed

text \<open>
  C2. A peer can be impersonated to a responder: a party that knows only the public key \<open>V\<close> of the
  claimed peer, runs the handshake with keys of its own, presents \<open>V\<close> as its static key and cuts the
  last 16 octets of its third message leaves the responder with an established session for \<open>V\<close>. An
  empty payload is accepted without a tag, and the tag of the third message is the only part of the
  handshake that depends on the initiator's static private key.
\<close>
theorem unauthenticated_initiator_accepted:
  assumes lib: "chacha_ok lib" "x25519_laws lib"
    and B: "identity_from_private_keys lib xb edb = Inr ib" "NoiseSession ib (bytes_hex (take 8 (sha256 V))) role = Inr B"
      "se_role B = RESPONDER"
    and V: "validate_public_key lib V = Inr V" "V \<noteq> id_x25519_public ib" "diffie_hellman lib eb V = Inr se"
    and keys: "key_pair lib xb (id_x25519_public ib)" "key_pair lib eb EB" "key_pair lib e E" "key_pair lib x X"
    and dh: "diffie_hellman lib e EB = Inr ee" "diffie_hellman lib e (id_x25519_public ib) = Inr es" "diffie_hellman lib x EB = Inr z"
    and attacker: "NoiseHandshakeState lib INITIATOR x None = Inr h0"
  shows "\<exists>h1 m1 b1 m2 h2 h3 m3 b2.
    write_message lib e [] h0 = (h1, Inr m1) \<and> process_handshake_message lib eb m1 B = (b1, Inr (Some m2)) \<and>
    read_message lib m2 h1 = (h2, Inr []) \<and> write_message lib f [] (h2\<lparr>hs_static_public := V\<rparr>) = (h3, Inr m3) \<and>
    process_handshake_message lib fb (take 48 m3) b1 = (b2, Inr None) \<and>
    is_established b2 \<and> se_remote_static b2 = Some V \<and> se_remote_fingerprint b2 = Some (calculate_fingerprint V)"
proof -
  note fb = identity_fields [OF B(1)] and sB = new_session [OF B(2)]
  have K: "x25519_public_key_from_private lib k = Inr K" "validate_public_key lib K = Inr K" "length K = 32"
    if "key_pair lib k K" for k K using that key_pair_length by (auto simp: key_pair_def)
  have swap: "diffie_hellman lib a Kb = Inr s \<Longrightarrow> diffie_hellman lib b Ka = Inr s"
    if "key_pair lib a Ka" "key_pair lib b Kb" for a b Ka Kb s
    using diffie_hellman_commutes [OF lib(2) K(1) [OF that(1)] K(1) [OF that(2)] K(2) [OF that(1)] K(2) [OF that(2)]] by simp
  have xB: "id_x25519_private (se_identity B) = xb" using sB(2) fb(1) by simp
  have h0: "hs_role h0 = INITIATOR" "hs_static_private h0 = x" "hs_current h0 = 0"
    "hs_symmetric h0 = mix_hash [] (NoiseSymmetricState NOISE_PROTOCOL_NAME)"
    using attacker K(1) [OF keys(4)] by (auto simp: NoiseHandshakeState_def)
  obtain h1 m2 h2 hr2 s where run: "write_message lib e [] h0 = (h1, Inr E)"
    "process_handshake_message lib eb E B = (B\<lparr>se_handshake := Some hr2, se_state := HANDSHAKING\<rparr>, Inr (Some m2))"
    "read_message lib m2 h1 = (h2, Inr [])"
    and h2: "hs_current h2 = 2" "hs_role h2 = INITIATOR" "hs_static_private h2 = hs_static_private h0"
      "hs_remote_ephemeral h2 = Some EB" "hs_symmetric h2 = s"
    and hr2: "hs_current hr2 = 2" "hs_role hr2 = RESPONDER" "hs_ephemeral_private hr2 = Some eb" "hs_symmetric hr2 = s"
    and s: "sy_ok s" "has_cipher_key s" "cs_nonce (sy_cipher s) = 1"
    by (rule responder_answers [OF lib(1) sB(1) B(3) K(1,2) [OF keys(1), folded xB] K(1,3) [OF keys(3)] K(1,3) [OF keys(2)]
          swap [OF keys(3,2) dh(1)] dh(1) swap [OF keys(3,1) dh(2), folded xB] dh(2) h0(1,3,4)]) (rule that, assumption+)
  obtain c1 s3 s4 where st: "encrypt_and_hash lib V s = (s3, Inr c1)" "length c1 = 48" "sy_ok s3"
    and read: "\<And>rest sy payload. decrypt_and_hash lib rest s4 = (sy, Inr payload) \<Longrightarrow>
       read_message lib (c1 @ rest) hr2 = (hr2\<lparr>hs_remote_static := Some V, hs_symmetric := sy, hs_current := 3\<rparr>, Inr payload)"
    and s4: "has_cipher_key s4"
    by (rule message3_static [OF lib(1) s hr2 V(1,3)]) (rule that, assumption+)
  obtain s4' k' where s4': "mix_key z s3 = (s4', Inr ())" "sy_ok s4'" "has_cipher_key s4'" "cs_nonce (sy_cipher s4') = 0"
    using mix_key_total [OF st(3)] by metis
  obtain c2 s5 where s5: "encrypt_and_hash lib [] s4' = (s5, Inr c2)"
    by (rule encrypt_decrypt_and_hash [OF lib(1) [unfolded chacha_ok_def] s4'(2,3), of "[]"]) (use s4' in auto)
  let ?h2 = "h2\<lparr>hs_static_public := V\<rparr>"
  have m3: "write_message lib f [] ?h2 = (?h2\<lparr>hs_symmetric := s5, hs_current := 3\<rparr>, Inr (c1 @ c2))"
    by (simp add: write_message_def XX_PATTERNS_def is_handshake_complete_def dh_se_def dh_mix_key_some h2 h0 dh st s4' s5)
  let ?hr3 = "hr2\<lparr>hs_remote_static := Some V, hs_symmetric := mix_hash [] s4, hs_current := 3\<rparr>"
  have "read_message lib (c1 @ []) hr2 = (?hr3, Inr [])"
    by (rule read) (simp add: decrypt_and_hash_def s4)
  then have resp: "read_and_respond lib fb (take 48 (c1 @ c2)) hr2 = (?hr3, Inr None)"
    using st(2) by (simp add: read_and_respond_def is_handshake_complete_def XX_PATTERNS_def)
  obtain k1 k2 where k: "split_ciphers (hs_symmetric ?hr3) = Inr (NoiseCipherState (Some k1) True, NoiseCipherState (Some k2) True)"
    by (rule split_ciphers_keys)
  let ?b1 = "B\<lparr>se_handshake := Some hr2, se_state := HANDSHAKING\<rparr>"
  let ?b2 = "established V ?hr3 (NoiseCipherState (Some k2) True) (NoiseCipherState (Some k1) True) ?b1"
  have "process_handshake_message lib fb (take 48 (c1 @ c2)) ?b1 = (?b2, Inr None)"
    by (rule process_completes [OF _ _ resp])
       (use sB V(2) hr2 completed_ciphers [OF _ k] in \<open>simp_all add: claimed_hex\<close>)
  with run m3 show ?thesis by (intro exI conjI) (auto simp: is_established_def)
qed

text \<open>
  A handshake message that arrives on an established session destroys it: the message is
  refused with \<open>NoiseStateError\<close>, but the session is left in the failed state, from where it neither
  encrypts nor decrypts.
\<close>
theorem stray_handshake_message:
  assumes "is_established se"
  shows "process_handshake_message lib fresh m se = (se\<lparr>se_state := FAILED\<rparr>, Inl NoiseStateError) \<and>
    snd (session_encrypt lib p (se\<lparr>se_state := FAILED\<rparr>)) = Inl NoiseStateError \<and>
    snd (session_decrypt lib c (se\<lparr>se_state := FAILED\<rparr>)) = Inl NoiseStateError"
  using assms
  by (simp add: is_established_def process_handshake_message_def process_body_def auto_initialise_def
      session_encrypt_def session_decrypt_def)


subsection \<open>Concrete runs\<close>


lemma established_binds_identity_witness:
  "\<exists>evs se. se = fst (run (session_step sample_lib) (sample_session 7 9 INITIATOR) evs) \<and> is_established se \<and>
    (\<exists>S. se_remote_static se = Some S \<and> claimed_peer_id (peer_id_hex (sample_identity 9)) = Some (take 8 (sha256 S)) \<and>
      S \<noteq> id_x25519_public (sample_identity 7) \<and> se_remote_fingerprint se = Some (calculate_fingerprint S))"
proof -
  obtain a1 m1 b1 m2 a2 m3 where "start_handshake sample_lib (sample_key 1) (sample_session 7 9 INITIATOR) = (a1, Inr (Some m1))"
    "process_handshake_message sample_lib [] m2 a1 = (a2, Inr (Some m3))" "se_state a2 = ESTABLISHED"
    using honest_run [OF sample_x25519 sample_chacha_ok sample_identity sample_identity _ sample_session sample_session
        _ _ sample_key_pair sample_key_pair _ _ sample_dh _ sample_dh,
        of 7 9 INITIATOR RESPONDER 1 2 "map2 (\<lambda>x y. x + y) (sample_key 1) (sample_key 9)" "[]" "[]"]
    by (auto simp: sample_session_def sample_key_pair sample_dh)
  then have run: "a2 = fst (run (session_step sample_lib) (sample_session 7 9 INITIATOR) [Start (sample_key 1), Handshake_Message [] m2])"
    "is_established a2" by (simp_all add: is_established_def)
  show ?thesis
    by (rule exI [of _ "[Start (sample_key 1), Handshake_Message [] m2]"], rule exI [of _ a2])
       (use established_binds_identity [OF sample_session run] run in blast)
qed

lemma unauthenticated_initiator_accepted_witness:
  "\<exists>h0 h1 m1 b1 m2 h2 h3 m3 b2. NoiseHandshakeState sample_lib INITIATOR (sample_key 3) None = Inr h0 \<and>
    write_message sample_lib (sample_key 1) [] h0 = (h1, Inr m1) \<and>
    process_handshake_message sample_lib (sample_key 2) m1 (sample_session 9 7 RESPONDER) = (b1, Inr (Some m2)) \<and>
    read_message sample_lib m2 h1 = (h2, Inr []) \<and> write_message sample_lib [] [] (h2\<lparr>hs_static_public := sample_key 7\<rparr>) = (h3, Inr m3) \<and>
    process_handshake_message sample_lib [] (take 48 m3) b1 = (b2, Inr None) \<and>
    is_established b2 \<and> se_remote_static b2 = Some (sample_key 7) \<and> se_remote_fingerprint b2 = Some (calculate_fingerprint (sample_key 7))"
proof -
  have k: "key_pair sample_lib (sample_key 9) (id_x25519_public (sample_identity 9))" "key_pair sample_lib (sample_key 2) (sample_key 2)"
    "key_pair sample_lib (sample_key 1) (sample_key 1)" "key_pair sample_lib (sample_key 3) (sample_key 3)"
    using sample_key_pair by simp_all
  have dh: "diffie_hellman sample_lib (sample_key 1) (sample_key 2) = Inr (map2 (\<lambda>x y. x + y) (sample_key 1) (sample_key 2))"
    "diffie_hellman sample_lib (sample_key 1) (id_x25519_public (sample_identity 9)) = Inr (map2 (\<lambda>x y. x + y) (sample_key 1) (sample_key 9))"
    "diffie_hellman sample_lib (sample_key 3) (sample_key 2) = Inr (map2 (\<lambda>x y. x + y) (sample_key 3) (sample_key 2))"
    "diffie_hellman sample_lib (sample_key 2) (sample_key 7) = Inr (map2 (\<lambda>x y. x + y) (sample_key 2) (sample_key 7))"
    using sample_dh by simp_all
  have V: "validate_public_key sample_lib (sample_key 7) = Inr (sample_key 7)" "sample_key 7 \<noteq> id_x25519_public (sample_identity 9)"
    using sample_key_pair [of 7] by (simp_all add: key_pair_def)
  have B: "NoiseSession (sample_identity 9) (bytes_hex (take 8 (sha256 (sample_key 7)))) (Some RESPONDER) = Inr (sample_session 9 7 RESPONDER)"
    "se_role (sample_session 9 7 RESPONDER) = RESPONDER"
    using sample_session [of 9 7 RESPONDER] by (simp_all add: peer_id_hex_def sample_identity_def sample_session_def)
  obtain h0 where h0: "NoiseHandshakeState sample_lib INITIATOR (sample_key 3) None = Inr h0"
    by (rule handshake_initial [of sample_lib "sample_key 3"]) (use k(4) in \<open>auto simp: key_pair_def\<close>)
  show ?thesis
    by (rule exI [of _ h0], insert h0 unauthenticated_initiator_accepted
        [OF sample_chacha_ok sample_x25519 sample_identity B V dh(4) k dh(1-3) h0, of "[]" "[]"]) blast
qed

lemma stray_handshake_message_witness:
  "process_handshake_message sample_lib [] [1] ((sample_session 7 9 INITIATOR)\<lparr>se_state := ESTABLISHED\<rparr>)
     = ((sample_session 7 9 INITIATOR)\<lparr>se_state := FAILED\<rparr>, Inl NoiseStateError)"
  using stray_handshake_message [of "(sample_session 7 9 INITIATOR)\<lparr>se_state := ESTABLISHED\<rparr>" sample_lib "[]" "[1]"]
  by (simp add: is_established_def)

end
