(* ===== verification/Json.thy ===== *)
theory Json
  imports Errors Py_Str
begin

text \<open>
  The values \<open>json.loads\<close> returns, and the conversions of Python that the code applies to them:
  \<open>int(...)\<close>, \<open>str(...)\<close> and equality with a string or an integer. The text format itself is
  the standard library's: a parser and a printer are arguments of the definitions that use them.
\<close>

datatype py_float = Finite rat | Infinite bool | Not_A_Number

datatype json =
    JNull | JBool bool | JInt int | JFloat py_float | JStr string
  | JList "json list" | JDict "(string \<times> json) list"

type_synonym json_object = "(string, json) dict"

text \<open>\<open>d.get(k)\<close>, with \<open>None\<close> for a missing key.\<close>

definition json_get :: "json_object \<Rightarrow> string \<Rightarrow> json" where
  "json_get d k = (case dict_get d k of None \<Rightarrow> JNull | Some v \<Rightarrow> v)"

definition json_get_or :: "json_object \<Rightarrow> string \<Rightarrow> json \<Rightarrow> json" where
  "json_get_or d k v0 = (case dict_get d k of None \<Rightarrow> v0 | Some v \<Rightarrow> v)"

fun json_eq_str :: "json \<Rightarrow> string \<Rightarrow> bool" where
  "json_eq_str (JStr s) t = (s = t)"
| "json_eq_str _ t = False"

text \<open>\<open>True\<close>, \<open>1\<close> and \<open>1.0\<close> all equal \<open>1\<close>.\<close>

fun json_eq_int :: "json \<Rightarrow> int \<Rightarrow> bool" where
  "json_eq_int (JInt i) n = (i = n)"
| "json_eq_int (JBool b) n = ((if b then 1 else 0) = n)"
| "json_eq_int (JFloat (Finite q)) n = (q = of_int n)"
| "json_eq_int _ n = False"

subsection \<open>Integers from text\<close>

definition decval :: "char \<Rightarrow> nat option" where
  "decval c = (let n = (of_char c :: nat) in if 48 \<le> n \<and> n \<le> 57 then Some (n - 48) else None)"

text \<open>Digits, with single underscores between them; \<open>after\<close> tells whether the previous was a digit.\<close>

fun int_digits :: "(char \<Rightarrow> nat option) \<Rightarrow> int \<Rightarrow> int \<Rightarrow> bool \<Rightarrow> string \<Rightarrow> int option" where
  "int_digits dv base acc after [] = (if after then Some acc else None)"
| "int_digits dv base acc after (c # cs) =
     (case dv c of
        Some d \<Rightarrow> int_digits dv base (acc * base + int d) True cs
      | None \<Rightarrow> if c = CHR ''_'' \<and> after then int_digits dv base acc False cs else None)"

definition int_sign :: "string \<Rightarrow> int \<times> string" where
  "int_sign s = (case s of
     [] \<Rightarrow> (1, [])
   | c # cs \<Rightarrow> if c = CHR ''-'' then (- 1, cs) else if c = CHR ''+'' then (1, cs) else (1, s))"

text \<open>\<open>int(s)\<close>: white space around, a sign, at most 4300 digits.\<close>

definition py_int_str :: "string \<Rightarrow> int option" where
  "py_int_str s =
     (let (sign, digits) = int_sign (py_strip s) in
      if length (filter (\<lambda>c. decval c \<noteq> None) digits) > 4300 then None
      else map_option ((*) sign) (int_digits decval 10 0 False digits))"

text \<open>\<open>int(s, 16)\<close>: a prefix \<open>0x\<close> is allowed, with an underscore after it.\<close>

definition hex_prefix :: "string \<Rightarrow> string" where
  "hex_prefix s =
     (if py_startswith s ''0x'' \<or> py_startswith s ''0X''
      then (case drop 2 s of c # cs \<Rightarrow> if c = CHR ''_'' then cs else c # cs | [] \<Rightarrow> [])
      else s)"

definition py_int_hex :: "string \<Rightarrow> int option" where
  "py_int_hex s =
     (let (sign, digits) = int_sign (py_strip s)
      in map_option ((*) sign) (int_digits hexval 16 0 False (hex_prefix digits)))"

text \<open>\<open>int(x)\<close> of a JSON value truncates floats towards zero.\<close>

fun py_int :: "json \<Rightarrow> exn + int" where
  "py_int (JInt i) = Inr i"
| "py_int (JBool b) = Inr (if b then 1 else 0)"
| "py_int (JFloat (Finite q)) = Inr (if q \<ge> 0 then floor q else ceiling q)"
| "py_int (JFloat (Infinite neg)) = Inl OverflowError"
| "py_int (JFloat Not_A_Number) = Inl ValueError"
| "py_int (JStr s) = (case py_int_str s of Some i \<Rightarrow> Inr i | None \<Rightarrow> Inl ValueError)"
| "py_int _ = Inl TypeError"

subsection \<open>Text from values\<close>

fun nat_dec :: "nat \<Rightarrow> string" where
  "nat_dec n = (if n < 10 then [char_of (48 + n)] else nat_dec (n div 10) @ [char_of (48 + n mod 10)])"

declare nat_dec.simps [simp del]

definition int_dec :: "int \<Rightarrow> string" where
  "int_dec i = (if i < 0 then CHR ''-'' # nat_dec (nat (- i)) else nat_dec (nat i))"

text \<open>\<open>str(x)\<close>; \<open>py_repr\<close> is Python's representation of floats, lists and dictionaries.\<close>

fun py_str :: "(json \<Rightarrow> string) \<Rightarrow> json \<Rightarrow> string" where
  "py_str py_repr (JStr s) = s"
| "py_str py_repr (JInt i) = int_dec i"
| "py_str py_repr (JBool b) = (if b then ''True'' else ''False'')"
| "py_str py_repr JNull = ''None''"
| "py_str py_repr v = py_repr v"

fun json_truthy :: "json \<Rightarrow> bool" where
  "json_truthy JNull = False"
| "json_truthy (JBool b) = b"
| "json_truthy (JInt i) = (i \<noteq> 0)"
| "json_truthy (JFloat f) = (f \<noteq> Finite 0)"
| "json_truthy (JStr s) = (s \<noteq> [])"
| "json_truthy (JList l) = (l \<noteq> [])"
| "json_truthy (JDict d) = (d \<noteq> [])"

lemma decval_char: "n < 10 \<Longrightarrow> decval (char_of (48 + n)) = Some n"
  by (simp add: decval_def of_char_of)


lemma nat_dec_ne [simp]: "nat_dec n \<noteq> []"
  by (subst nat_dec.simps) simp

lemma int_digits_nat_dec: "int_digits decval 10 0 False (nat_dec n @ ys) = int_digits decval 10 (int n) True ys"
proof (induction n arbitrary: ys rule: nat_dec.induct)
  case (1 n)
  show ?case
  proof (cases "n < 10")
    case True
    then show ?thesis by (subst nat_dec.simps) (simp add: decval_char)
  next
    case False
    have "int (n div 10) * 10 + int (n mod 10) = int n"
      by (metis div_mult_mod_eq of_nat_add of_nat_mult of_nat_numeral)
    moreover have "nat_dec n = nat_dec (n div 10) @ [char_of (48 + n mod 10)]"
      using False by (subst nat_dec.simps) simp
    ultimately show ?thesis using 1 False by (simp add: decval_char)
  qed
qed

lemma nat_dec_digits: "c \<in> set (nat_dec n) \<Longrightarrow> \<exists>d < 10. c = char_of (48 + d :: nat)"
proof (induction n rule: nat_dec.induct)
  case (1 n)
  show ?case
  proof (cases "n < 10")
    case True
    then show ?thesis using 1(2) by (subst (asm) nat_dec.simps) auto
  next
    case False
    then have "nat_dec n = nat_dec (n div 10) @ [char_of (48 + n mod 10)]" by (subst nat_dec.simps) simp
    then have "c \<in> set (nat_dec (n div 10)) \<or> c = char_of (48 + n mod 10)" using 1(2) by auto
    then show ?thesis
    proof
      assume "c = char_of (48 + n mod 10)"
      then show ?thesis by (intro exI [of _ "n mod 10"]) simp
    qed (rule 1(1) [OF False])
  qed
qed

end
