(* ===== verification/Discovery.thy ===== *)
theory Discovery
  imports Json Rate_Limit
begin

text \<open>
  The LAN beacons of \<open>network/models.py\<close> and the peer registry of \<open>network/discovery.py\<close>. Sockets
  appear as the results of opening them; the clock, the set of local addresses and the JSON library
  are arguments. A step that may call \<open>on_peer_discovered\<close> returns the record it passes to it.
\<close>

definition MAX_DISCOVERY_PACKET_SIZE :: nat where "MAX_DISCOVERY_PACKET_SIZE = 1024"
definition DEFAULT_DISCOVERY_PORT :: int where "DEFAULT_DISCOVERY_PORT = 41234"
definition DEFAULT_BROADCAST_INTERVAL :: real where "DEFAULT_BROADCAST_INTERVAL = 3"
definition MAX_DISCOVERY_RATE_PER_IP :: int where "MAX_DISCOVERY_RATE_PER_IP = 10"

subsection \<open>Beacons\<close>

record network_info =
  ni_status :: string
  ni_interface :: string
  ni_ssid :: string
  ni_local_ip :: string
  ni_listening_address :: string
  ni_listening_port :: int
  ni_discovery_active :: bool

definition network_is_connected :: "network_info \<Rightarrow> bool" where
  "network_is_connected ni \<longleftrightarrow> ni_status ni = ''Connected'' \<and> ni_local_ip ni \<noteq> [] \<and>
     \<not> py_startswith (ni_local_ip ni) ''127.'' \<and> ni_local_ip ni \<notin> {''0.0.0.0'', ''::1''}"

record beacon =
  bc_peer_id :: string
  bc_nickname :: string
  bc_port :: int
  bc_ssid :: string
  bc_protocol :: string
  bc_version :: int
  bc_transport :: string
  bc_instance_id :: string

definition DiscoveryPacket :: "string \<Rightarrow> string \<Rightarrow> int \<Rightarrow> string \<Rightarrow> string \<Rightarrow> beacon" where
  "DiscoveryPacket peer_id nickname port ssid instance_id =
     \<lparr>bc_peer_id = peer_id, bc_nickname = nickname, bc_port = port, bc_ssid = ssid,
      bc_protocol = ''bitchat'', bc_version = 1, bc_transport = ''lan'', bc_instance_id = instance_id\<rparr>"

definition beacon_payload :: "beacon \<Rightarrow> json_object" where
  "beacon_payload b =
     [(''protocol'', JStr (bc_protocol b)), (''version'', JInt (bc_version b)), (''transport'', JStr (bc_transport b)),
      (''peer_id'', JStr (bc_peer_id b)), (''nickname'', JStr (take 32 (bc_nickname b))), (''port'', JInt (bc_port b)),
      (''ssid'', JStr (take 64 (bc_ssid b))), (''instance_id'', JStr (take 32 (bc_instance_id b)))]"

text \<open>\<open>dumps\<close> is the compact JSON text in UTF-8.\<close>

definition beacon_to_bytes :: "(json \<Rightarrow> bytes) \<Rightarrow> beacon \<Rightarrow> exn + bytes" where
  "beacon_to_bytes dumps b =
     (let raw = dumps (JDict (beacon_payload b))
      in if length raw > MAX_DISCOVERY_PACKET_SIZE then Inl ValueError else Inr raw)"

text \<open>
  The fields of a JSON object as a beacon; every exception of the conversions is a refusal. \<open>loads\<close>
  decodes UTF-8 and parses, with \<open>None\<close> when either raises.
\<close>

definition beacon_of_object :: "(json \<Rightarrow> string) \<Rightarrow> json_object \<Rightarrow> beacon option" where
  "beacon_of_object py_repr data =
     (if \<not> json_eq_str (json_get data ''protocol'') ''bitchat'' \<or> \<not> json_eq_int (json_get data ''version'') 1
         \<or> \<not> json_eq_str (json_get data ''transport'') ''lan'' then None
      else
        let peer_id = py_lower (py_strip (py_str py_repr (json_get_or data ''peer_id'' (JStr [])))) in
        if peer_id = [] \<or> length peer_id < 8 \<or> length peer_id > 64 then None
        else if py_int_hex peer_id = None then None
        else case py_int (json_get_or data ''port'' (JInt 0)) of
               Inl _ \<Rightarrow> None
             | Inr port \<Rightarrow>
                 if port < 1024 \<or> port > 65535 then None
                 else Some (DiscoveryPacket peer_id
                        (take 32 (py_strip (py_str py_repr (json_get_or data ''nickname'' (JStr ''Anonymous'')))))
                        port
                        (take 64 (py_strip (py_str py_repr (json_get_or data ''ssid'' (JStr [])))))
                        (take 32 (py_strip (py_str py_repr (json_get_or data ''instance_id'' (JStr [])))))))"

definition beacon_from_bytes :: "(bytes \<Rightarrow> json option) \<Rightarrow> (json \<Rightarrow> string) \<Rightarrow> bytes \<Rightarrow> beacon option" where
  "beacon_from_bytes loads py_repr raw =
     (if raw = [] \<or> length raw > MAX_DISCOVERY_PACKET_SIZE then None
      else case loads raw of
             Some (JDict data) \<Rightarrow> beacon_of_object py_repr data
           | _ \<Rightarrow> None)"

record lan_peer =
  lp_address :: string
  lp_ip :: string
  lp_port :: int
  lp_peer_id :: string
  lp_nickname :: string
  lp_ssid :: string
  lp_instance_id :: string
  lp_transport :: string
  lp_last_seen :: real

definition lan_peer_name :: "lan_peer \<Rightarrow> string" where
  "lan_peer_name p = (if lp_nickname p \<noteq> [] then lp_nickname p else ''Peer '' @ take 8 (lp_peer_id p))"

definition is_expired :: "real \<Rightarrow> real \<Rightarrow> lan_peer \<Rightarrow> bool" where
  "is_expired ttl now p \<longleftrightarrow> now - lp_last_seen p > ttl"

subsection \<open>The registry\<close>

record discovery =
  di_local_peer_id :: string
  di_local_nickname :: string
  di_listening_port :: int
  di_ssid :: string
  di_discovery_port :: int
  di_broadcast_interval :: real
  di_instance_id :: string
  di_running :: bool
  di_peers :: "(string, lan_peer) dict"
  di_previous :: "string list"
  di_rate_limiter :: "(string, real list) dict"
  di_listen_socket :: bool
  di_send_socket :: bool

text \<open>\<open>rnd\<close>: the eight octets of \<open>generate_instance_id\<close>.\<close>

definition LANDiscovery ::
  "string \<Rightarrow> string \<Rightarrow> int \<Rightarrow> string \<Rightarrow> int \<Rightarrow> real \<Rightarrow> string option \<Rightarrow> bytes \<Rightarrow> discovery" where
  "LANDiscovery peer_id nickname listening_port ssid port interval instance_id rnd =
     \<lparr>di_local_peer_id = peer_id, di_local_nickname = nickname, di_listening_port = listening_port, di_ssid = ssid,
      di_discovery_port = port, di_broadcast_interval = interval,
      di_instance_id = (case instance_id of Some i \<Rightarrow> if i = [] then bytes_hex rnd else i | None \<Rightarrow> bytes_hex rnd),
      di_running = False, di_peers = [], di_previous = [], di_rate_limiter = [],
      di_listen_socket = False, di_send_socket = False\<rparr>"

definition is_listening :: "discovery \<Rightarrow> bool" where
  "is_listening d \<longleftrightarrow> di_running d \<and> di_listen_socket d"

definition update_identity :: "string \<Rightarrow> string \<Rightarrow> string \<Rightarrow> discovery \<Rightarrow> discovery" where
  "update_identity peer_id nickname ssid d =
     (let d1 = (if py_lower peer_id \<noteq> py_lower (di_local_peer_id d)
                then d\<lparr>di_previous := (if di_local_peer_id d \<noteq> []
                          then List.insert (py_lower (di_local_peer_id d)) (di_previous d) else di_previous d),
                       di_peers := []\<rparr>
                else d);
          d2 = d1\<lparr>di_local_peer_id := peer_id, di_local_nickname := nickname\<rparr>
      in if ssid \<noteq> [] then d2\<lparr>di_ssid := (if py_lower ssid = ''unavailable'' then [] else ssid)\<rparr> else d2)"

definition update_listening_port :: "int \<Rightarrow> discovery \<Rightarrow> discovery" where
  "update_listening_port port d = d\<lparr>di_listening_port := port\<rparr>"

text \<open>\<open>send_ok\<close> and \<open>listen_ok\<close>: whether the sockets could be opened and bound.\<close>

definition discovery_start :: "bool \<Rightarrow> bool \<Rightarrow> discovery \<Rightarrow> discovery \<times> (exn + unit)" where
  "discovery_start send_ok listen_ok d =
     (if di_running d then (d, Inr ())
      else let d1 = (if send_ok then d\<lparr>di_send_socket := True\<rparr> else d) in
        if listen_ok then (d1\<lparr>di_listen_socket := True, di_running := True\<rparr>, Inr ())
        else (d1\<lparr>di_send_socket := False\<rparr>, Inl RuntimeError))"

definition discovery_clear :: "discovery \<Rightarrow> discovery" where
  "discovery_clear d = d\<lparr>di_peers := []\<rparr>"

definition discovery_stop :: "discovery \<Rightarrow> discovery" where
  "discovery_stop d =
     (if \<not> di_running d then d\<lparr>di_peers := []\<rparr>
      else d\<lparr>di_running := False, di_peers := [], di_listen_socket := False, di_send_socket := False\<rparr>)"


text \<open>\<open>s.split(sep)\<close> for a one-character separator.\<close>

fun py_split_char :: "char \<Rightarrow> string \<Rightarrow> string list" where
  "py_split_char sep [] = [[]]"
| "py_split_char sep (c # cs) =
     (if c = sep then [] # py_split_char sep cs
      else case py_split_char sep cs of [] \<Rightarrow> [[c]] | w # ws \<Rightarrow> (c # w) # ws)"

text \<open>The addresses a beacon is sent to: the limited broadcast address and that of the /24 network.\<close>

definition broadcast_targets :: "string \<Rightarrow> string list" where
  "broadcast_targets local_ip =
     rev (remdups (rev (''255.255.255.255'' #
       (if local_ip \<noteq> [] \<and> \<not> py_startswith local_ip ''127.''
        then (case py_split_char (CHR ''.'') local_ip of
                [a, b, c, d] \<Rightarrow> [a @ ''.'' @ b @ ''.'' @ c @ ''.255'']
              | _ \<Rightarrow> [])
        else []))))"

definition send_broadcast_now :: "(json \<Rightarrow> bytes) \<Rightarrow> string \<Rightarrow> discovery \<Rightarrow> (string \<times> int \<times> bytes) list" where
  "send_broadcast_now dumps local_ip d =
     (if \<not> di_send_socket d \<or> di_listening_port d \<le> 0 then []
      else case beacon_to_bytes dumps (DiscoveryPacket (di_local_peer_id d) (di_local_nickname d) (di_listening_port d)
                  (di_ssid d) (di_instance_id d)) of
             Inl _ \<Rightarrow> []
           | Inr raw \<Rightarrow> map (\<lambda>ip. (ip, di_discovery_port d, raw)) (broadcast_targets local_ip))"

text \<open>\<open>is_local_ip\<close> of \<open>network/adapter.py\<close>; \<open>local_ips\<close> is the host's set of addresses.\<close>

definition is_local_ip :: "string list \<Rightarrow> string \<Rightarrow> bool" where
  "is_local_ip local_ips ip =
     (let clean = py_lower (py_strip ip) in
      if clean = [] then True
      else if py_startswith clean ''127.'' \<or> clean \<in> {''localhost'', ''::1'', ''0.0.0.0''} then True
      else clean \<in> set local_ips)"

definition sender_host :: "string \<Rightarrow> string" where
  "sender_host ip = (let s = py_strip ip in
     if length (filter (\<lambda>c. c = CHR '':'') s) = 1 then py_before (CHR '':'') s else s)"

definition endpoint_of :: "string \<Rightarrow> int \<Rightarrow> string" where
  "endpoint_of ip port = ip @ '':'' @ int_dec port"

definition own_beacon :: "string list \<Rightarrow> string \<Rightarrow> beacon \<Rightarrow> discovery \<Rightarrow> bool" where
  "own_beacon local_ips ip b d \<longleftrightarrow>
     bc_peer_id b = py_lower (di_local_peer_id d) \<or> bc_peer_id b \<in> set (di_previous d) \<or>
     (di_instance_id d \<noteq> [] \<and> bc_instance_id b \<noteq> [] \<and> bc_instance_id b = di_instance_id d) \<or>
     (is_local_ip local_ips ip \<and> bc_port b = di_listening_port d)"

definition same_peer :: "beacon \<Rightarrow> lan_peer \<Rightarrow> bool" where
  "same_peer b p \<longleftrightarrow> py_lower (lp_peer_id p) = py_lower (bc_peer_id b)"

text \<open>The peer moved: its record is updated in place and filed under the new endpoint.\<close>

definition move_peer :: "string \<Rightarrow> string list \<Rightarrow> lan_peer \<Rightarrow> string \<Rightarrow> string \<Rightarrow> real \<Rightarrow> beacon \<Rightarrow> discovery \<Rightarrow> discovery \<times> lan_peer" where
  "move_peer endpoint prior_keys prior ip ssid now b d =
     (let prior' = prior\<lparr>lp_address := endpoint, lp_ip := ip, lp_port := bc_port b, lp_peer_id := bc_peer_id b,
                         lp_nickname := bc_nickname b, lp_ssid := ssid, lp_last_seen := now\<rparr>
      in (d\<lparr>di_peers := dict_set endpoint prior' (dict_pop_all prior_keys (di_peers d))\<rparr>, prior'))"

text \<open>The same record with a fresh time and, when they changed, a new nickname and network: was it changed?\<close>

definition refresh_peer :: "string \<Rightarrow> lan_peer \<Rightarrow> string \<Rightarrow> real \<Rightarrow> beacon \<Rightarrow> discovery \<Rightarrow> discovery \<times> lan_peer \<times> bool" where
  "refresh_peer key known ssid now b d =
     (let changed = (lp_nickname known \<noteq> bc_nickname b \<or> lp_ssid known \<noteq> ssid);
          known' = (if changed then known\<lparr>lp_last_seen := now, lp_nickname := bc_nickname b, lp_ssid := ssid\<rparr>
                    else known\<lparr>lp_last_seen := now\<rparr>)
      in (d\<lparr>di_peers := dict_set key known' (di_peers d)\<rparr>, known', changed))"

definition register_beacon :: "string \<Rightarrow> real \<Rightarrow> beacon \<Rightarrow> discovery \<Rightarrow> discovery \<times> lan_peer \<times> bool" where
  "register_beacon ip now b d =
     (let endpoint = endpoint_of ip (bc_port b);
          ssid = (if py_lower (bc_ssid b) = ''unavailable'' then [] else bc_ssid b);
          priors = filter (\<lambda>e. same_peer b (snd e) \<and> fst e \<noteq> endpoint) (di_peers d)
      in case priors of
           (key, prior) # _ \<Rightarrow>
             if lp_ip prior = ip \<or> now - lp_last_seen prior > 2 * di_broadcast_interval d
             then (case move_peer endpoint (map fst priors) prior ip ssid now b d of (d', p) \<Rightarrow> (d', p, True))
             else refresh_peer key prior ssid now b d
         | [] \<Rightarrow>
             (case dict_get (di_peers d) endpoint of
                Some existing \<Rightarrow>
                  if same_peer b existing then refresh_peer endpoint existing ssid now b d
                  else (let p = \<lparr>lp_address = endpoint, lp_ip = ip, lp_port = bc_port b, lp_peer_id = bc_peer_id b,
                                 lp_nickname = bc_nickname b, lp_ssid = ssid, lp_instance_id = bc_instance_id b,
                                 lp_transport = ''lan'', lp_last_seen = now\<rparr>
                        in (d\<lparr>di_peers := dict_set endpoint p (di_peers d)\<rparr>, p, True))
              | None \<Rightarrow>
                  (let p = \<lparr>lp_address = endpoint, lp_ip = ip, lp_port = bc_port b, lp_peer_id = bc_peer_id b,
                            lp_nickname = bc_nickname b, lp_ssid = ssid, lp_instance_id = bc_instance_id b,
                            lp_transport = ''lan'', lp_last_seen = now\<rparr>
                   in (d\<lparr>di_peers := dict_set endpoint p (di_peers d)\<rparr>, p, True))))"

definition discovery_rate_limited :: "real \<Rightarrow> string \<Rightarrow> discovery \<Rightarrow> discovery \<times> bool" where
  "discovery_rate_limited now ip d =
     (case limiter_check 256 MAX_DISCOVERY_RATE_PER_IP now ip (di_rate_limiter d) of
        (r, limited) \<Rightarrow> (d\<lparr>di_rate_limiter := r\<rparr>, limited))"

text \<open>
  One datagram: the record it concerns, if it is accepted, and whether \<open>on_peer_discovered\<close> is
  called with it. \<open>t0\<close> is the clock of the rate limiter, \<open>now\<close> that of the registry.
\<close>

definition process_incoming_packet ::
  "(bytes \<Rightarrow> json option) \<Rightarrow> (json \<Rightarrow> string) \<Rightarrow> string list \<Rightarrow> real \<Rightarrow> real \<Rightarrow> bytes \<Rightarrow> string \<Rightarrow> discovery
     \<Rightarrow> discovery \<times> (lan_peer \<times> bool) option" where
  "process_incoming_packet loads py_repr local_ips t0 now data sender_ip d =
     (let ip = sender_host sender_ip in
      case discovery_rate_limited t0 ip d of
        (d1, limited) \<Rightarrow>
          if limited then (d1, None)
          else case beacon_from_bytes loads py_repr data of
                 None \<Rightarrow> (d1, None)
               | Some b \<Rightarrow>
                   if own_beacon local_ips ip b d1 then (d1, None)
                   else if py_startswith ip ''127.'' \<or> ip \<in> {''localhost'', ''::1''} then (d1, None)
                   else case register_beacon ip now b d1 of (d2, p, notify) \<Rightarrow> (d2, Some (p, notify)))"

definition discovery_prune_rate_limiter :: "real \<Rightarrow> real \<Rightarrow> discovery \<Rightarrow> discovery \<times> nat" where
  "discovery_prune_rate_limiter max_age now d =
     (case limiter_prune max_age now (di_rate_limiter d) of (r, n) \<Rightarrow> (d\<lparr>di_rate_limiter := r\<rparr>, n))"

definition prune_stale_peers :: "real \<Rightarrow> real \<Rightarrow> discovery \<Rightarrow> discovery \<times> string list" where
  "prune_stale_peers max_age now d =
     (let d1 = fst (discovery_prune_rate_limiter 1 now d);
          stale = map fst (filter (\<lambda>e. is_expired max_age now (snd e)) (di_peers d1))
      in (d1\<lparr>di_peers := dict_pop_all stale (di_peers d1)\<rparr>, stale))"


subsection \<open>The registry invariant\<close>

datatype discovery_event =
    Datagram real real bytes string | New_Identity string string string | New_Port int
  | Prune_Peers real real | Clear_Peers | Start_Discovery bool bool | Stop_Discovery

fun discovery_step ::
  "(bytes \<Rightarrow> json option) \<Rightarrow> (json \<Rightarrow> string) \<Rightarrow> string list \<Rightarrow> discovery \<Rightarrow> discovery_event
     \<Rightarrow> discovery \<times> (lan_peer \<times> bool) option" where
  "discovery_step loads py_repr ips d (Datagram t0 now data ip) = process_incoming_packet loads py_repr ips t0 now data ip d"
| "discovery_step loads py_repr ips d (New_Identity pid nick ssid) = (update_identity pid nick ssid d, None)"
| "discovery_step loads py_repr ips d (New_Port port) = (update_listening_port port d, None)"
| "discovery_step loads py_repr ips d (Prune_Peers age now) = (fst (prune_stale_peers age now d), None)"
| "discovery_step loads py_repr ips d Clear_Peers = (discovery_clear d, None)"
| "discovery_step loads py_repr ips d (Start_Discovery a b) = (fst (discovery_start a b d), None)"
| "discovery_step loads py_repr ips d Stop_Discovery = (discovery_stop d, None)"

text \<open>
  A record is filed under its own endpoint, has a valid port, a lower-case identifier, and is neither
  the device itself nor one of its former identities; no identifier has two records.
\<close>

definition record_ok :: "string \<Rightarrow> string list \<Rightarrow> string \<times> lan_peer \<Rightarrow> bool" where
  "record_ok me former e \<longleftrightarrow> fst e = lp_address (snd e) \<and> fst e = endpoint_of (lp_ip (snd e)) (lp_port (snd e)) \<and>
     1024 \<le> lp_port (snd e) \<and> lp_port (snd e) \<le> 65535 \<and> py_lower (lp_peer_id (snd e)) = lp_peer_id (snd e) \<and>
     lp_peer_id (snd e) \<noteq> py_lower me \<and> lp_peer_id (snd e) \<notin> set former"

definition one_per_peer :: "(string, lan_peer) dict \<Rightarrow> bool" where
  "one_per_peer peers \<longleftrightarrow> (\<forall>e \<in> set peers. \<forall>e' \<in> set peers. lp_peer_id (snd e) = lp_peer_id (snd e') \<longrightarrow> e = e')"

definition registry_ok :: "discovery \<Rightarrow> bool" where
  "registry_ok d \<longleftrightarrow> dict_ok (di_peers d) \<and> dict_ok (di_rate_limiter d) \<and>
     (\<forall>e \<in> set (di_peers d). record_ok (di_local_peer_id d) (di_previous d) e) \<and> one_per_peer (di_peers d)"

lemma registry_ok_new: "registry_ok (LANDiscovery pid nick port ssid dport interval inst rnd)"
  by (simp add: registry_ok_def LANDiscovery_def one_per_peer_def)

lemma registry_ok_filter:
  "registry_ok d \<Longrightarrow> registry_ok (d\<lparr>di_peers := filter P (di_peers d)\<rparr>)"
  by (auto simp: registry_ok_def dict_ok_filter one_per_peer_def)

lemma registry_ok_put:
  assumes "registry_ok d" "record_ok (di_local_peer_id d) (di_previous d) (k, p)"
    and "\<And>e. e \<in> set (di_peers d) \<Longrightarrow> lp_peer_id (snd e) = lp_peer_id p \<Longrightarrow> fst e = k"
  shows "registry_ok (d\<lparr>di_peers := dict_set k p (di_peers d)\<rparr>)"
proof -
  have ok: "dict_ok (di_peers d)" using assms(1) by (simp add: registry_ok_def)
  have "one_per_peer (dict_set k p (di_peers d))"
    using assms(1,3) unfolding one_per_peer_def registry_ok_def set_dict_set [OF ok] by fastforce
  with assms ok show ?thesis
    by (auto simp: registry_ok_def set_dict_set distinct_update)
qed

lemma registry_get: "registry_ok d \<Longrightarrow> dict_get (di_peers d) k = Some p \<longleftrightarrow> (k, p) \<in> set (di_peers d)"
  by (simp add: registry_ok_def)

text \<open>A beacon that the registry accepts: canonical identifier, valid port, not one's own.\<close>

definition foreign :: "discovery \<Rightarrow> beacon \<Rightarrow> bool" where
  "foreign d b \<longleftrightarrow> py_lower (bc_peer_id b) = bc_peer_id b \<and> 1024 \<le> bc_port b \<and> bc_port b \<le> 65535 \<and>
     bc_peer_id b \<noteq> py_lower (di_local_peer_id d) \<and> bc_peer_id b \<notin> set (di_previous d)"

lemma beacon_fields:
  assumes "beacon_from_bytes loads py_repr raw = Some b"
  shows "py_lower (bc_peer_id b) = bc_peer_id b" "1024 \<le> bc_port b" "bc_port b \<le> 65535"
    "8 \<le> length (bc_peer_id b)" "length (bc_peer_id b) \<le> 64" "length (bc_nickname b) \<le> 32"
  using assms
  by (auto simp: beacon_from_bytes_def beacon_of_object_def DiscoveryPacket_def Let_def
      split: if_splits option.splits json.splits sum.splits)

lemma same_peer_iff:
  "registry_ok d \<Longrightarrow> foreign d b \<Longrightarrow> e \<in> set (di_peers d) \<Longrightarrow> same_peer b (snd e) \<longleftrightarrow> lp_peer_id (snd e) = bc_peer_id b"
  by (auto simp: same_peer_def registry_ok_def record_ok_def foreign_def)

lemma refresh_peer_ok:
  assumes "registry_ok d" "(k, p) \<in> set (di_peers d)"
  shows "registry_ok (fst (refresh_peer k p ssid now b d))"
proof -
  have "\<And>e. e \<in> set (di_peers d) \<Longrightarrow> lp_peer_id (snd e) = lp_peer_id p \<Longrightarrow> fst e = k"
    using assms unfolding registry_ok_def one_per_peer_def by (metis fst_conv snd_conv)
  moreover have "record_ok (di_local_peer_id d) (di_previous d) (k, p)" using assms by (auto simp: registry_ok_def)
  ultimately show ?thesis
    by (auto simp: refresh_peer_def Let_def record_ok_def intro!: registry_ok_put [OF assms(1)])
qed

lemma priors_cases:
  assumes "registry_ok d" "foreign d b"
  obtains (none) "filter (\<lambda>e. same_peer b (snd e) \<and> fst e \<noteq> ep) (di_peers d) = []"
      "\<And>e. e \<in> set (di_peers d) \<Longrightarrow> lp_peer_id (snd e) = bc_peer_id b \<Longrightarrow> fst e = ep"
  | (one) key prior where "filter (\<lambda>e. same_peer b (snd e) \<and> fst e \<noteq> ep) (di_peers d) = [(key, prior)]"
      "(key, prior) \<in> set (di_peers d)" "key \<noteq> ep" "lp_peer_id prior = bc_peer_id b"
proof (cases "filter (\<lambda>e. same_peer b (snd e) \<and> fst e \<noteq> ep) (di_peers d)")
  case Nil
  then show thesis using assms by (intro none) (auto simp: filter_empty_conv same_peer_iff)
next
  case (Cons e es)
  have e: "e \<in> set (di_peers d)" "same_peer b (snd e)" "fst e \<noteq> ep"
    using filter_eq_ConsD [OF Cons] by auto
  have "\<forall>x \<in> set (e # es). x = e"
  proof
    fix x assume "x \<in> set (e # es)"
    then have "x \<in> set (filter (\<lambda>e. same_peer b (snd e) \<and> fst e \<noteq> ep) (di_peers d))" using Cons by simp
    then have "x \<in> set (di_peers d)" "same_peer b (snd x)" by auto
    then have "lp_peer_id (snd x) = lp_peer_id (snd e)"
      using same_peer_iff [OF assms] e by metis
    with \<open>x \<in> set (di_peers d)\<close> e(1) assms(1) show "x = e" by (simp add: registry_ok_def one_per_peer_def)
  qed
  moreover have "distinct (filter (\<lambda>e. same_peer b (snd e) \<and> fst e \<noteq> ep) (di_peers d))"
    using assms(1) by (intro distinct_filter) (simp add: registry_ok_def distinct_map)
  then have "distinct (e # es)" unfolding Cons .
  ultimately have "es = []" by (cases es) auto
  moreover have "lp_peer_id (snd e) = bc_peer_id b" using same_peer_iff [OF assms e(1)] e(2) by simp
  ultimately show thesis using Cons e(1,3) by (intro one [of "fst e" "snd e"]) simp_all
qed

lemma register_beacon_ok:
  assumes "registry_ok d" "foreign d b"
  shows "registry_ok (fst (register_beacon ip now b d))"
proof -
  let ?ep = "endpoint_of ip (bc_port b)"
  have rec: "record_ok (di_local_peer_id d) (di_previous d) (?ep, p)"
    if "lp_address p = ?ep" "lp_ip p = ip" "lp_port p = bc_port b" "lp_peer_id p = bc_peer_id b" for p
    using assms(2) that by (simp add: record_ok_def foreign_def)
  show ?thesis
  proof (rule priors_cases [OF assms, of ?ep], goal_cases)
    case none: 1
    have new: "registry_ok (d\<lparr>di_peers := dict_set ?ep p (di_peers d)\<rparr>)"
      if "lp_address p = ?ep" "lp_ip p = ip" "lp_port p = bc_port b" "lp_peer_id p = bc_peer_id b" for p
      using none(2) that by (intro registry_ok_put assms rec) auto
    show ?thesis
      using refresh_peer_ok [OF assms(1), of ?ep] new none(1)
      by (auto simp: register_beacon_def Let_def registry_get [OF assms(1)] split: option.split)
  next
    case one: (2 key prior)
    have "registry_ok (fst (move_peer ?ep [key] prior ip ssid now b d))" for ssid
    proof -
      let ?d = "d\<lparr>di_peers := filter (\<lambda>e. fst e \<noteq> key) (di_peers d)\<rparr>"
      have "fst e = key" if "e \<in> set (di_peers d)" "lp_peer_id (snd e) = bc_peer_id b" for e
        using assms(1) one that unfolding registry_ok_def one_per_peer_def by (metis fst_conv snd_conv)
      then have "registry_ok (?d\<lparr>di_peers := dict_set ?ep p (di_peers ?d)\<rparr>)"
        if "lp_address p = ?ep" "lp_ip p = ip" "lp_port p = bc_port b" "lp_peer_id p = bc_peer_id b" for p
        using that by (intro registry_ok_put registry_ok_filter assms(1)) (auto simp: rec)
      then show ?thesis by (simp add: move_peer_def Let_def dict_pop_all_filter)
    qed
    with one refresh_peer_ok [OF assms(1) one(2)] show ?thesis
      by (simp add: register_beacon_def Let_def split: prod.split) (metis fst_conv)
  qed
qed

lemma rate_limited_ok:
  assumes "registry_ok d"
  shows "registry_ok (fst (discovery_rate_limited t ip d))"
proof -
  have "dict_ok (di_rate_limiter d)" using assms by (simp add: registry_ok_def)
  from limiter.step_inv [OF this, of 256 MAX_DISCOVERY_RATE_PER_IP "(t, ip)"]
  have "dict_ok (fst (limiter_check 256 MAX_DISCOVERY_RATE_PER_IP t ip (di_rate_limiter d)))"
    by (simp add: limiter_step_def split: prod.splits)
  with assms show ?thesis by (auto simp: discovery_rate_limited_def registry_ok_def split: prod.split)
qed

lemma rate_limited_fields [simp]:
  "di_peers (fst (discovery_rate_limited t ip d)) = di_peers d"
  "di_local_peer_id (fst (discovery_rate_limited t ip d)) = di_local_peer_id d"
  "di_previous (fst (discovery_rate_limited t ip d)) = di_previous d"
  by (simp_all add: discovery_rate_limited_def split: prod.split)

lemma accepted_foreign:
  assumes "beacon_from_bytes loads py_repr raw = Some b" "\<not> own_beacon ips ip b d"
  shows "foreign d b"
  using beacon_fields [OF assms(1)] assms(2) by (auto simp: foreign_def own_beacon_def)

lemma process_packet_ok:
  assumes "registry_ok d"
  shows "registry_ok (fst (process_incoming_packet loads py_repr ips t0 now data sender d))"
proof -
  let ?d = "fst (discovery_rate_limited t0 (sender_host sender) d)"
  have "registry_ok ?d" by (rule rate_limited_ok [OF assms])
  then show ?thesis
    using register_beacon_ok [of ?d _ "sender_host sender" now]
    by (auto simp: process_incoming_packet_def Let_def split: prod.split option.split dest: accepted_foreign)
       (metis accepted_foreign fst_conv)
qed

lemma prune_peers_eq:
  assumes "dict_ok (di_peers d)"
  shows "fst (prune_stale_peers age now d) =
    d\<lparr>di_rate_limiter := fst (limiter_prune 1 now (di_rate_limiter d)),
      di_peers := filter (\<lambda>e. now - lp_last_seen (snd e) \<le> age) (di_peers d)\<rparr>"
proof -
  have "(\<lambda>e. \<not> is_expired age now (snd e)) = (\<lambda>e :: string \<times> lan_peer. now - lp_last_seen (snd e) \<le> age)"
    by (auto simp: is_expired_def)
  with assms show ?thesis
    by (simp add: prune_stale_peers_def discovery_prune_rate_limiter_def Let_def dict_pop_all_where split: prod.split)
qed

lemma discovery_step_ok:
  assumes "registry_ok d"
  shows "registry_ok (fst (discovery_step loads py_repr ips d ev))"
proof (cases ev)
  case (Datagram t0 now data ip)
  with process_packet_ok [OF assms] show ?thesis by simp
next
  case (Prune_Peers age now)
  have "registry_ok (d\<lparr>di_peers := filter (\<lambda>e. now - lp_last_seen (snd e) \<le> age) (di_peers d)\<rparr>)"
    by (rule registry_ok_filter [OF assms])
  moreover have "dict_ok (di_peers d)" "dict_ok (di_rate_limiter d)" using assms by (simp_all add: registry_ok_def)
  ultimately show ?thesis using Prune_Peers by (simp add: prune_peers_eq registry_ok_def limiter_prune_ok)
next
  case (New_Identity pid nick ssid)
  with assms show ?thesis by (auto simp: update_identity_def Let_def registry_ok_def one_per_peer_def record_ok_def)
qed (use assms in \<open>auto simp: registry_ok_def one_per_peer_def update_listening_port_def discovery_clear_def
    discovery_start_def discovery_stop_def Let_def\<close>)

interpretation registry: machine "discovery_step loads py_repr ips" registry_ok for loads py_repr ips
  by unfold_locales (rule discovery_step_ok)


text \<open>
  C39. The peer registry: whatever datagrams arrive, from whichever senders and at whatever times,
  and whatever identity changes, prunings and restarts happen between them, the registry holds at
  most one record per canonical peer identifier, each filed under its own endpoint with a valid
  port, and never the device itself or one of its former identities.
\<close>
theorem registry_invariant:
  "registry_ok (fst (run (discovery_step loads py_repr ips)
     (LANDiscovery pid nick port ssid dport interval instance_id rnd) evs))"
  by (rule registry.run_inv) (rule registry_ok_new)

subsection \<open>A peer that changes its address\<close>

lemma refresh_fields:
  "di_local_peer_id (fst (refresh_peer k p s now b d)) = di_local_peer_id d"
  "di_previous (fst (refresh_peer k p s now b d)) = di_previous d"
  "di_broadcast_interval (fst (refresh_peer k p s now b d)) = di_broadcast_interval d"
  by (simp_all add: refresh_peer_def Let_def)

lemma register_fresh_elsewhere:
  assumes "registry_ok d" "foreign d b" "(key, prior) \<in> set (di_peers d)" "lp_peer_id prior = bc_peer_id b"
    and "key \<noteq> endpoint_of ip (bc_port b)" "lp_ip prior \<noteq> ip" "now - lp_last_seen prior \<le> 2 * di_broadcast_interval d"
  shows "register_beacon ip now b d =
    refresh_peer key prior (if py_lower (bc_ssid b) = ''unavailable'' then [] else bc_ssid b) now b d"
proof (rule priors_cases [OF assms(1,2), of "endpoint_of ip (bc_port b)"])
  assume "\<And>e. e \<in> set (di_peers d) \<Longrightarrow> lp_peer_id (snd e) = bc_peer_id b \<Longrightarrow> fst e = endpoint_of ip (bc_port b)"
  from this [OF assms(3)] assms(4,5) show ?thesis by simp
next
  fix k p
  assume p: "filter (\<lambda>e. same_peer b (snd e) \<and> fst e \<noteq> endpoint_of ip (bc_port b)) (di_peers d) = [(k, p)]"
    "(k, p) \<in> set (di_peers d)" "lp_peer_id p = bc_peer_id b"
  then have "(k, p) = (key, prior)"
    using assms(1,3,4) unfolding registry_ok_def one_per_peer_def by (metis snd_conv)
  with p(1) assms(6,7) show ?thesis by (simp add: register_beacon_def Let_def)
qed

text \<open>
  A peer that moves to another host address is not followed: as long as its beacons from the new
  address come at most two broadcast intervals apart, each one only refreshes the time of the
  record, whose address stays the old one for ever. The rule that re-files a moved peer when its
  record is stale cannot apply, because the beacons themselves keep the record fresh.
\<close>
theorem moved_peer_keeps_old_address:
  assumes "registry_ok d" "foreign d b" "(key, prior) \<in> set (di_peers d)" "lp_peer_id prior = bc_peer_id b"
    and "key \<noteq> endpoint_of ip (bc_port b)" "lp_ip prior \<noteq> ip"
    and "successively (\<lambda>s t. t - s \<le> 2 * di_broadcast_interval d) (lp_last_seen prior # arrivals)"
  shows "\<exists>p. dict_get (di_peers (fold (\<lambda>now d. fst (register_beacon ip now b d)) arrivals d)) key = Some p \<and>
    lp_address p = lp_address prior \<and> lp_ip p = lp_ip prior \<and> lp_port p = lp_port prior \<and>
    lp_last_seen p = last (lp_last_seen prior # arrivals)"
  using assms
proof (induction arrivals arbitrary: d prior)
  case Nil
  then show ?case by (auto simp: registry_get)
next
  case (Cons t ts)
  let ?ssid = "if py_lower (bc_ssid b) = ''unavailable'' then [] else bc_ssid b"
  let ?d = "fst (register_beacon ip t b d)"
  have step: "register_beacon ip t b d = refresh_peer key prior ?ssid t b d"
    by (rule register_fresh_elsewhere [OF Cons.prems(1-6)]) (use Cons.prems(7) in simp)
  obtain p where p: "(key, p) \<in> set (di_peers ?d)" "lp_address p = lp_address prior" "lp_ip p = lp_ip prior"
    "lp_port p = lp_port prior" "lp_peer_id p = lp_peer_id prior" "lp_last_seen p = t"
    unfolding step using Cons.prems(1) by (auto simp: refresh_peer_def Let_def registry_ok_def set_dict_set)
  have "registry_ok ?d" unfolding step by (rule refresh_peer_ok [OF Cons.prems(1,3)])
  moreover have "foreign ?d b" unfolding step using Cons.prems(2) by (simp add: foreign_def refresh_fields)
  moreover have "successively (\<lambda>s t. t - s \<le> 2 * di_broadcast_interval ?d) (lp_last_seen p # ts)"
    unfolding step refresh_fields p(6) using Cons.prems(7) by (cases ts) auto
  ultimately obtain q where "dict_get (di_peers (fold (\<lambda>now d. fst (register_beacon ip now b d)) ts ?d)) key = Some q"
    "lp_address q = lp_address p" "lp_ip q = lp_ip p" "lp_port q = lp_port p" "lp_last_seen q = last (lp_last_seen p # ts)"
    using Cons.IH [of ?d p] Cons.prems(4-6) p by (metis (no_types, lifting))
  with p show ?case by (auto simp: last_ConsR split: if_splits)
qed

definition sample_beacon :: beacon where
  "sample_beacon = DiscoveryPacket ''00112233aabbccdd'' ''Bob'' 5000 [] []"

definition sample_registry :: discovery where
  "sample_registry = fst (register_beacon ''10.0.0.7'' 0 sample_beacon
     (LANDiscovery ''ffeeddccbbaa9988'' ''Alice'' 4000 [] DEFAULT_DISCOVERY_PORT DEFAULT_BROADCAST_INTERVAL None []))"

lemma sample_text:
  "py_lower ''00112233aabbccdd'' = ''00112233aabbccdd''" "py_lower ''ffeeddccbbaa9988'' = ''ffeeddccbbaa9988''"
  by code_simp+

lemma sample_port: "int_dec 5000 = ''5000''"
proof -
  have "char_of (53 :: nat) = CHR ''5''" "char_of (48 :: nat) = CHR ''0''" by code_simp+
  then show ?thesis by (simp add: int_dec_def nat_dec.simps)
qed

lemma sample_foreign:
  "foreign (LANDiscovery ''ffeeddccbbaa9988'' ''Alice'' 4000 [] DEFAULT_DISCOVERY_PORT DEFAULT_BROADCAST_INTERVAL None []) sample_beacon"
  "foreign sample_registry sample_beacon"
  by (simp_all add: foreign_def sample_beacon_def sample_registry_def DiscoveryPacket_def LANDiscovery_def sample_text
      register_beacon_def Let_def)

lemma moved_peer_keeps_old_address_witness:
  "\<exists>p. dict_get (di_peers (fold (\<lambda>now d. fst (register_beacon ''10.0.0.9'' now sample_beacon d)) [3, 6, 9] sample_registry)) ''10.0.0.7:5000'' = Some p \<and>
    lp_ip p = ''10.0.0.7'' \<and> lp_last_seen p = 9"
proof -
  obtain prior where prior: "(''10.0.0.7:5000'', prior) \<in> set (di_peers sample_registry)" "lp_peer_id prior = bc_peer_id sample_beacon"
    "lp_ip prior = ''10.0.0.7''" "lp_last_seen prior = 0" "di_broadcast_interval sample_registry = 3"
    by (simp add: sample_registry_def register_beacon_def LANDiscovery_def Let_def endpoint_of_def sample_beacon_def
        DiscoveryPacket_def sample_text sample_port DEFAULT_BROADCAST_INTERVAL_def)
  have "registry_ok sample_registry"
    unfolding sample_registry_def by (rule register_beacon_ok [OF registry_ok_new sample_foreign(1)])
  moreover have "''10.0.0.7:5000'' \<noteq> endpoint_of ''10.0.0.9'' (bc_port sample_beacon)"
    by (simp add: endpoint_of_def)
  ultimately show ?thesis
    using moved_peer_keeps_old_address [OF _ sample_foreign(2) prior(1,2), of "''10.0.0.9''" "[3, 6, 9]"] prior(3-5) by auto
qed

subsection \<open>Beacons on the wire\<close>

lemma hexval_byte_hex: "c \<in> set (bytes_hex bs) \<Longrightarrow> \<exists>d. hexval c = Some d"
  by (induction bs) (auto simp: bytes_hex_Cons)

lemma int_digits_total:
  "\<forall>c \<in> set s. \<exists>d. dv c = Some d \<Longrightarrow> after \<or> s \<noteq> [] \<Longrightarrow> int_digits dv base acc after s \<noteq> None"
  by (induction s arbitrary: acc after) auto

lemma py_int_hex_bytes_hex:
  assumes "bs \<noteq> []"
  shows "py_int_hex (bytes_hex bs) \<noteq> None"
proof -
  obtain b cs where bs: "bs = b # cs" using assms by (cases bs) auto
  have hx: "hexval (hexdigit n) = Some n" if "n < 16" for n using that by simp
  have "hexval CHR ''x'' = None" "hexval CHR ''X'' = None" "hexval CHR ''-'' = None" "hexval CHR ''+'' = None" by code_simp+
  then have ne: "hexdigit n \<notin> {CHR ''x'', CHR ''X'', CHR ''-'', CHR ''+''}" if "n < 16" for n
    using hx [OF that] by auto
  have "int_sign (bytes_hex bs) = (1, bytes_hex bs)" "hex_prefix (bytes_hex bs) = bytes_hex bs"
    using ne [of "unat b div 16"] ne [of "unat b mod 16"]
    by (auto simp: bs bytes_hex_Cons int_sign_def hex_prefix_def py_startswith_def)
  moreover have "int_digits hexval 16 0 False (bytes_hex bs) \<noteq> None"
    by (rule int_digits_total) (auto simp: hexval_byte_hex bs bytes_hex_Cons)
  ultimately show ?thesis by (simp add: py_int_hex_def)
qed

text \<open>
  Round trip of a beacon: what a device announces is what a receiver reads, with the nickname,
  the network name and the instance identifier cut to their limits and trimmed, provided the JSON
  library reads back the object it wrote.
\<close>
theorem beacon_roundtrip:
  assumes "length pid = 8" "1024 \<le> port" "port \<le> 65535"
    and "b = DiscoveryPacket (bytes_hex pid) nick port ssid inst"
    and "loads (dumps (JDict (beacon_payload b))) = Some (JDict (beacon_payload b))"
    and "beacon_to_bytes dumps b = Inr raw" "raw \<noteq> []"
  shows "beacon_from_bytes loads py_repr raw = Some (DiscoveryPacket (bytes_hex pid)
    (take 32 (py_strip (take 32 nick))) port (take 64 (py_strip (take 64 ssid))) (take 32 (py_strip (take 32 inst))))"
proof -
  have raw: "raw = dumps (JDict (beacon_payload b))" "length raw \<le> MAX_DISCOVERY_PACKET_SIZE"
    using assms(6) by (auto simp: beacon_to_bytes_def Let_def split: if_splits)
  have "py_int_hex (bytes_hex pid) \<noteq> None" by (rule py_int_hex_bytes_hex) (use assms(1) in auto)
  moreover have "bytes_hex pid \<noteq> []" using assms(1) length_bytes_hex [of pid] by fastforce
  ultimately show ?thesis
    using raw assms(1-3,5,7)
    by (simp add: beacon_from_bytes_def beacon_of_object_def assms(4) beacon_payload_def DiscoveryPacket_def
        json_get_def json_get_or_def Let_def)
qed

lemma beacon_roundtrip_witness:
  "beacon_from_bytes (\<lambda>_. Some (JDict (beacon_payload (DiscoveryPacket (bytes_hex [1, 2, 3, 4, 5, 6, 7, 8]) '' Bob'' 5000 [] ''i''))))
     (\<lambda>_. []) [1] = Some (DiscoveryPacket (bytes_hex [1, 2, 3, 4, 5, 6, 7, 8])
       (take 32 (py_strip (take 32 '' Bob''))) 5000 (take 64 (py_strip (take 64 []))) (take 32 (py_strip (take 32 ''i''))))"
  by (rule beacon_roundtrip [where dumps = "\<lambda>_. [1]"]) (simp_all add: beacon_to_bytes_def MAX_DISCOVERY_PACKET_SIZE_def)

end
