(* ===== verification/Config.thy ===== *)
theory Config
  imports Json Primitives Interfaces
begin

text \<open>
  The configuration of \<open>storage/config.py\<close>: validation and normalisation of the settings, the
  trust-on-first-use contact store, and the storage of configuration and identity. A file is absent,
  not UTF-8, not JSON, or a JSON value; the interprocess lock makes each operation on the identity
  file atomic. Peer records are those of \<open>models/peer.py\<close>.
\<close>

subsection \<open>Settings\<close>

definition VALID_DENSITIES :: "string set" where "VALID_DENSITIES = {''comfortable'', ''compact''}"
definition VALID_ACCENTS :: "string set" where "VALID_ACCENTS = {''blue'', ''cyan'', ''emerald'', ''purple''}"
definition VALID_TRANSPORTS :: "string set" where "VALID_TRANSPORTS = {''bluetooth'', ''lan''}"

definition DEFAULT_KEYBINDINGS :: "(string, string) dict" where
  "DEFAULT_KEYBINDINGS = [(''help'', ''f1''), (''edit_theme'', ''f2''), (''settings'', ''f3''), (''clear_chat'', ''ctrl+l''),
     (''quit'', ''ctrl+q''), (''scroll_up'', ''pageup''), (''scroll_down'', ''pagedown'')]"

fun parse_bool :: "json \<Rightarrow> bool \<Rightarrow> bool" where
  "parse_bool (JBool b) dflt = b"
| "parse_bool (JStr s) dflt =
     (let v = py_lower (py_strip s) in
      if v \<in> {''true'', ''1'', ''yes'', ''on''} then True
      else if v \<in> {''false'', ''0'', ''no'', ''off''} then False
      else dflt)"
| "parse_bool _ dflt = dflt"

text \<open>The key an action asks for, if any, and the loop over the actions with the keys already used.\<close>

definition requested_key :: "json_object \<Rightarrow> string \<Rightarrow> string option" where
  "requested_key kb action =
     (case json_get kb action of
        JStr raw \<Rightarrow> if py_strip raw = [] then None else Some (py_lower (py_strip raw))
      | _ \<Rightarrow> None)"

fun bind_keys :: "json_object \<Rightarrow> string set \<Rightarrow> (string, string) dict \<Rightarrow> (string, string) dict" where
  "bind_keys kb used [] = []"
| "bind_keys kb used ((action, dflt) # rest) =
     (let key = (case requested_key kb action of
                   None \<Rightarrow> dflt
                 | Some k \<Rightarrow> if k \<in> used then dflt else k)
      in (action, key) # bind_keys kb (insert key used) rest)"

definition validate_keybindings :: "json \<Rightarrow> (string, string) dict" where
  "validate_keybindings kb =
     (case kb of JDict d \<Rightarrow> bind_keys d {} DEFAULT_KEYBINDINGS | _ \<Rightarrow> DEFAULT_KEYBINDINGS)"

record app_config =
  nickname :: string
  debug :: bool
  density :: string
  show_timestamps :: bool
  accent :: string
  transport :: string
  max_hops :: int
  inter_fragment_delay_ms :: int
  keybindings :: "(string, string) dict"
  contacts :: "(string, string) dict"

definition clean :: "string \<Rightarrow> string" where
  "clean s = py_lower (py_strip s)"

definition json_strings :: "(string, string) dict \<Rightarrow> json_object" where
  "json_strings d = map (\<lambda>(k, v). (k, JStr v)) d"

definition clean_contacts :: "(string, string) dict \<Rightarrow> (string, string) dict" where
  "clean_contacts d =
     fold (\<lambda>(k, v) acc. if py_strip k \<noteq> [] \<and> py_strip v \<noteq> [] then dict_set (clean k) (clean v) acc else acc) d []"

text \<open>\<open>__post_init__\<close> of fields that already have their declared types.\<close>

definition AppConfig :: "app_config \<Rightarrow> app_config" where
  "AppConfig c =
     \<lparr>nickname = (if py_strip (nickname c) = [] then ''Anonymous'' else take 32 (py_strip (nickname c))),
      debug = debug c,
      density = (if density c \<in> VALID_DENSITIES then density c else ''comfortable''),
      show_timestamps = show_timestamps c,
      accent = (if accent c \<in> VALID_ACCENTS then accent c else ''blue''),
      transport = (if transport c \<in> VALID_TRANSPORTS then transport c else ''bluetooth''),
      max_hops = max 1 (min 7 (max_hops c)),
      inter_fragment_delay_ms = max 5 (min 500 (inter_fragment_delay_ms c)),
      keybindings = validate_keybindings (JDict (json_strings (keybindings c))),
      contacts = clean_contacts (contacts c)\<rparr>"

definition default_config :: app_config where
  "default_config = AppConfig \<lparr>nickname = ''Anonymous'', debug = False, density = ''comfortable'', show_timestamps = True,
     accent = ''blue'', transport = ''bluetooth'', max_hops = 3, inter_fragment_delay_ms = 20,
     keybindings = DEFAULT_KEYBINDINGS, contacts = []\<rparr>"

definition config_to_dict :: "app_config \<Rightarrow> json_object" where
  "config_to_dict c =
     [(''nickname'', JStr (nickname c)), (''debug'', JBool (debug c)), (''density'', JStr (density c)),
      (''show_timestamps'', JBool (show_timestamps c)), (''accent'', JStr (accent c)), (''transport'', JStr (transport c)),
      (''max_hops'', JInt (max_hops c)), (''inter_fragment_delay_ms'', JInt (inter_fragment_delay_ms c)),
      (''keybindings'', JDict (json_strings (keybindings c))), (''contacts'', JDict (json_strings (contacts c)))]"

fun lower_choice :: "json \<Rightarrow> string \<Rightarrow> string set \<Rightarrow> string" where
  "lower_choice (JStr s) dflt valid = (if py_lower s \<in> valid then py_lower s else dflt)"
| "lower_choice _ dflt valid = dflt"

text \<open>\<open>max(lo, min(hi, int(x)))\<close>, where \<open>ValueError\<close> and \<open>TypeError\<close> give the default.\<close>

definition clamp_int :: "json \<Rightarrow> int \<Rightarrow> int \<Rightarrow> int \<Rightarrow> exn + int" where
  "clamp_int v dflt lo hi =
     (case py_int v of
        Inr i \<Rightarrow> Inr (max lo (min hi i))
      | Inl e \<Rightarrow> if isinstance e ValueError \<or> isinstance e TypeError then Inr dflt else Inl e)"

definition load_contact :: "string \<times> json \<Rightarrow> (string, string) dict \<Rightarrow> (string, string) dict" where
  "load_contact kv acc =
     (case snd kv of
        JStr v \<Rightarrow> if fst kv \<noteq> [] \<and> v \<noteq> [] then dict_set (clean (fst kv)) (clean v) acc else acc
      | JDict obj \<Rightarrow>
          (case dict_get obj ''fingerprint'' of
             Some (JStr fp) \<Rightarrow> if fst kv \<noteq> [] \<and> fp \<noteq> [] then dict_set (clean (fst kv)) (clean fp) acc else acc
           | _ \<Rightarrow> acc)
      | _ \<Rightarrow> acc)"

definition config_from_dict :: "json \<Rightarrow> exn + app_config" where
  "config_from_dict data =
     (case data of
        JDict d \<Rightarrow>
          (let nick = (case json_get d ''nickname'' of
                         JStr s \<Rightarrow> if py_strip s \<noteq> [] then take 32 (py_strip s) else ''Anonymous''
                       | _ \<Rightarrow> ''Anonymous'')
           in case clamp_int (json_get_or d ''max_hops'' (JInt 3)) 3 1 7 of
                Inl e \<Rightarrow> Inl e
              | Inr hops \<Rightarrow>
                  case clamp_int (json_get_or d ''inter_fragment_delay_ms'' (JInt 20)) 20 5 500 of
                    Inl e \<Rightarrow> Inl e
                  | Inr delay \<Rightarrow>
                      Inr (AppConfig \<lparr>nickname = nick, debug = parse_bool (json_get d ''debug'') False,
                        density = lower_choice (json_get d ''density'') ''comfortable'' VALID_DENSITIES,
                        show_timestamps = parse_bool (json_get d ''show_timestamps'') True,
                        accent = lower_choice (json_get d ''accent'') ''blue'' VALID_ACCENTS,
                        transport = lower_choice (json_get d ''transport'') ''bluetooth'' VALID_TRANSPORTS,
                        max_hops = hops, inter_fragment_delay_ms = delay,
                        keybindings = validate_keybindings (json_get d ''keybindings''),
                        contacts = (case json_get d ''contacts'' of JDict raw \<Rightarrow> fold load_contact raw [] | _ \<Rightarrow> [])\<rparr>))
      | _ \<Rightarrow> Inr default_config)"

subsection \<open>Contacts\<close>

definition verify_contact :: "string \<Rightarrow> string \<Rightarrow> app_config \<Rightarrow> app_config \<times> bool" where
  "verify_contact peer_id fingerprint c =
     (if peer_id = [] \<or> fingerprint = [] then (c, False)
      else case dict_get (contacts c) (clean peer_id) of
             None \<Rightarrow> (c\<lparr>contacts := dict_set (clean peer_id) (clean fingerprint) (contacts c)\<rparr>, True)
           | Some stored \<Rightarrow> (c, py_lower stored = clean fingerprint))"

definition get_contact_fingerprint :: "string \<Rightarrow> app_config \<Rightarrow> string option" where
  "get_contact_fingerprint peer_id c = dict_get (contacts c) (clean peer_id)"

definition add_contact :: "string \<Rightarrow> string \<Rightarrow> app_config \<Rightarrow> app_config" where
  "add_contact peer_id fingerprint c = c\<lparr>contacts := dict_set (clean peer_id) (clean fingerprint) (contacts c)\<rparr>"

definition remove_contact :: "string \<Rightarrow> app_config \<Rightarrow> app_config \<times> bool" where
  "remove_contact peer_id c =
     (c\<lparr>contacts := dict_pop (clean peer_id) (contacts c)\<rparr>, dict_has (contacts c) (clean peer_id))"

subsection \<open>Peers\<close>

datatype PeerConnectionState = DISCONNECTED | CONNECTED | AUTHENTICATING | AUTHENTICATED

record peer =
  pr_peer_id :: string
  pr_nickname :: "string option"
  pr_fingerprint :: "string option"
  pr_last_seen :: "real option"
  pr_connection_state :: PeerConnectionState
  pr_transport :: string
  pr_address :: string
  pr_ssid :: "string option"

definition is_online :: "peer \<Rightarrow> bool" where
  "is_online p \<longleftrightarrow> pr_connection_state p \<noteq> DISCONNECTED"

definition display_name :: "peer \<Rightarrow> string" where
  "display_name p = (case pr_nickname p of Some n \<Rightarrow> if n \<noteq> [] then n else pr_peer_id p | None \<Rightarrow> pr_peer_id p)"


subsection \<open>Storage\<close>

datatype file_text = Not_Utf8 | Not_Json | Json json

record memory_storage =
  ms_config :: app_config
  ms_identity :: "identity option"
  ms_closed :: bool

definition InMemoryStorage :: "app_config option \<Rightarrow> identity option \<Rightarrow> memory_storage" where
  "InMemoryStorage config identity =
     \<lparr>ms_config = (case config of Some c \<Rightarrow> c | None \<Rightarrow> default_config), ms_identity = identity, ms_closed = False\<rparr>"

definition mem_load_config :: "memory_storage \<Rightarrow> exn + app_config" where
  "mem_load_config s = (if ms_closed s then Inl ConfigurationError else Inr (ms_config s))"

definition mem_save_config :: "app_config \<Rightarrow> memory_storage \<Rightarrow> memory_storage \<times> (exn + unit)" where
  "mem_save_config c s = (if ms_closed s then (s, Inl ConfigurationError) else (s\<lparr>ms_config := c\<rparr>, Inr ()))"

definition mem_load_identity :: "memory_storage \<Rightarrow> exn + identity option" where
  "mem_load_identity s = (if ms_closed s then Inl ConfigurationError else Inr (ms_identity s))"

definition mem_save_identity :: "identity \<Rightarrow> memory_storage \<Rightarrow> memory_storage \<times> (exn + unit)" where
  "mem_save_identity i s = (if ms_closed s then (s, Inl ConfigurationError) else (s\<lparr>ms_identity := Some i\<rparr>, Inr ()))"

definition mem_load_or_create_identity ::
  "crypto_lib \<Rightarrow> bytes \<Rightarrow> bytes \<Rightarrow> memory_storage \<Rightarrow> memory_storage \<times> (exn + identity)" where
  "mem_load_or_create_identity lib fresh_x fresh_ed s =
     (if ms_closed s then (s, Inl ConfigurationError)
      else case ms_identity s of
             Some i \<Rightarrow> (s, Inr i)
           | None \<Rightarrow>
               case identity_generate lib fresh_x fresh_ed of
                 Inl e \<Rightarrow> (s, Inl e)
               | Inr i \<Rightarrow> (s\<lparr>ms_identity := Some i\<rparr>, Inr i))"

definition mem_close :: "memory_storage \<Rightarrow> memory_storage" where
  "mem_close s = s\<lparr>ms_closed := True\<rparr>"

text \<open>The files; \<open>fs_backups\<close> are the copies of corrupt identity files, newest first.\<close>

record files =
  fs_config :: "file_text option"
  fs_identity :: "file_text option"
  fs_backups :: "file_text list"

definition corrupt_backup :: "files \<Rightarrow> files" where
  "corrupt_backup fs = (case fs_identity fs of None \<Rightarrow> fs | Some t \<Rightarrow> fs\<lparr>fs_backups := t # fs_backups fs\<rparr>)"

text \<open>The identity in a file, with the exception the reading raises; \<open>fresh_ed\<close> is never used.\<close>

definition read_identity :: "crypto_lib \<Rightarrow> file_text \<Rightarrow> exn + identity" where
  "read_identity lib t =
     (case t of
        Not_Utf8 \<Rightarrow> Inl UnicodeDecodeError
      | Not_Json \<Rightarrow> Inl JSONDecodeError
      | Json (JDict d) \<Rightarrow>
          (case (json_get d ''x25519_private'', json_get d ''ed25519_private'') of
             (JStr x, JStr ed) \<Rightarrow>
               (case bytes_fromhex x of
                  None \<Rightarrow> Inl ValueError
                | Some xb \<Rightarrow>
                    case bytes_fromhex ed of
                      None \<Rightarrow> Inl ValueError
                    | Some edb \<Rightarrow> identity_from_x25519_private lib [] xb (Some edb))
           | _ \<Rightarrow> Inl ConfigurationError)
      | Json _ \<Rightarrow> Inl ConfigurationError)"

definition is_identity_corrupted :: "crypto_lib \<Rightarrow> files \<Rightarrow> bool" where
  "is_identity_corrupted lib fs =
     (case fs_identity fs of None \<Rightarrow> False | Some t \<Rightarrow> (case read_identity lib t of Inl _ \<Rightarrow> True | Inr _ \<Rightarrow> False))"

definition file_load_config :: "bool \<Rightarrow> files \<Rightarrow> exn + app_config" where
  "file_load_config shut fs =
     (if shut then Inl ConfigurationError
      else case fs_config fs of
             None \<Rightarrow> Inr default_config
           | Some Not_Utf8 \<Rightarrow> Inl UnicodeDecodeError
           | Some Not_Json \<Rightarrow> Inl ConfigurationError
           | Some (Json (JDict d)) \<Rightarrow> config_from_dict (JDict d)
           | Some (Json _) \<Rightarrow> Inl ConfigurationError)"

definition file_save_config :: "bool \<Rightarrow> app_config \<Rightarrow> files \<Rightarrow> files \<times> (exn + unit)" where
  "file_save_config shut c fs =
     (if shut then (fs, Inl ConfigurationError)
      else (fs\<lparr>fs_config := Some (Json (JDict (config_to_dict c)))\<rparr>, Inr ()))"

definition load_identity_unlocked :: "crypto_lib \<Rightarrow> files \<Rightarrow> files \<times> (exn + identity option)" where
  "load_identity_unlocked lib fs =
     (case fs_identity fs of
        None \<Rightarrow> (fs, Inr None)
      | Some t \<Rightarrow>
          case read_identity lib t of
            Inr i \<Rightarrow> (fs, Inr (Some i))
          | Inl e \<Rightarrow>
              if isinstance e ValueError \<or> isinstance e InvalidKeyError \<or> isinstance e ConfigurationError
              then (corrupt_backup fs, Inl ConfigurationError)
              else (fs, Inl (if isinstance e OSError then ConfigurationError else e)))"

definition identity_payload :: "identity \<Rightarrow> json_object" where
  "identity_payload i =
     [(''x25519_private'', JStr (bytes_hex (id_x25519_private i))), (''ed25519_private'', JStr (bytes_hex (id_ed25519_private i))),
      (''fingerprint'', JStr (id_fingerprint i)), (''peer_id'', JStr (bytes_hex (id_peer_id i)))]"

definition save_identity_unlocked :: "crypto_lib \<Rightarrow> identity \<Rightarrow> files \<Rightarrow> files" where
  "save_identity_unlocked lib i fs =
     (let fs1 = (if is_identity_corrupted lib fs then corrupt_backup fs else fs)
      in fs1\<lparr>fs_identity := Some (Json (JDict (identity_payload i)))\<rparr>)"

definition file_load_identity :: "crypto_lib \<Rightarrow> bool \<Rightarrow> files \<Rightarrow> files \<times> (exn + identity option)" where
  "file_load_identity lib shut fs = (if shut then (fs, Inl ConfigurationError) else load_identity_unlocked lib fs)"

definition file_save_identity :: "crypto_lib \<Rightarrow> bool \<Rightarrow> identity \<Rightarrow> files \<Rightarrow> files \<times> (exn + unit)" where
  "file_save_identity lib shut i fs =
     (if shut then (fs, Inl ConfigurationError) else (save_identity_unlocked lib i fs, Inr ()))"

definition file_load_or_create_identity ::
  "crypto_lib \<Rightarrow> bool \<Rightarrow> bytes \<Rightarrow> bytes \<Rightarrow> files \<Rightarrow> files \<times> (exn + identity)" where
  "file_load_or_create_identity lib shut fresh_x fresh_ed fs =
     (if shut then (fs, Inl ConfigurationError)
      else case load_identity_unlocked lib fs of
             (fs1, Inl e) \<Rightarrow> (fs1, Inl e)
           | (fs1, Inr (Some i)) \<Rightarrow> (fs1, Inr i)
           | (fs1, Inr None) \<Rightarrow>
               case identity_generate lib fresh_x fresh_ed of
                 Inl e \<Rightarrow> (fs1, Inl e)
               | Inr i \<Rightarrow> (save_identity_unlocked lib i fs1, Inr i))"


subsection \<open>Trust on first use\<close>

datatype contact_event = Verify_Contact string string | Add_Contact string string | Remove_Contact string

fun contact_step :: "app_config \<Rightarrow> contact_event \<Rightarrow> app_config \<times> bool" where
  "contact_step c (Verify_Contact pid fp) = verify_contact pid fp c"
| "contact_step c (Add_Contact pid fp) = (add_contact pid fp c, True)"
| "contact_step c (Remove_Contact pid) = remove_contact pid c"

text \<open>The events that change the pin of a peer on purpose.\<close>

fun repins :: "string \<Rightarrow> contact_event \<Rightarrow> bool" where
  "repins pid (Verify_Contact pid' fp) = False"
| "repins pid (Add_Contact pid' fp) = (clean pid' = clean pid)"
| "repins pid (Remove_Contact pid') = (clean pid' = clean pid)"

lemma contact_step_keeps:
  assumes "\<not> repins pid e" "dict_get (contacts c) (clean pid) = Some f"
  shows "dict_get (contacts (fst (contact_step c e))) (clean pid) = Some f"
  using assms
  by (cases e) (auto simp: verify_contact_def add_contact_def remove_contact_def dict_simps simp del: map_of_eq_Some_iff
      split: option.split)

lemma contact_run_keeps:
  assumes "list_all (\<lambda>e. \<not> repins pid e) es" "dict_get (contacts c) (clean pid) = Some f"
  shows "dict_get (contacts (fst (run contact_step c es))) (clean pid) = Some f"
  using assms by (induction es arbitrary: c) (simp_all add: contact_step_keeps)

lemma verify_pins:
  assumes "snd (verify_contact pid fp c)"
  shows "pid \<noteq> []" "\<exists>f. dict_get (contacts (fst (verify_contact pid fp c))) (clean pid) = Some f \<and> py_lower f = clean fp"
  using assms by (auto simp: verify_contact_def dict_simps clean_def split: if_splits option.splits)

text \<open>
  C38. Trust on first use: once a fingerprint was accepted for a peer, then, whatever other contacts
  are verified, added or removed in between, exactly that fingerprint is accepted for the peer, up to
  case and surrounding space, until the contact itself is added again or removed.
\<close>
theorem trust_on_first_use:
  assumes "snd (verify_contact pid fp c)" "list_all (\<lambda>e. \<not> repins pid e) es"
  shows "snd (verify_contact pid fp' (fst (run contact_step (fst (verify_contact pid fp c)) es)))
    \<longleftrightarrow> fp' \<noteq> [] \<and> clean fp' = clean fp"
proof -
  obtain f where f: "dict_get (contacts (fst (verify_contact pid fp c))) (clean pid) = Some f" "py_lower f = clean fp"
    using verify_pins [OF assms(1)] by blast
  from contact_run_keeps [OF assms(2) f(1)] f(2) verify_pins(1) [OF assms(1)] show ?thesis
    by (auto simp: verify_contact_def simp del: map_of_eq_Some_iff)
qed

lemma trust_on_first_use_witness:
  "\<not> snd (verify_contact ''aa11'' ''beef'' (fst (run contact_step (fst (verify_contact ''aa11'' ''CAFE'' default_config))
     [Verify_Contact ''bb22'' ''0123'', Remove_Contact ''cc33''])))"
proof -
  have "clean ''cc33'' \<noteq> clean ''aa11''" "clean ''beef'' \<noteq> clean ''CAFE''" by code_simp+
  moreover have "snd (verify_contact ''aa11'' ''CAFE'' default_config)"
    by (simp add: verify_contact_def default_config_def AppConfig_def clean_contacts_def)
  ultimately show ?thesis
    using trust_on_first_use [of "''aa11''" "''CAFE''" default_config "[Verify_Contact ''bb22'' ''0123'', Remove_Contact ''cc33'']" "''beef''"]
    by simp
qed

text \<open>
  The conflict check of the key bindings can produce a conflict: binding the help action to the
  default key of another action leaves both actions on that key, because a default is taken without
  looking at the keys already used.
\<close>
theorem keybindings_conflict:
  "dict_get (validate_keybindings (JDict [(''help'', JStr ''F2'')])) ''help'' = Some ''f2'' \<and>
   dict_get (validate_keybindings (JDict [(''help'', JStr ''F2'')])) ''edit_theme'' = Some ''f2''"
proof -
  have "py_strip ''F2'' = ''F2''" "py_lower ''F2'' = ''f2''" by code_simp+
  then show ?thesis
    by (simp add: validate_keybindings_def DEFAULT_KEYBINDINGS_def requested_key_def json_get_def Let_def)
qed

subsection \<open>Reading back a configuration\<close>

lemma json_strings_get: "json_get (json_strings d) k = (case dict_get d k of None \<Rightarrow> JNull | Some v \<Rightarrow> JStr v)"
  by (induction d) (auto simp: json_strings_def json_get_def)

text \<open>Binding the keys a second time changes nothing.\<close>

lemma bind_keys_keys: "map fst (bind_keys kb used acts) = map fst acts"
  by (induction kb used acts rule: bind_keys.induct) (simp_all add: Let_def)




lemma py_isspace_lower [simp]: "py_isspace (py_lower_char c) = py_isspace c"
proof (cases "(65 \<le> (of_char c :: nat) \<and> (of_char c :: nat) \<le> 90) \<or> (192 \<le> (of_char c :: nat) \<and> (of_char c :: nat) \<le> 222 \<and> (of_char c :: nat) \<noteq> 215)")
  case True
  then have "of_char (char_of (of_char c + 32 :: nat) :: char) = (of_char c + 32 :: nat)"
    by (auto simp: of_char_of)
  with True show ?thesis by (auto simp: py_lower_char_def py_isspace_def Let_def)
next
  case False
  then have "py_lower_char c = c" unfolding py_lower_char_def Let_def by (rule if_not_P)
  then show ?thesis by simp
qed

lemma dropWhile_lower: "dropWhile py_isspace (map py_lower_char s) = map py_lower_char (dropWhile py_isspace s)"
  by (induction s) auto

lemma py_strip_lower: "py_strip (py_lower s) = py_lower (py_strip s)"
  by (simp add: py_strip_def py_lower_def dropWhile_lower rev_map)

lemma dropWhile_idem: "dropWhile P (dropWhile P s) = dropWhile P s"
  by (induction s) auto

lemma py_strip_strip [simp]: "py_strip (py_strip s) = py_strip s"
proof -
  let ?t = "dropWhile py_isspace s"
  have "dropWhile py_isspace (rev (dropWhile py_isspace (rev ?t))) = rev (dropWhile py_isspace (rev ?t))"
  proof (cases "rev (dropWhile py_isspace (rev ?t))")
    case (Cons c cs)
    obtain ws where "?t = rev (dropWhile py_isspace (rev ?t)) @ ws"
      by (metis rev_append rev_rev_ident takeWhile_dropWhile_id)
    with Cons have "?t = c # cs @ ws" by simp
    then have "\<not> py_isspace c" using hd_dropWhile [of py_isspace s] by (metis list.discI list.sel(1))
    with Cons show ?thesis by simp
  next
    case Nil
    then show ?thesis by (simp only: list.simps dropWhile.simps)
  qed
  then show ?thesis by (simp only: py_strip_def dropWhile_idem rev_rev_ident)
qed

lemma clean_clean [simp]: "clean (clean s) = clean s"
  by (simp add: clean_def py_strip_lower)

lemma clean_Nil: "clean s = [] \<longleftrightarrow> py_strip s = []"
  by (simp add: clean_def)

lemma requested_clean: "requested_key kb a = Some k \<Longrightarrow> k \<noteq> [] \<and> clean k = k"
  by (auto simp: requested_key_def clean_def py_strip_lower split: json.splits if_splits)

text \<open>Binding the keys a second time, from what the first pass chose, chooses the same.\<close>

lemma bind_keys_again:
  assumes "\<forall>(a, k) \<in> set (bind_keys kb used acts). requested_key kb' a = Some k"
  shows "bind_keys kb' used acts = bind_keys kb used acts"
  using assms
proof (induction kb used acts rule: bind_keys.induct)
  case (2 kb used a d rest)
  show ?case using 2 by (auto simp: Let_def split: option.splits if_splits)
qed simp

lemma bind_keys_clean:
  assumes "\<forall>(a, d) \<in> set acts. d \<noteq> [] \<and> clean d = d"
  shows "\<forall>(a, k) \<in> set (bind_keys kb used acts). k \<noteq> [] \<and> clean k = k"
  using assms
proof (induction kb used acts rule: bind_keys.induct)
  case (2 kb used a d rest)
  then show ?case by (auto simp: Let_def split: option.splits if_splits dest: requested_clean)
qed simp

lemma default_keys:
  "\<forall>(a, d) \<in> set DEFAULT_KEYBINDINGS. d \<noteq> [] \<and> clean d = d" "distinct (map fst DEFAULT_KEYBINDINGS)"
  by code_simp+

lemma requested_string:
  assumes "dict_get d a = Some k" "k \<noteq> []" "clean k = k"
  shows "requested_key (json_strings d) a = Some k"
proof -
  have "py_strip k \<noteq> []" using assms(2,3) by (metis clean_Nil)
  with assms show ?thesis by (simp add: requested_key_def json_strings_get clean_def)
qed

lemma validate_keybindings_again:
  "validate_keybindings (JDict (json_strings (validate_keybindings v))) = validate_keybindings v"
proof -
  have again: "bind_keys (json_strings (bind_keys kb {} DEFAULT_KEYBINDINGS)) {} DEFAULT_KEYBINDINGS = bind_keys kb {} DEFAULT_KEYBINDINGS" for kb
  proof (rule bind_keys_again, clarify)
    fix a k
    assume ak: "(a, k) \<in> set (bind_keys kb {} DEFAULT_KEYBINDINGS)"
    have "distinct (map fst (bind_keys kb {} DEFAULT_KEYBINDINGS))" by (simp add: bind_keys_keys default_keys)
    with ak have "dict_get (bind_keys kb {} DEFAULT_KEYBINDINGS) a = Some k" by simp
    then show "requested_key (json_strings (bind_keys kb {} DEFAULT_KEYBINDINGS)) a = Some k"
      using bind_keys_clean [OF default_keys(1), of kb "{}"] ak by (intro requested_string) auto
  qed
  have "bind_keys [] {} DEFAULT_KEYBINDINGS = DEFAULT_KEYBINDINGS" by code_simp
  with again [of "[]"] again show ?thesis by (simp add: validate_keybindings_def split: json.split)
qed

text \<open>Contacts that are clean already.\<close>

definition contacts_ok :: "(string, string) dict \<Rightarrow> bool" where
  "contacts_ok d \<longleftrightarrow> dict_ok d \<and> (\<forall>(k, v) \<in> set d. k \<noteq> [] \<and> v \<noteq> [] \<and> clean k = k \<and> clean v = v)"

lemma contacts_ok_set: "contacts_ok d \<Longrightarrow> clean k \<noteq> [] \<Longrightarrow> clean v \<noteq> [] \<Longrightarrow> contacts_ok (dict_set (clean k) (clean v) d)"
  using dict_set_subset [of "clean k" "clean v" d] by (auto simp: contacts_ok_def distinct_update)

lemma clean_contacts_ok: "contacts_ok (clean_contacts d)"
proof -
  have "contacts_ok acc \<Longrightarrow> contacts_ok (fold (\<lambda>(k, v) acc. if py_strip k \<noteq> [] \<and> py_strip v \<noteq> [] then dict_set (clean k) (clean v) acc else acc) d acc)" for acc
  proof (induction d arbitrary: acc)
    case (Cons e d)
    show ?case using Cons.IH Cons.prems by (cases e) (simp add: contacts_ok_set clean_Nil)
  qed simp
  from this [of "[]"] show ?thesis by (simp only: clean_contacts_def) (simp add: contacts_ok_def)
qed

lemma fold_set_new:
  assumes "dict_ok (acc @ d)" "\<And>k v acc. (k, v) \<in> set d \<Longrightarrow> g (k, v) acc = dict_set k v acc"
  shows "fold g d acc = acc @ d"
  using assms
proof (induction d arbitrary: acc)
  case (Cons e d)
  obtain k v where e: "e = (k, v)" by (cases e)
  have "g e acc = acc @ [e]" using Cons.prems e by (simp add: dict_set_new)
  with Cons e show ?case by simp
qed simp

lemma clean_contacts_id:
  assumes "contacts_ok d"
  shows "clean_contacts d = d" "fold load_contact (json_strings d) [] = d"
proof -
  have strip: "py_strip k \<noteq> []" if "clean k = k" "k \<noteq> []" for k using that by (metis clean_Nil)
  show "clean_contacts d = d"
    unfolding clean_contacts_def using assms strip
    by (subst fold_set_new) (auto simp: contacts_ok_def)
  have "fold load_contact (json_strings d) [] = fold (load_contact \<circ> (\<lambda>(k, v). (k, JStr v))) d []"
    by (simp add: json_strings_def fold_map)
  also have "\<dots> = [] @ d"
    using assms by (intro fold_set_new) (auto simp: contacts_ok_def load_contact_def)
  finally show "fold load_contact (json_strings d) [] = d" by simp
qed

definition config_ok :: "app_config \<Rightarrow> bool" where
  "config_ok c \<longleftrightarrow> nickname c \<noteq> [] \<and> length (nickname c) \<le> 32 \<and>
     density c \<in> VALID_DENSITIES \<and> accent c \<in> VALID_ACCENTS \<and> transport c \<in> VALID_TRANSPORTS \<and>
     1 \<le> max_hops c \<and> max_hops c \<le> 7 \<and> 5 \<le> inter_fragment_delay_ms c \<and> inter_fragment_delay_ms c \<le> 500 \<and>
     validate_keybindings (JDict (json_strings (keybindings c))) = keybindings c \<and> contacts_ok (contacts c)"

lemma AppConfig_ok: "config_ok (AppConfig c)"
  by (auto simp: config_ok_def AppConfig_def validate_keybindings_again clean_contacts_ok VALID_DENSITIES_def
      VALID_ACCENTS_def VALID_TRANSPORTS_def)

lemma loaded_ok: "config_from_dict data = Inr c \<Longrightarrow> config_ok c"
  by (auto simp: config_from_dict_def default_config_def Let_def AppConfig_ok split: json.splits sum.splits)

lemma valid_lower:
  "s \<in> VALID_DENSITIES \<Longrightarrow> py_lower s = s" "s \<in> VALID_ACCENTS \<Longrightarrow> py_lower s = s" "s \<in> VALID_TRANSPORTS \<Longrightarrow> py_lower s = s"
proof -
  have "\<forall>s \<in> VALID_DENSITIES \<union> VALID_ACCENTS \<union> VALID_TRANSPORTS. py_lower s = s" by code_simp
  then show "s \<in> VALID_DENSITIES \<Longrightarrow> py_lower s = s" "s \<in> VALID_ACCENTS \<Longrightarrow> py_lower s = s" "s \<in> VALID_TRANSPORTS \<Longrightarrow> py_lower s = s" by auto
qed

lemma config_dict_roundtrip:
  assumes "config_ok c" "py_strip (nickname c) = nickname c"
  shows "config_from_dict (JDict (config_to_dict c)) = Inr c"
proof -
  note ok = assms(1) [unfolded config_ok_def]
  have "AppConfig c = c"
    using ok assms(2) clean_contacts_id(1) [of "contacts c"] by (cases c) (simp add: AppConfig_def)
  then show ?thesis
    using ok assms(2) valid_lower clean_contacts_id(2) [of "contacts c"]
    by (cases c) (simp add: config_from_dict_def config_to_dict_def json_get_def json_get_or_def clamp_int_def Let_def)
qed

text \<open>
  Settings survive a restart: a configuration that was loaded, from whatever file, is read back
  unchanged after it is saved, provided its nickname does not end in a space (cutting a nickname to
  32 characters can leave one, which the next start trims). Every loaded configuration has its
  choices and numbers in range, one binding per action and clean contacts.
\<close>
theorem config_persisted:
  assumes "config_from_dict data = Inr c"
  shows "config_ok c \<and> (py_strip (nickname c) = nickname c \<longrightarrow>
    file_load_config False (fst (file_save_config False c fs)) = Inr c)"
  using loaded_ok [OF assms] config_dict_roundtrip by (simp add: file_load_config_def file_save_config_def)

lemma config_persisted_witness:
  "file_load_config False (fst (file_save_config False default_config \<lparr>fs_config = None, fs_identity = None, fs_backups = []\<rparr>))
     = Inr default_config"
proof -
  have "py_strip ''Anonymous'' = ''Anonymous''" by code_simp
  then have "py_strip (nickname default_config) = nickname default_config" by (simp add: default_config_def AppConfig_def)
  then show ?thesis using config_persisted [of JNull default_config] by (simp add: config_from_dict_def)
qed


subsection \<open>One identity per device\<close>

text \<open>Loading the configuration may raise two exceptions that are not \<open>ConfigurationError\<close>.\<close>

lemma load_config_unexpected:
  "file_load_config False (fs\<lparr>fs_config := Some (Json (JDict [(''max_hops'', JFloat (Infinite False))]))\<rparr>) = Inl OverflowError"
  "file_load_config False (fs\<lparr>fs_config := Some Not_Utf8\<rparr>) = Inl UnicodeDecodeError"
  by (simp_all add: file_load_config_def config_from_dict_def clamp_int_def json_get_or_def isinstance_def eval_nat_numeral Let_def)

definition identity_step :: "crypto_lib \<Rightarrow> files \<Rightarrow> bytes \<times> bytes \<Rightarrow> files \<times> (exn + identity)" where
  "identity_step lib fs e = file_load_or_create_identity lib False (fst e) (snd e) fs"

definition answers :: "(exn + 'a) list \<Rightarrow> 'a list" where
  "answers outs = List.map_filter (\<lambda>out. case out of Inl _ \<Rightarrow> None | Inr i \<Rightarrow> Some i) outs"

lemma read_saved:
  assumes "identity_generate lib fx fed = Inr i"
  shows "read_identity lib (Json (JDict (identity_payload i))) = Inr i"
proof -
  have "id_x25519_private i = fx" "id_ed25519_private i = fed"
    using assms by (auto simp: identity_generate_def identity_from_private_keys_def Let_def split: sum.splits)
  with assms show ?thesis
    by (simp add: read_identity_def identity_payload_def json_get_def identity_from_x25519_private_def identity_generate_def)
qed

text \<open>A readable identity is answered for ever, and nothing is written.\<close>

lemma identity_stable:
  "fs_identity fs = Some t \<Longrightarrow> read_identity lib t = Inr i \<Longrightarrow> identity_step lib fs e = (fs, Inr i)"
  by (simp add: identity_step_def file_load_or_create_identity_def load_identity_unlocked_def)

lemma identity_answered:
  assumes "identity_step lib fs e = (fs', Inr i)"
  shows "\<exists>t. fs_identity fs' = Some t \<and> read_identity lib t = Inr i"
proof (cases "fs_identity fs")
  case None
  then have "identity_generate lib (fst e) (snd e) = Inr i" "fs' = save_identity_unlocked lib i fs"
    using assms by (auto simp: identity_step_def file_load_or_create_identity_def load_identity_unlocked_def split: sum.splits)
  then show ?thesis using read_saved by (auto simp: save_identity_unlocked_def Let_def)
next
  case (Some t)
  with assms show ?thesis
    by (cases "read_identity lib t")
       (auto simp: identity_step_def file_load_or_create_identity_def load_identity_unlocked_def split: if_splits)
qed

text \<open>A file that cannot be read as an identity is copied to a backup and left as it is.\<close>

lemma identity_refused:
  assumes "fs_identity fs = Some t" "read_identity lib t = Inl x"
    and "isinstance x ValueError \<or> isinstance x InvalidKeyError \<or> isinstance x ConfigurationError"
  shows "identity_step lib fs e = (fs\<lparr>fs_backups := t # fs_backups fs\<rparr>, Inl ConfigurationError)"
  using assms by (simp add: identity_step_def file_load_or_create_identity_def load_identity_unlocked_def corrupt_backup_def)

lemma identity_run_stable:
  "fs_identity fs = Some t \<Longrightarrow> read_identity lib t = Inr i \<Longrightarrow> set (snd (run (identity_step lib) fs es)) \<subseteq> {Inr i}"
  by (induction es) (simp_all add: identity_stable)

lemma answers_Cons [simp]: "answers (Inl x # outs) = answers outs" "answers (Inr i # outs) = i # answers outs" "answers [] = []"
  by (simp_all add: answers_def map_filter_simps)

lemma answers_constant: "set outs \<subseteq> {Inr i} \<Longrightarrow> set (answers outs) \<subseteq> {i}"
  by (induction outs) auto

text \<open>
  C37. One identity per device: whatever the identity file holds at first, and however many processes
  load or create the identity, each with its own fresh keys, in whatever order the file lock lets
  them in, all that succeed obtain the same identity.
\<close>
theorem identity_never_forks:
  "\<exists>i. set (answers (snd (run (identity_step lib) fs attempts))) \<subseteq> {i}"
proof (induction attempts arbitrary: fs)
  case (Cons e es)
  show ?case
  proof (cases "identity_step lib fs e")
    case (Pair fs' r)
    show ?thesis
    proof (cases r)
      case (Inl x)
      with Pair Cons show ?thesis by simp
    next
      case (Inr i)
      obtain t where "fs_identity fs' = Some t" "read_identity lib t = Inr i"
        using identity_answered Pair Inr by blast
      from answers_constant [OF identity_run_stable [OF this]] Pair Inr show ?thesis by (intro exI [of _ i]) simp
    qed
  qed
qed simp

end
