(* ===== verification/Coordinator.thy ===== *)
theory Coordinator
  imports Reassembly Router Sessions Discovery Config
begin

text \<open>
  \<open>SessionCoordinator\<close> of \<open>app/session_coordinator.py\<close>: its tables, its Noise sessions and their
  timers, the look-up of addresses and the sending of packets. Sessions are shared by reference
  (suspended tasks hold them after they leave the table), so they live in a heap, and the table maps
  a peer to an index of it. A transport is seen through what the coordinator asks of it; what it is
  told to send, the callbacks of the user interface and the tasks that were spawned are recorded in
  the order in which they happen.
\<close>

definition NOISE_HANDSHAKE_TIMEOUT_SECONDS :: real where "NOISE_HANDSHAKE_TIMEOUT_SECONDS = 10"
definition MAX_TTL :: int where [simp]: "MAX_TTL = 7"
definition MAX_MESSAGE_SIZE :: nat where "MAX_MESSAGE_SIZE = 32768"
definition MAX_PENDING_HANDSHAKES :: nat where "MAX_PENDING_HANDSHAKES = 64"

text \<open>A peer as a transport reports it; \<open>''''\<close> stands for an attribute that is missing or empty.\<close>

record found_peer =
  fp_address :: string
  fp_peer_id :: string
  fp_name :: string
  fp_nickname :: string
  fp_rssi :: "string option"

definition found_of_lan :: "lan_peer \<Rightarrow> found_peer" where
  "found_of_lan p = \<lparr>fp_address = lp_address p, fp_peer_id = lp_peer_id p, fp_name = lan_peer_name p,
     fp_nickname = lp_nickname p, fp_rssi = None\<rparr>"

definition found_name :: "found_peer \<Rightarrow> string" where
  "found_name p = (if fp_name p \<noteq> [] then fp_name p else fp_nickname p)"

text \<open>
  What one step of the event loop sees of the world: the clock, the octets of a fresh key, the active
  transport, and the decoding of UTF-8 (\<open>None\<close> for \<open>UnicodeDecodeError\<close>).
\<close>

record env =
  en_lib :: crypto_lib
  en_now :: real
  en_stamp :: int
  en_fresh :: bytes
  en_connected :: "string list"
  en_inbound :: "string list"
  en_discovered :: "(string, found_peer) dict"
  en_resolve :: "string \<Rightarrow> string option"
  en_utf8 :: "bytes \<Rightarrow> string option"
  en_utf8_replace :: "bytes \<Rightarrow> string"

datatype transmission = To_Peer string packet | To_All packet "string option"

datatype notification =
    Got_Message string string bool | Peer_Status string string | Handshake_Completed string string

text \<open>A spawned task, or what is left of one that waits: for a send, a delay or a session.\<close>

datatype task =
    Process packet "string option"
  | Relay packet "string option" "string option"
  | Relay_Now packet "string option" "string option"
  | Relay_Sent packet string "string option"
  | Send_Direct string string
  | Send string packet
  | Send_To string packet
  | Announce_Self
  | After_Reply string nat
  | Await_Session string nat packet nat

record coordinator =
  co_identity :: identity
  co_storage :: "files option"
  co_nickname :: string
  co_router :: router
  co_reassembler :: reassembler
  co_heap :: "session list"
  co_sessions :: "(string, nat) dict"
  co_pending :: "(string, string list) dict"
  co_peer_addresses :: "(string, string) dict"
  co_address_to_peer :: "(string, string) dict"
  co_nicknames :: "(string, string) dict"
  co_announced :: "string list"
  co_timers :: "(string, nat) dict"
  co_tasks :: "task list"
  co_status :: string
  co_running :: bool
  co_sent :: "transmission list"
  co_events :: "notification list"

definition SessionCoordinator :: "identity \<Rightarrow> files option \<Rightarrow> string \<Rightarrow> router option \<Rightarrow> coordinator" where
  "SessionCoordinator ident storage nick mesh_router =
     \<lparr>co_identity = ident, co_storage = storage, co_nickname = nick,
      co_router = (case mesh_router of None \<Rightarrow> default_router (id_peer_id ident) | Some r \<Rightarrow> r),
      co_reassembler = default_reassembler, co_heap = [], co_sessions = [], co_pending = [],
      co_peer_addresses = [], co_address_to_peer = [], co_nicknames = [], co_announced = [],
      co_timers = [], co_tasks = [], co_status = ''offline'', co_running = False, co_sent = [], co_events = []\<rparr>"

abbreviation own_id :: "coordinator \<Rightarrow> string" where
  "own_id c \<equiv> peer_id_hex (co_identity c)"

definition spawn :: "task \<Rightarrow> coordinator \<Rightarrow> coordinator" where
  "spawn t c = c\<lparr>co_tasks := co_tasks c @ [t]\<rparr>"

definition spawn_all :: "task list \<Rightarrow> coordinator \<Rightarrow> coordinator" where
  "spawn_all ts c = c\<lparr>co_tasks := co_tasks c @ ts\<rparr>"

definition transmit :: "transmission \<Rightarrow> coordinator \<Rightarrow> coordinator" where
  "transmit t c = c\<lparr>co_sent := co_sent c @ [t]\<rparr>"

definition notify :: "notification \<Rightarrow> coordinator \<Rightarrow> coordinator" where
  "notify n c = c\<lparr>co_events := co_events c @ [n]\<rparr>"

text \<open>\<open>x or None\<close>: an empty string counts as missing.\<close>

definition truthy :: "string option \<Rightarrow> string option" where
  "truthy x = (case x of Some [] \<Rightarrow> None | _ \<Rightarrow> x)"

definition decode_chat_payload :: "env \<Rightarrow> bytes \<Rightarrow> string" where
  "decode_chat_payload env pl =
     (case en_utf8 env pl of
        Some s \<Rightarrow> s
      | None \<Rightarrow>
          (case (if length pl > 1 \<and> uint (hd pl) = mt_value Message then en_utf8 env (tl pl) else None) of
             Some s \<Rightarrow> s
           | None \<Rightarrow> en_utf8_replace env pl))"

definition prune_caches :: "real \<Rightarrow> coordinator \<Rightarrow> coordinator" where
  "prune_caches now c =
     (let r = co_router c;
          r1 = r\<lparr>deduplicator := fst (dedup_prune_expired now (deduplicator r))\<rparr>;
          r2 = r1\<lparr>store_forward_queue := fst (sf_prune_expired now (store_forward_queue r1))\<rparr>;
          r3 = fst (prune_rate_limiter 1 now (fst (prune_routes None now r2)))
      in c\<lparr>co_reassembler := fst (reasm_prune_stale now 60 (co_reassembler c)), co_router := r3\<rparr>)"

subsection \<open>Sessions and their timers\<close>

definition put_session :: "nat \<Rightarrow> session \<Rightarrow> coordinator \<Rightarrow> coordinator" where
  "put_session i s c = c\<lparr>co_heap := (co_heap c)[i := s]\<rparr>"

definition schedule_handshake_timeout :: "string \<Rightarrow> nat \<Rightarrow> coordinator \<Rightarrow> coordinator" where
  "schedule_handshake_timeout peer i c =
     (if dict_has (co_timers c) peer then c else c\<lparr>co_timers := dict_set peer i (co_timers c)\<rparr>)"

definition cancel_handshake_timeout :: "string \<Rightarrow> coordinator \<Rightarrow> coordinator" where
  "cancel_handshake_timeout peer c = c\<lparr>co_timers := dict_pop peer (co_timers c)\<rparr>"

definition discard_failed_session :: "string \<Rightarrow> nat \<Rightarrow> bool \<Rightarrow> coordinator \<Rightarrow> coordinator" where
  "discard_failed_session peer i force c =
     (let s = co_heap c ! i in
      if \<not> force \<and> se_state s \<noteq> FAILED then c
      else let c1 = cancel_handshake_timeout peer c;
               s1 = session_close s;
               s2 = (if se_state s = FAILED then s1\<lparr>se_state := FAILED\<rparr> else s1);
               c2 = put_session i s2 c1;
               c3 = (if dict_get (co_sessions c2) peer = Some i
                     then c2\<lparr>co_sessions := dict_pop peer (co_sessions c2)\<rparr> else c2)
           in c3\<lparr>co_pending := dict_pop peer (co_pending c3)\<rparr>)"

text \<open>The timer of a peer fires.\<close>

definition timer_fires :: "string \<Rightarrow> coordinator \<Rightarrow> coordinator" where
  "timer_fires peer c =
     (case dict_get (co_timers c) peer of
        None \<Rightarrow> c
      | Some i \<Rightarrow>
          cancel_handshake_timeout peer
            (if dict_get (co_sessions c) peer = Some i \<and> se_state (co_heap c ! i) = HANDSHAKING
             then discard_failed_session peer i False (put_session i ((co_heap c ! i)\<lparr>se_state := FAILED\<rparr>) c)
             else c))"

definition expire_handshake :: "string \<Rightarrow> coordinator \<Rightarrow> coordinator" where
  "expire_handshake peer c =
     (case dict_get (co_sessions c) peer of
        None \<Rightarrow> c
      | Some i \<Rightarrow> discard_failed_session peer i True (put_session i ((co_heap c ! i)\<lparr>se_state := FAILED\<rparr>) c))"

definition pending_handshakes_count :: "coordinator \<Rightarrow> nat" where
  "pending_handshakes_count c =
     length (filter (\<lambda>e. se_state (co_heap c ! snd e) = HANDSHAKING) (co_sessions c))"

definition get_or_create_session :: "string \<Rightarrow> coordinator \<Rightarrow> coordinator \<times> (exn + nat)" where
  "get_or_create_session peer c =
     (if py_lower (py_strip peer) = py_lower (own_id c) then (c, Inl ValueError)
      else case dict_get (co_sessions c) peer of
             Some i \<Rightarrow> (c, Inr i)
           | None \<Rightarrow>
               (case NoiseSession (co_identity c) peer None of
                  Inl e \<Rightarrow> (c, Inl e)
                | Inr s \<Rightarrow> (c\<lparr>co_heap := co_heap c @ [s], co_sessions := dict_set peer (length (co_heap c)) (co_sessions c)\<rparr>,
                            Inr (length (co_heap c)))))"

definition get_session :: "string \<Rightarrow> coordinator \<Rightarrow> nat option" where
  "get_session peer c = dict_get (co_sessions c) peer"

subsection \<open>Names and addresses\<close>

definition is_nickname_spoofed :: "string \<Rightarrow> string \<Rightarrow> coordinator \<Rightarrow> bool" where
  "is_nickname_spoofed peer nick c =
     (if nick = [] \<or> py_strip nick = [] then True
      else let clean_nick = py_lower (py_strip nick); clean_pid = py_lower (py_strip peer) in
        if co_nickname c \<noteq> [] \<and> clean_nick = py_lower (py_strip (co_nickname c)) then True
        else list_ex (\<lambda>e. py_lower (fst e) \<noteq> clean_pid \<and> py_lower (py_strip (snd e)) = clean_nick) (co_nicknames c))"

text \<open>\<open>s.lstrip("@")\<close>, and \<open>s.replace(":", "").replace("-", "")\<close>.\<close>

definition clean_target :: "string \<Rightarrow> string" where
  "clean_target s = py_lower (dropWhile (\<lambda>ch. ch = CHR ''@'') (py_strip s))"

definition plain_address :: "string \<Rightarrow> string" where
  "plain_address s = filter (\<lambda>ch. ch \<noteq> CHR '':'' \<and> ch \<noteq> CHR ''-'') s"

definition id_matches :: "string \<Rightarrow> string \<Rightarrow> bool" where
  "id_matches cl pid \<longleftrightarrow> py_lower pid = cl \<or> py_startswith (py_lower pid) cl"

definition found_matches :: "string \<Rightarrow> string \<times> found_peer \<Rightarrow> bool" where
  "found_matches cl e \<longleftrightarrow>
     (let pid = fp_peer_id (snd e); pname = found_name (snd e) in
      (pid \<noteq> [] \<and> id_matches cl pid) \<or>
      (pname \<noteq> [] \<and> (py_lower pname = cl \<or> py_in cl (py_lower pname))) \<or>
      py_lower (fst e) = cl \<or> plain_address (py_lower (fst e)) = plain_address cl)"

definition resolve_peer_address :: "env \<Rightarrow> string \<Rightarrow> coordinator \<Rightarrow> string option" where
  "resolve_peer_address env target c =
     (let cl = clean_target target in
      case List.find (\<lambda>e. id_matches cl (fst e)) (co_peer_addresses c) of
        Some e \<Rightarrow> Some (snd e)
      | None \<Rightarrow>
      case List.find (\<lambda>e. py_lower (snd e) = cl \<and> dict_has (co_peer_addresses c) (fst e)) (co_nicknames c) of
        Some e \<Rightarrow> dict_get (co_peer_addresses c) (fst e)
      | None \<Rightarrow>
      case truthy (en_resolve env target) of
        Some a \<Rightarrow> Some a
      | None \<Rightarrow>
      case List.find (found_matches cl) (en_discovered env) of
        Some e \<Rightarrow> Some (fst e)
      | None \<Rightarrow> map_option fst (List.find (\<lambda>e. id_matches cl (snd e)) (co_address_to_peer c)))"

definition resolve_connected_peer_address :: "env \<Rightarrow> string \<Rightarrow> coordinator \<Rightarrow> string option" where
  "resolve_connected_peer_address env target c =
     (let connected = set (en_connected env) in
      case Option.bind (truthy (dict_get (co_peer_addresses c) target)) (\<lambda>a. if a \<in> connected then Some a else None) of
        Some a \<Rightarrow> Some a
      | None \<Rightarrow>
          (case List.find (\<lambda>e. py_lower (snd e) = py_lower target \<and> fst e \<in> connected) (co_address_to_peer c) of
             Some e \<Rightarrow> Some (fst e)
           | None \<Rightarrow> if target \<in> connected then Some target else None))"

subsection \<open>Sending\<close>

text \<open>The address for a peer: its own, or that of the next hop towards it.\<close>

definition route_address :: "env \<Rightarrow> string \<Rightarrow> coordinator \<Rightarrow> coordinator \<times> string option" where
  "route_address env target c =
     (case truthy (resolve_connected_peer_address env target c) of
        Some a \<Rightarrow> (c, Some a)
      | None \<Rightarrow>
          (case get_next_hop (PStr target) (en_now env) (co_router c) of
             (r, hop) \<Rightarrow>
               (c\<lparr>co_router := r\<rparr>,
                case truthy hop of
                  None \<Rightarrow> None
                | Some h \<Rightarrow> truthy (resolve_connected_peer_address env h (c\<lparr>co_router := r\<rparr>)))))"

definition record_sent :: "real \<Rightarrow> packet \<Rightarrow> coordinator \<Rightarrow> coordinator" where
  "record_sent now p c = c\<lparr>co_router := (co_router c)\<lparr>deduplicator := record_packet now p (deduplicator (co_router c))\<rparr>\<rparr>"

definition send_packet_to :: "env \<Rightarrow> string \<Rightarrow> packet \<Rightarrow> coordinator \<Rightarrow> coordinator" where
  "send_packet_to env target p c =
     (let c1 = record_sent (en_now env) p c in
      case (if target = [] then (c1, None) else route_address env target c1) of
        (c2, Some a) \<Rightarrow> transmit (To_Peer a p) c2
      | (c2, None) \<Rightarrow> transmit (To_All p None) c2)"

definition broadcast_packet :: "env \<Rightarrow> packet \<Rightarrow> string option \<Rightarrow> coordinator \<Rightarrow> coordinator" where
  "broadcast_packet env p exclude c = transmit (To_All p exclude) (record_sent (en_now env) p c)"

definition own_packet :: "env \<Rightarrow> MessageType \<Rightarrow> bytes option \<Rightarrow> bytes \<Rightarrow> coordinator \<Rightarrow> exn + packet" where
  "own_packet env mt recipient pl c = create_default (en_stamp env) mt (id_peer_id (co_identity c)) pl recipient"

definition send_announce :: "env \<Rightarrow> string option \<Rightarrow> coordinator \<Rightarrow> coordinator \<times> (exn + unit)" where
  "send_announce env nick c =
     (let name = (case truthy nick of Some n \<Rightarrow> n | None \<Rightarrow> co_nickname c) in
      case own_packet env Announce None (py_utf8 name) c of
        Inl e \<Rightarrow> (c, Inl e)
      | Inr p \<Rightarrow> (broadcast_packet env p None c, Inr ()))"

definition send_broadcast_message :: "env \<Rightarrow> string \<Rightarrow> coordinator \<Rightarrow> coordinator \<times> (exn + unit)" where
  "send_broadcast_message env txt c =
     (if length (py_utf8 txt) > MAX_MESSAGE_SIZE then (c, Inl ValueError)
      else case own_packet env Message None (py_utf8 txt) c of
             Inl e \<Rightarrow> (c, Inl e)
           | Inr p \<Rightarrow> (broadcast_packet env p None c, Inr ()))"

text \<open>A packet of our own for one peer, given by its hexadecimal identifier.\<close>

definition send_own :: "env \<Rightarrow> string \<Rightarrow> MessageType \<Rightarrow> bytes \<Rightarrow> coordinator \<Rightarrow> coordinator \<times> (exn + unit)" where
  "send_own env peer mt pl c =
     (case bytes_fromhex peer of
        None \<Rightarrow> (c, Inl ValueError)
      | Some recipient \<Rightarrow>
          (case own_packet env mt (Some recipient) pl c of
             Inl e \<Rightarrow> (c, Inl e)
           | Inr p \<Rightarrow> (send_packet_to env peer p c, Inr ())))"

definition queue_text :: "string \<Rightarrow> string \<Rightarrow> coordinator \<Rightarrow> coordinator" where
  "queue_text peer txt c =
     c\<lparr>co_pending := dict_set peer ((case dict_get (co_pending c) peer of None \<Rightarrow> [] | Some ts \<Rightarrow> ts) @ [txt]) (co_pending c)\<rparr>"

text \<open>The handshake that a first message to a peer needs.\<close>

definition open_handshake :: "env \<Rightarrow> string \<Rightarrow> nat \<Rightarrow> coordinator \<Rightarrow> coordinator \<times> (exn + unit)" where
  "open_handshake env peer i c =
     (if se_role (co_heap c ! i) = INITIATOR
      then (case start_handshake (en_lib env) (en_fresh env) (co_heap c ! i) of
              (s, Inl e) \<Rightarrow> (put_session i s c, Inl e)
            | (s, Inr None) \<Rightarrow> (put_session i s c, Inr ())
            | (s, Inr (Some m)) \<Rightarrow>
                send_own env peer NoiseHandshakeInit m (schedule_handshake_timeout peer i (put_session i s c)))
      else send_own env peer HandshakeRequest [] c)"

definition send_direct_message :: "env \<Rightarrow> string \<Rightarrow> string \<Rightarrow> coordinator \<Rightarrow> coordinator \<times> (exn + unit)" where
  "send_direct_message env peer txt c =
     (if length (py_utf8 txt) > MAX_MESSAGE_SIZE then (c, Inl ValueError)
      else case get_or_create_session peer c of
             (c1, Inl e) \<Rightarrow> (c1, Inl e)
           | (c1, Inr i) \<Rightarrow>
               if \<not> is_established (co_heap c1 ! i)
               then let c2 = queue_text peer txt c1 in
                 if se_state (co_heap c2 ! i) = UNINITIALIZED then open_handshake env peer i c2 else (c2, Inr ())
               else (case session_encrypt (en_lib env) (py_utf8 txt) (co_heap c1 ! i) of
                       (s, Inl e) \<Rightarrow> (put_session i s c1, Inl e)
                     | (s, Inr ct) \<Rightarrow> send_own env peer NoiseEncrypted ct (put_session i s c1)))"

end
