(* ===== verification/Dispatch.thy ===== *)
theory Dispatch
  imports Coordinator
begin

text \<open>
  The second half of \<open>SessionCoordinator\<close>: what happens to the packets that arrive and to the peers
  that come and go. A handler runs until it waits; the rest of it is a task, and the event loop runs
  the tasks in any order. \<open>None\<close> means that the handler does not return (an eviction loop of the
  store-and-forward queue may not end).
\<close>

subsection \<open>Incoming packets\<close>

definition store_packet :: "env \<Rightarrow> string \<Rightarrow> packet \<Rightarrow> coordinator \<Rightarrow> (coordinator \<times> (exn + unit)) option" where
  "store_packet env peer p c =
     (case enqueue (en_now env) (PStr peer) p (store_forward_queue (co_router c)) of
        None \<Rightarrow> None
      | Some (q, r) \<Rightarrow>
          Some (c\<lparr>co_router := (co_router c)\<lparr>store_forward_queue := q\<rparr>\<rparr>,
                case r of Inl e \<Rightarrow> Inl e | Inr stored \<Rightarrow> Inr ()))"

definition handle_incoming_packet ::
  "env \<Rightarrow> packet \<Rightarrow> string option \<Rightarrow> coordinator \<Rightarrow> (coordinator \<times> (exn + unit)) option" where
  "handle_incoming_packet env p peer_address c =
     (case evaluate_incoming p peer_address (en_now env) (co_router c) of
        (r, Inl e) \<Rightarrow> Some (c\<lparr>co_router := r\<rparr>, Inl e)
      | (r, Inr d) \<Rightarrow>
          let c1 = c\<lparr>co_router := r\<rparr>;
              c2 = (if should_process_locally d then spawn (Process p peer_address) c1 else c1)
          in case packet_to_relay d of
               Some q \<Rightarrow> Some (spawn (Relay q (target_peer_id_hex d) (exclude_ingress d)) c2, Inr ())
             | None \<Rightarrow>
                 (case truthy (target_peer_id_hex d) of
                    Some t \<Rightarrow> if should_process_locally d then Some (c2, Inr ()) else store_packet env t p c2
                  | None \<Rightarrow> Some (c2, Inr ())))"

text \<open>Octets written to the GATT server by a Bluetooth client.\<close>

definition handle_server_data_received ::
  "env \<Rightarrow> bytes \<Rightarrow> string \<Rightarrow> coordinator \<Rightarrow> (coordinator \<times> (exn + unit)) option" where
  "handle_server_data_received env raw client c =
     (case decode_packet raw of
        Inl e \<Rightarrow> Some (c, if isinstance e PacketDecodingError then Inr () else Inl e)
      | Inr p \<Rightarrow>
          if message_type p \<in> {FragmentStart, FragmentContinue, FragmentEnd}
          then (case add_fragment_packet (en_now env) p (co_reassembler c) of
                  (ra, Inl e) \<Rightarrow> Some (c\<lparr>co_reassembler := ra\<rparr>,
                      if isinstance e InvalidFragmentError \<or> isinstance e FragmentLimitExceededError then Inr () else Inl e)
                | (ra, Inr None) \<Rightarrow> Some (c\<lparr>co_reassembler := ra\<rparr>, Inr ())
                | (ra, Inr (Some whole)) \<Rightarrow>
                    (case decode_packet whole of
                       Inl e \<Rightarrow> Some (c\<lparr>co_reassembler := ra\<rparr>, if isinstance e PacketDecodingError then Inr () else Inl e)
                     | Inr full \<Rightarrow> handle_incoming_packet env full (Some client) (c\<lparr>co_reassembler := ra\<rparr>)))
          else handle_incoming_packet env p (Some client) c)"

subsection \<open>Relaying\<close>

text \<open>The part after the delay; what follows a failed \<open>send_to_peer\<close> is \<open>relay_fallback\<close>.\<close>

definition relay_fallback ::
  "env \<Rightarrow> packet \<Rightarrow> string \<Rightarrow> string option \<Rightarrow> coordinator \<Rightarrow> coordinator option" where
  "relay_fallback env p target exclude c =
     (if \<not> dict_has (co_peer_addresses c) target then Some (broadcast_packet env p exclude c)
      else map_option fst (store_packet env target p c))"

definition relay_now ::
  "env \<Rightarrow> packet \<Rightarrow> string option \<Rightarrow> string option \<Rightarrow> coordinator \<Rightarrow> coordinator option" where
  "relay_now env p target exclude c =
     (if \<not> co_running c then Some c
      else case truthy target of
             None \<Rightarrow> Some (broadcast_packet env p exclude c)
           | Some t \<Rightarrow>
               (case route_address env t c of
                  (c1, Some a) \<Rightarrow>
                    if Some a \<noteq> exclude then Some (spawn (Relay_Sent p t exclude) (transmit (To_Peer a p) c1))
                    else relay_fallback env p t exclude c1
                | (c1, None) \<Rightarrow> relay_fallback env p t exclude c1))"

definition relay_packet_async ::
  "env \<Rightarrow> packet \<Rightarrow> string option \<Rightarrow> string option \<Rightarrow> coordinator \<Rightarrow> coordinator option" where
  "relay_packet_async env p target exclude c =
     (if \<not> co_running c then Some c
      else if target = None then Some (spawn (Relay_Now p target exclude) c)
      else relay_now env p target exclude c)"

subsection \<open>Handshakes\<close>

text \<open>Trust on first use; \<open>False\<close> is a fingerprint that does not match. A storage that fails is ignored.\<close>

definition check_contact :: "string \<Rightarrow> string \<Rightarrow> coordinator \<Rightarrow> coordinator \<times> bool" where
  "check_contact peer fingerprint c =
     (case co_storage c of
        None \<Rightarrow> (c, True)
      | Some fs \<Rightarrow>
          if fingerprint = [] then (c, True)
          else case file_load_config False fs of
                 Inl e \<Rightarrow> (c, True)
               | Inr config \<Rightarrow>
                   (case verify_contact peer fingerprint config of
                      (config', False) \<Rightarrow> (c, False)
                    | (config', True) \<Rightarrow> (c\<lparr>co_storage := Some (fst (file_save_config False config' fs))\<rparr>, True)))"

definition on_handshake_established :: "string \<Rightarrow> nat \<Rightarrow> coordinator \<Rightarrow> coordinator" where
  "on_handshake_established peer i c =
     (let c1 = cancel_handshake_timeout peer c;
          fingerprint = (case se_remote_fingerprint (co_heap c1 ! i) of Some f \<Rightarrow> f | None \<Rightarrow> [])
      in case check_contact peer fingerprint c1 of
           (c2, False) \<Rightarrow>
             discard_failed_session peer i False (put_session i ((co_heap c2 ! i)\<lparr>se_state := FAILED\<rparr>) c2)
         | (c2, True) \<Rightarrow>
             let c3 = notify (Handshake_Completed peer fingerprint) c2;
                 waiting = (case dict_get (co_pending c3) peer of Some ts \<Rightarrow> ts | None \<Rightarrow> [])
             in spawn_all (map (Send_Direct peer) waiting) (c3\<lparr>co_pending := dict_pop peer (co_pending c3)\<rparr>))"

definition after_reply :: "string \<Rightarrow> nat \<Rightarrow> coordinator \<Rightarrow> coordinator" where
  "after_reply sender i c = (if is_established (co_heap c ! i) then on_handshake_established sender i c else c)"

text \<open>One handshake message for the session \<open>i\<close>; sending the answer suspends the handler.\<close>

definition advance_handshake :: "env \<Rightarrow> packet \<Rightarrow> nat \<Rightarrow> coordinator \<Rightarrow> coordinator" where
  "advance_handshake env p i c =
     (let sender = sender_id_hex p in
      case process_handshake_message (en_lib env) (en_fresh env) (payload p) (co_heap c ! i) of
        (s, Inl e) \<Rightarrow> discard_failed_session sender i False (put_session i s c)
      | (s, Inr response) \<Rightarrow>
          let c1 = put_session i s c;
              c2 = (if se_state s = HANDSHAKING then schedule_handshake_timeout sender i c1 else c1)
          in case response of
               None \<Rightarrow> after_reply sender i c2
             | Some m \<Rightarrow>
                 (case own_packet env NoiseHandshakeResp (Some (sender_id p)) m c2 of
                    Inl e \<Rightarrow> c2
                  | Inr q \<Rightarrow> spawn (After_Reply sender i) (send_packet_to env sender q c2)))"

text \<open>The limit on handshakes that peers can make us open.\<close>

definition handshake_refused :: "string \<Rightarrow> coordinator \<Rightarrow> bool" where
  "handshake_refused sender c \<longleftrightarrow>
     \<not> (case dict_get (co_sessions c) sender of Some i \<Rightarrow> se_state (co_heap c ! i) = HANDSHAKING | None \<Rightarrow> False) \<and>
     pending_handshakes_count c \<ge> MAX_PENDING_HANDSHAKES"

definition on_handshake_request :: "env \<Rightarrow> packet \<Rightarrow> coordinator \<Rightarrow> coordinator" where
  "on_handshake_request env p c =
     (let sender = sender_id_hex p in
      if handshake_refused sender c then c
      else case get_or_create_session sender c of
             (c1, Inl e) \<Rightarrow> c1
           | (c1, Inr i) \<Rightarrow>
               if se_role (co_heap c1 ! i) = INITIATOR \<and> se_state (co_heap c1 ! i) = UNINITIALIZED
               then (case start_handshake (en_lib env) (en_fresh env) (co_heap c1 ! i) of
                       (s, Inl e) \<Rightarrow> put_session i s c1
                     | (s, Inr None) \<Rightarrow> put_session i s c1
                     | (s, Inr (Some m)) \<Rightarrow>
                         let c2 = schedule_handshake_timeout sender i (put_session i s c1) in
                         (case own_packet env NoiseHandshakeInit (Some (sender_id p)) m c2 of
                            Inl e \<Rightarrow> c2
                          | Inr q \<Rightarrow> send_packet_to env sender q c2))
               else c1)"

definition on_handshake_init :: "env \<Rightarrow> packet \<Rightarrow> coordinator \<Rightarrow> coordinator" where
  "on_handshake_init env p c =
     (if handshake_refused (sender_id_hex p) c then c
      else case get_or_create_session (sender_id_hex p) c of
             (c1, Inl e) \<Rightarrow> c1
           | (c1, Inr i) \<Rightarrow> advance_handshake env p i c1)"

definition on_handshake_resp :: "env \<Rightarrow> packet \<Rightarrow> coordinator \<Rightarrow> coordinator" where
  "on_handshake_resp env p c =
     (case dict_get (co_sessions c) (sender_id_hex p) of None \<Rightarrow> c | Some i \<Rightarrow> advance_handshake env p i c)"

subsection \<open>Messages\<close>

definition deliver_encrypted :: "env \<Rightarrow> string \<Rightarrow> nat \<Rightarrow> packet \<Rightarrow> coordinator \<Rightarrow> coordinator" where
  "deliver_encrypted env sender i p c =
     (if \<not> is_established (co_heap c ! i) then c
      else case session_decrypt (en_lib env) (payload p) (co_heap c ! i) of
             (s, Inl e) \<Rightarrow> put_session i s c
           | (s, Inr plaintext) \<Rightarrow>
               notify (Got_Message sender (decode_chat_payload env plaintext) True) (put_session i s c))"

text \<open>A message that overtakes the end of the handshake waits for it, 25 times 40 milliseconds.\<close>

definition on_encrypted :: "env \<Rightarrow> packet \<Rightarrow> coordinator \<Rightarrow> coordinator" where
  "on_encrypted env p c =
     (case dict_get (co_sessions c) (sender_id_hex p) of
        None \<Rightarrow> c
      | Some i \<Rightarrow>
          if is_established (co_heap c ! i) then deliver_encrypted env (sender_id_hex p) i p c
          else spawn (Await_Session (sender_id_hex p) i p 25) c)"

definition await_session :: "env \<Rightarrow> string \<Rightarrow> nat \<Rightarrow> packet \<Rightarrow> nat \<Rightarrow> coordinator \<Rightarrow> coordinator" where
  "await_session env sender i p n c =
     (if is_established (co_heap c ! i) \<or> n \<le> 1 then deliver_encrypted env sender i p c
      else spawn (Await_Session sender i p (n - 1)) c)"

definition flush_stored :: "env \<Rightarrow> string \<Rightarrow> (packet \<Rightarrow> task) \<Rightarrow> coordinator \<Rightarrow> coordinator" where
  "flush_stored env peer send c =
     (if has_pending (PStr peer) (store_forward_queue (co_router c))
      then case dequeue_for_peer (en_now env) (PStr peer) (store_forward_queue (co_router c)) of
             (q, ps) \<Rightarrow> spawn_all (map send ps) (c\<lparr>co_router := (co_router c)\<lparr>store_forward_queue := q\<rparr>\<rparr>)
      else c)"

definition on_announce :: "env \<Rightarrow> packet \<Rightarrow> coordinator \<Rightarrow> coordinator" where
  "on_announce env p c =
     (let sender = sender_id_hex p;
          nick = py_strip (en_utf8_replace env (payload p));
          c1 = (if is_nickname_spoofed sender nick c then c
                else notify (Peer_Status sender (''Online ('' @ nick @ '')''))
                       (c\<lparr>co_nicknames := dict_set sender nick (co_nicknames c)\<rparr>))
      in flush_stored env sender (Send sender) c1)"

definition on_message :: "env \<Rightarrow> packet \<Rightarrow> coordinator \<Rightarrow> coordinator" where
  "on_message env p c = notify (Got_Message (sender_id_hex p) (decode_chat_payload env (payload p)) False) c"

text \<open>Which peer is behind an address, and the route to the sender, before the packet is looked at.\<close>

definition learn_sender :: "env \<Rightarrow> packet \<Rightarrow> string option \<Rightarrow> coordinator \<Rightarrow> coordinator" where
  "learn_sender env p peer_address c =
     (case truthy peer_address of
        None \<Rightarrow> c
      | Some a \<Rightarrow>
          let sender = sender_id_hex p;
              c1 = (if sender = a \<or> ttl p \<ge> MAX_TTL
                    then let c0 = c\<lparr>co_address_to_peer := dict_set a sender (co_address_to_peer c)\<rparr> in
                      if a \<in> set (en_inbound env) then c0
                      else c0\<lparr>co_peer_addresses := dict_set sender a (co_peer_addresses c0)\<rparr>
                    else c);
              hop = (case dict_get (co_address_to_peer c1) a of Some x \<Rightarrow> x | None \<Rightarrow> a);
              hops = (if ttl p \<le> MAX_TTL then max 1 (MAX_TTL - ttl p + 1) else 1)
          in c1\<lparr>co_router := add_route (PStr sender) (PStr hop) hops (en_now env) (co_router c1)\<rparr>)"

definition dispatch_packet :: "env \<Rightarrow> packet \<Rightarrow> coordinator \<Rightarrow> coordinator" where
  "dispatch_packet env p c =
     (case message_type p of
        Announce \<Rightarrow> on_announce env p c
      | Message \<Rightarrow> on_message env p c
      | HandshakeRequest \<Rightarrow> on_handshake_request env p c
      | NoiseHandshakeInit \<Rightarrow> on_handshake_init env p c
      | NoiseHandshakeResp \<Rightarrow> on_handshake_resp env p c
      | NoiseEncrypted \<Rightarrow> on_encrypted env p c
      | _ \<Rightarrow> c)"

definition process_packet_async :: "env \<Rightarrow> packet \<Rightarrow> string option \<Rightarrow> coordinator \<Rightarrow> coordinator" where
  "process_packet_async env p peer_address c =
     (if py_lower (sender_id_hex p) = py_lower (own_id c) then c
      else dispatch_packet env p (learn_sender env p peer_address c))"

subsection \<open>Peers that come and go\<close>

text \<open>The address of a peer the transport found, replacing what the tables said before.\<close>

definition rebind_address :: "env \<Rightarrow> found_peer \<Rightarrow> coordinator \<Rightarrow> coordinator" where
  "rebind_address env p c =
     (let a = fp_address p; pid = py_lower (fp_peer_id p);
          c1 = (case truthy (dict_get (co_address_to_peer c) a) of
                  None \<Rightarrow> c
                | Some owner \<Rightarrow>
                    if owner = pid then c
                    else let c0 = (if dict_get (co_peer_addresses c) owner = Some a
                                   then c\<lparr>co_peer_addresses := dict_pop owner (co_peer_addresses c),
                                          co_nicknames := dict_pop owner (co_nicknames c)\<rparr>
                                   else c)
                      in c0\<lparr>co_announced := filter (\<lambda>k. k \<noteq> owner) (co_announced c0)\<rparr>);
          c2 = (case truthy (dict_get (co_peer_addresses c1) pid) of
                  None \<Rightarrow> c1
                | Some old \<Rightarrow>
                    if old \<noteq> a \<and> old \<notin> set (en_connected env) \<and> dict_get (co_address_to_peer c1) old = Some pid
                    then c1\<lparr>co_address_to_peer := dict_pop old (co_address_to_peer c1)\<rparr> else c1)
      in c2\<lparr>co_peer_addresses := dict_set pid a (co_peer_addresses c2),
            co_address_to_peer := dict_set a pid (co_address_to_peer c2)\<rparr>)"

definition learn_name :: "string \<Rightarrow> string \<Rightarrow> coordinator \<Rightarrow> coordinator" where
  "learn_name pid name c =
     (if name = [] \<or> is_nickname_spoofed pid name c then c
      else c\<lparr>co_nicknames := dict_set pid name (co_nicknames c)\<rparr>)"

definition handle_peer_discovered :: "env \<Rightarrow> found_peer \<Rightarrow> coordinator \<Rightarrow> coordinator" where
  "handle_peer_discovered env p c =
     (let pid = py_lower (fp_peer_id p) in
      if pid \<noteq> [] \<and> pid = py_lower (own_id c) then c
      else
        let name = found_name p;
            previous_nick = (if pid \<noteq> [] then truthy (dict_get (co_nicknames c) pid) else None);
            announce_key = (if pid \<noteq> [] then pid else py_lower (fp_address p));
            already = announce_key \<in> set (co_announced c);
            c1 = (if pid \<noteq> [] then learn_name pid name (rebind_address env p c) else c);
            c2 = c1\<lparr>co_announced := List.insert announce_key (co_announced c1)\<rparr>;
            nick_changed = (pid \<noteq> [] \<and> name \<noteq> [] \<and> previous_nick \<noteq> None \<and> previous_nick \<noteq> Some name)
        in if already \<and> \<not> nick_changed then notify (Peer_Status ''mesh'' (co_status c2)) c2
           else notify (Peer_Status (fp_address p)
                  (''Discovered: '' @ (if name \<noteq> [] then name else ''Unknown'') @
                   (case fp_rssi p of None \<Rightarrow> [] | Some r \<Rightarrow> '' ('' @ r @ '' dBm)''))) c2)"

definition handle_peer_connected :: "env \<Rightarrow> string \<Rightarrow> coordinator \<Rightarrow> coordinator" where
  "handle_peer_connected env a c =
     (let c1 = spawn Announce_Self (notify (Peer_Status a ''Connected'') c) in
      case truthy (dict_get (co_address_to_peer c1) a) of
        None \<Rightarrow> c1
      | Some pid \<Rightarrow> flush_stored env pid (Send_To a) c1)"

text \<open>A peer that is still discovered keeps an address; one that is not connected loses its session.\<close>

definition keep_discovered :: "env \<Rightarrow> string \<Rightarrow> coordinator \<Rightarrow> coordinator \<times> bool" where
  "keep_discovered env pid c =
     (case List.find (\<lambda>e. fp_peer_id (snd e) \<noteq> [] \<and> py_lower (fp_peer_id (snd e)) = py_lower pid) (en_discovered env) of
        None \<Rightarrow> (c, False)
      | Some e \<Rightarrow>
          (c\<lparr>co_peer_addresses := (if dict_has (co_peer_addresses c) pid then co_peer_addresses c
                                   else dict_set pid (fst e) (co_peer_addresses c)),
             co_address_to_peer := (if dict_has (co_address_to_peer c) (fst e) then co_address_to_peer c
                                    else dict_set (fst e) pid (co_address_to_peer c))\<rparr>, True))"

definition drop_peer_session :: "string \<Rightarrow> coordinator \<Rightarrow> coordinator" where
  "drop_peer_session pid c =
     (let c1 = cancel_handshake_timeout pid c;
          c2 = (case dict_get (co_sessions c1) pid of
                  None \<Rightarrow> c1
                | Some i \<Rightarrow> put_session i (session_close (co_heap c1 ! i)) (c1\<lparr>co_sessions := dict_pop pid (co_sessions c1)\<rparr>))
      in c2\<lparr>co_pending := dict_pop pid (co_pending c2)\<rparr>)"

definition handle_peer_disconnected :: "env \<Rightarrow> string \<Rightarrow> coordinator \<Rightarrow> coordinator" where
  "handle_peer_disconnected env a c =
     (let c0 = c\<lparr>co_announced := filter (\<lambda>k. k \<noteq> py_lower a) (co_announced c)\<rparr>;
          owner = truthy (dict_get (co_address_to_peer c0) a);
          c1 = c0\<lparr>co_address_to_peer := dict_pop a (co_address_to_peer c0)\<rparr>;
          c5 = (case owner of
                  None \<Rightarrow> c1
                | Some pid \<Rightarrow>
                    let c2 = (if dict_get (co_peer_addresses c1) pid = Some a
                              then c1\<lparr>co_peer_addresses := dict_pop pid (co_peer_addresses c1)\<rparr> else c1)
                    in case keep_discovered env pid c2 of
                         (c3, still_discovered) \<Rightarrow>
                           if list_ex (\<lambda>e. snd e = pid \<and> fst e \<in> set (en_connected env)) (co_address_to_peer c3) then c3
                           else let c4 = (if still_discovered then c3
                                          else c3\<lparr>co_announced := filter (\<lambda>k. k \<noteq> pid) (co_announced c3)\<rparr>)
                             in drop_peer_session pid c4)
      in notify (Peer_Status a ''Disconnected'') c5)"

subsection \<open>Tasks and the event loop\<close>

text \<open>One task up to its next wait.\<close>

fun run_task :: "env \<Rightarrow> task \<Rightarrow> coordinator \<Rightarrow> coordinator option" where
  "run_task env (Process p a) c = Some (process_packet_async env p a c)"
| "run_task env (Relay p t x) c = relay_packet_async env p t x c"
| "run_task env (Relay_Now p t x) c = relay_now env p t x c"
| "run_task env (Relay_Sent p t x) c = Some c"
| "run_task env (Send_Direct peer txt) c = Some (fst (send_direct_message env peer txt c))"
| "run_task env (Send peer p) c = Some (send_packet_to env peer p c)"
| "run_task env (Send_To a p) c = Some (transmit (To_Peer a p) c)"
| "run_task env Announce_Self c = Some (fst (send_announce env None c))"
| "run_task env (After_Reply sender i) c = Some (after_reply sender i c)"
| "run_task env (Await_Session sender i p n) c = Some (await_session env sender i p n c)"

text \<open>
  The operation a task waits for raises: only a relay goes on, every other task ends there.
\<close>

fun fail_task :: "env \<Rightarrow> task \<Rightarrow> coordinator \<Rightarrow> coordinator option" where
  "fail_task env (Relay_Sent p t x) c = relay_fallback env p t x c"
| "fail_task env t c = Some c"

datatype coordinator_event =
    Run_Task nat | Fail_Task nat | Timer_Fires string | Packet_Arrives packet "string option"
  | Server_Data bytes string | Peer_Found found_peer | Peer_Connected string | Peer_Disconnected string
  | Say string | Tell string string | Announce_As "string option" | Expire string | Prune

definition take_task :: "nat \<Rightarrow> coordinator \<Rightarrow> coordinator" where
  "take_task n c = c\<lparr>co_tasks := take n (co_tasks c) @ drop (Suc n) (co_tasks c)\<rparr>"

text \<open>The state is \<open>None\<close> once a handler did not return.\<close>

fun coordinator_step :: "coordinator option \<Rightarrow> env \<times> coordinator_event \<Rightarrow> coordinator option \<times> unit" where
  "coordinator_step None e = (None, ())"
| "coordinator_step (Some c) (env, Run_Task n) =
     (if n < length (co_tasks c) then run_task env (co_tasks c ! n) (take_task n c) else Some c, ())"
| "coordinator_step (Some c) (env, Fail_Task n) =
     (if n < length (co_tasks c) then fail_task env (co_tasks c ! n) (take_task n c) else Some c, ())"
| "coordinator_step (Some c) (env, Timer_Fires peer) = (Some (timer_fires peer c), ())"
| "coordinator_step (Some c) (env, Packet_Arrives p a) = (map_option fst (handle_incoming_packet env p a c), ())"
| "coordinator_step (Some c) (env, Server_Data raw client) = (map_option fst (handle_server_data_received env raw client c), ())"
| "coordinator_step (Some c) (env, Peer_Found p) = (Some (handle_peer_discovered env p c), ())"
| "coordinator_step (Some c) (env, Peer_Connected a) = (Some (handle_peer_connected env a c), ())"
| "coordinator_step (Some c) (env, Peer_Disconnected a) = (Some (handle_peer_disconnected env a c), ())"
| "coordinator_step (Some c) (env, Say txt) = (Some (fst (send_broadcast_message env txt c)), ())"
| "coordinator_step (Some c) (env, Tell peer txt) = (Some (fst (send_direct_message env peer txt c)), ())"
| "coordinator_step (Some c) (env, Announce_As nick) = (Some (fst (send_announce env nick c)), ())"
| "coordinator_step (Some c) (env, Expire peer) = (Some (expire_handshake peer c), ())"
| "coordinator_step (Some c) (env, Prune) = (Some (prune_caches (en_now env) c), ())"

end
