(* ===== verification/Coordinator_Inv.thy ===== *)
theory Coordinator_Inv
  imports Dispatch
begin

text \<open>
  The invariant of the coordinator's sessions, timers and waiting tasks, kept by every step of the
  event loop, and what follows from it: whom a decrypted message comes from, that every handshake
  ends, how many of them peers can make us open, and where the checks have gaps.
\<close>

subsection \<open>The part of the state that concerns sessions\<close>

fun session_task :: "task \<Rightarrow> bool" where
  "session_task (After_Reply k i) = True"
| "session_task (Await_Session k i p n) = True"
| "session_task t = False"

fun secret :: "notification \<Rightarrow> bool" where
  "secret (Got_Message k txt enc) = enc"
| "secret n = False"

definition inbox :: "coordinator \<Rightarrow> notification list" where
  "inbox c = filter secret (co_events c)"

type_synonym core = "identity \<times> session list \<times> (string, nat) dict \<times> (string, nat) dict \<times> task list \<times> notification list"

definition core :: "coordinator \<Rightarrow> core" where
  "core c = (co_identity c, co_heap c, co_sessions c, co_timers c, filter session_task (co_tasks c), inbox c)"

named_theorems core_simps \<open>operations that leave the sessions alone\<close>

lemma core_fields: "core c = core c' \<Longrightarrow>
  co_identity c = co_identity c' \<and> co_heap c = co_heap c' \<and> co_sessions c = co_sessions c' \<and> co_timers c = co_timers c' \<and> inbox c = inbox c'"
  by (simp add: core_def)

lemma core_effects [core_simps]:
  "\<not> secret n \<Longrightarrow> core (notify n c) = core c" "core (transmit x c) = core c"
  "\<not> session_task t \<Longrightarrow> core (spawn t c) = core c"
  "core (c\<lparr>co_router := r\<rparr>) = core c" "core (c\<lparr>co_reassembler := ra\<rparr>) = core c" "core (c\<lparr>co_pending := pd\<rparr>) = core c"
  "core (c\<lparr>co_storage := st\<rparr>) = core c" "core (c\<lparr>co_nicknames := d\<rparr>) = core c" "core (c\<lparr>co_announced := as\<rparr>) = core c"
  "core (c\<lparr>co_peer_addresses := d\<rparr>) = core c" "core (c\<lparr>co_address_to_peer := d\<rparr>) = core c"
  by (simp_all add: core_def inbox_def notify_def transmit_def spawn_def)

lemma core_spawn_all [core_simps]: "(\<And>t. t \<in> set ts \<Longrightarrow> \<not> session_task t) \<Longrightarrow> core (spawn_all ts c) = core c"
  by (simp add: core_def inbox_def spawn_all_def filter_empty_conv)

lemma core_sending [core_simps]:
  "core (record_sent now p c) = core c" "core (broadcast_packet env p x c) = core c"
  "core (fst (route_address env k c)) = core c" "core (send_packet_to env k p c) = core c"
  "core (queue_text k txt c) = core c" "core (fst (send_own env k mt pl c)) = core c"
  "core (fst (send_announce env nick c)) = core c" "core (fst (send_broadcast_message env txt c)) = core c"
proof -
  show rec: "core (record_sent now p c) = core c" for now p c by (simp add: record_sent_def core_simps)
  show route: "core (fst (route_address env k c)) = core c" for k c
    by (simp add: route_address_def core_simps split: option.split prod.split)
  show bc: "core (broadcast_packet env p x c) = core c" for p x by (simp add: broadcast_packet_def rec core_simps)
  show send: "core (send_packet_to env k p c) = core c" for p
    using route [of k "record_sent (en_now env) p c"] rec [of "en_now env" p c]
    by (auto simp: send_packet_to_def Let_def core_simps split: prod.split option.split)
  show "core (queue_text k txt c) = core c" by (simp add: queue_text_def core_simps)
  show "core (fst (send_own env k mt pl c)) = core c" by (simp add: send_own_def send split: option.split sum.split)
  show "core (fst (send_announce env nick c)) = core c" "core (fst (send_broadcast_message env txt c)) = core c"
    by (simp_all add: send_announce_def send_broadcast_message_def bc Let_def split: sum.split)
qed

lemma core_peers [core_simps]:
  "core (learn_name k name c) = core c" "core (rebind_address env p c) = core c" "core (fst (keep_discovered env k c)) = core c"
  "core (learn_sender env q a c) = core c" "core (fst (check_contact k f c)) = core c" "core (handle_peer_discovered env p c) = core c"
  "(\<And>p. \<not> session_task (send p)) \<Longrightarrow> core (flush_stored env k send c) = core c"
proof -
  show name: "core (learn_name k name c) = core c" for k name c by (simp add: learn_name_def core_simps)
  show bind: "core (rebind_address env p c) = core c"
    by (simp add: rebind_address_def Let_def core_simps split: option.split)
  show "core (fst (keep_discovered env k c)) = core c" "core (fst (check_contact k f c)) = core c"
    by (simp_all add: keep_discovered_def check_contact_def core_simps split: option.split sum.split prod.split bool.split)
  show "core (learn_sender env q a c) = core c" by (simp add: learn_sender_def Let_def core_simps split: option.split)
  show "core (handle_peer_discovered env p c) = core c"
    by (simp add: handle_peer_discovered_def Let_def core_simps name bind)
  show "core (flush_stored env k send c) = core c" if "\<And>p. \<not> session_task (send p)"
  proof -
    have "core (spawn_all (map send ps) c') = core c'" for ps c' by (rule core_spawn_all) (use that in auto)
    then show ?thesis by (simp add: flush_stored_def core_simps split: prod.split)
  qed
qed

lemma core_handlers [core_simps]:
  "core (on_announce env p c) = core c" "core (on_message env p c) = core c" "core (handle_peer_connected env a c) = core c"
  "core (prune_caches now c) = core c"
  by (simp_all add: on_announce_def on_message_def handle_peer_connected_def prune_caches_def Let_def core_simps split: option.split)

lemma core_stored [core_simps]: "store_packet env k p c = Some (c', r) \<Longrightarrow> core c' = core c"
  by (auto simp: store_packet_def core_simps split: option.splits prod.splits)

lemma core_incoming [core_simps]: "handle_incoming_packet env p a c = Some (c', r) \<Longrightarrow> core c' = core c"
  by (auto simp: handle_incoming_packet_def Let_def core_simps dest!: core_stored
      split: prod.splits sum.splits option.splits if_splits)

lemma core_server_data [core_simps]: "handle_server_data_received env raw client c = Some (c', r) \<Longrightarrow> core c' = core c"
  by (auto simp: handle_server_data_received_def core_simps dest!: core_incoming
      split: prod.splits sum.splits option.splits if_splits)

lemma core_relay [core_simps]:
  "relay_fallback env p t x c = Some c' \<Longrightarrow> core c' = core c"
  "relay_now env p u x c = Some c' \<Longrightarrow> core c' = core c"
  "relay_packet_async env p u x c = Some c' \<Longrightarrow> core c' = core c"
proof -
  show fb: "relay_fallback env p t x c = Some c' \<Longrightarrow> core c' = core c" for t x c c'
    by (auto simp: relay_fallback_def core_simps dest!: core_stored split: if_splits)
  have r: "route_address env k c = (c1, z) \<Longrightarrow> core c1 = core c" for k c1 z
    using core_sending(3) [of env k c] by simp
  show now: "relay_now env p u x c = Some c' \<Longrightarrow> core c' = core c" for u
    by (auto simp: relay_now_def core_simps dest!: fb r split: if_splits option.splits prod.splits)
  show "relay_packet_async env p u x c = Some c' \<Longrightarrow> core c' = core c"
    by (auto simp: relay_packet_async_def core_simps dest!: now split: if_splits)
qed

subsection \<open>The invariant\<close>

definition alive :: "session \<Rightarrow> bool" where
  "alive s \<longleftrightarrow> se_state s \<noteq> FAILED \<and> se_state s \<noteq> CLOSED"

fun task_ok :: "session list \<Rightarrow> task \<Rightarrow> bool" where
  "task_ok heap (After_Reply k i) \<longleftrightarrow> i < length heap \<and> se_remote_peer_id (heap ! i) = k"
| "task_ok heap (Await_Session k i p n) \<longleftrightarrow> i < length heap \<and> se_remote_peer_id (heap ! i) = k"
| "task_ok heap t \<longleftrightarrow> True"

text \<open>
  The table and the timers refer to sessions of the right peer; a timer belongs to the session in the
  table; and a session that is neither failed nor closed is in the table, so that a task that waited
  can only act on the current session of its peer.
\<close>

fun core_ok :: "core \<Rightarrow> bool" where
  "core_ok (me, heap, tab, timers, tasks, inb) \<longleftrightarrow>
     dict_ok tab \<and> dict_ok timers \<and>
     (\<forall>k i. dict_get tab k = Some i \<longrightarrow> i < length heap \<and> se_remote_peer_id (heap ! i) = k) \<and>
     (\<forall>i < length heap. state_ok (heap ! i) \<and> se_identity (heap ! i) = me \<and>
        (alive (heap ! i) \<longrightarrow> dict_get tab (se_remote_peer_id (heap ! i)) = Some i)) \<and>
     (\<forall>k i. dict_get timers k = Some i \<longrightarrow> dict_get tab k = Some i) \<and>
     (\<forall>t \<in> set tasks. task_ok heap t)"

declare core_ok.simps [simp del]

abbreviation coordinator_ok :: "coordinator \<Rightarrow> bool" where
  "coordinator_ok c \<equiv> core_ok (core c)"

lemma coordinator_okD:
  assumes "coordinator_ok c"
  shows "dict_ok (co_sessions c)" "dict_ok (co_timers c)"
    "dict_get (co_sessions c) k = Some i \<Longrightarrow> i < length (co_heap c) \<and> se_remote_peer_id (co_heap c ! i) = k"
    "i < length (co_heap c) \<Longrightarrow> state_ok (co_heap c ! i) \<and> se_identity (co_heap c ! i) = co_identity c"
    "i < length (co_heap c) \<Longrightarrow> alive (co_heap c ! i) \<Longrightarrow> dict_get (co_sessions c) (se_remote_peer_id (co_heap c ! i)) = Some i"
    "dict_get (co_timers c) k = Some i \<Longrightarrow> dict_get (co_sessions c) k = Some i"
    "t \<in> set (co_tasks c) \<Longrightarrow> task_ok (co_heap c) t"
proof -
  have "task_ok heap t" if "\<not> session_task t" for heap t using that by (cases t) simp_all
  then show "t \<in> set (co_tasks c) \<Longrightarrow> task_ok (co_heap c) t"
    using assms by (cases "session_task t") (simp_all add: core_def core_ok.simps)
qed (use assms in \<open>auto simp: core_def core_ok.simps\<close>)

text \<open>What a method may do to a session: the peer stays the same and the dead stay dead.\<close>

definition moves :: "session \<Rightarrow> session \<Rightarrow> bool" where
  "moves s s' \<longleftrightarrow> (state_ok s \<longrightarrow> state_ok s') \<and> se_identity s' = se_identity s \<and>
     se_remote_peer_id s' = se_remote_peer_id s \<and> (alive s' \<longrightarrow> state_ok s \<longrightarrow> alive s)"

lemma movesD: "moves s s' \<Longrightarrow> state_ok s \<Longrightarrow> state_ok s' \<and> se_identity s' = se_identity s \<and>
    se_remote_peer_id s' = se_remote_peer_id s \<and> (alive s' \<longrightarrow> alive s)"
  by (auto simp: moves_def)

lemma moves_start: "start_handshake lib fresh s = (s', r) \<Longrightarrow> moves s s'"
  using start_ok [of s lib fresh] session_step_keeps [of lib s "Start fresh"]
  by (auto simp: moves_def start_handshake_def alive_def split: if_splits)

lemma moves_process: "process_handshake_message lib fresh m s = (s', r) \<Longrightarrow> moves s s'"
proof -
  assume p: "process_handshake_message lib fresh m s = (s', r)"
  have "alive s" if live: "alive s'" and ok: "state_ok s"
  proof (cases "process_body lib fresh m s")
    case (Pair s1 r1)
    then obtain x where "r1 = Inr x" "s1 = s'"
      using p live by (cases r1) (auto simp: process_handshake_message_def alive_def)
    with Pair have "lifecycle (se_state s) (se_state s')" using process_body_lifecycle [OF ok] by simp
    then show ?thesis using live by (cases rule: lifecycle.cases) (auto simp: alive_def)
  qed
  with p process_ok [of s lib fresh m] process_keeps [of lib fresh m s] show ?thesis by (simp add: moves_def)
qed

lemma moves_encrypt: "session_encrypt lib pl s = (s', r) \<Longrightarrow> moves s s'"
  using session_encrypt_ok [of s lib pl]
  by (cases rule: session_encrypt_cases [of lib pl s]) (auto simp: moves_def alive_def)

lemma moves_decrypt: "session_decrypt lib ct s = (s', r) \<Longrightarrow> moves s s'"
  using session_decrypt_ok [of s lib ct]
  by (cases rule: session_decrypt_cases [of lib ct s]) (auto simp: moves_def alive_def)

lemma moves_failed: "moves s (s\<lparr>se_state := FAILED\<rparr>)"
  by (simp add: moves_def alive_def state_ok.simps)

lemma moves_trans: "moves s s' \<Longrightarrow> moves s' s'' \<Longrightarrow> moves s s''"
  by (auto simp: moves_def)

lemma put_session_ok:
  assumes "coordinator_ok c" "moves (co_heap c ! i) s"
  shows "coordinator_ok (put_session i s c)"
proof (cases "i < length (co_heap c)")
  case True
  note m = movesD [OF assms(2)] coordinator_okD(4) [OF assms(1) True]
  have r: "se_remote_peer_id ((co_heap c)[i := s] ! j) = se_remote_peer_id (co_heap c ! j)" for j
    using m True by (cases "j = i") simp_all
  have t: "task_ok ((co_heap c)[i := s]) t \<longleftrightarrow> task_ok (co_heap c) t" for t
    by (cases t) (simp_all add: r)
  show ?thesis using assms(1) m True
    by (auto simp: core_def core_ok.simps put_session_def nth_list_update t simp del: map_of_eq_Some_iff)
next
  case False
  then show ?thesis using assms(1) by (simp add: put_session_def core_def not_less list_update_beyond)
qed

lemma schedule_ok:
  assumes "coordinator_ok c" "dict_get (co_sessions c) k = Some i"
  shows "coordinator_ok (schedule_handshake_timeout k i c)"
  using assms
  by (auto simp: core_def core_ok.simps schedule_handshake_timeout_def dict_simps)

lemma cancel_ok: "coordinator_ok c \<Longrightarrow> coordinator_ok (cancel_handshake_timeout k c)"
  by (auto simp: core_def core_ok.simps cancel_handshake_timeout_def dict_simps)

lemma spawn_ok: "coordinator_ok c \<Longrightarrow> task_ok (co_heap c) t \<Longrightarrow> coordinator_ok (spawn t c)"
  by (auto simp: core_def core_ok.simps spawn_def)

lemma take_task_ok: "coordinator_ok c \<Longrightarrow> coordinator_ok (take_task n c)"
  by (auto simp: core_def core_ok.simps take_task_def dest: in_set_takeD in_set_dropD)

text \<open>Removing a session that was failed or closed.\<close>

lemma close_ok: "state_ok (session_close s)" "\<not> alive (session_close s)" "se_identity (session_close s) = se_identity s"
  "se_remote_peer_id (session_close s) = se_remote_peer_id s"
  by (rule session_close_ok) (simp_all add: session_close_def alive_def)

lemma drop_session_ok:
  assumes "coordinator_ok c" "i < length (co_heap c)" "se_remote_peer_id (co_heap c ! i) = k" "\<not> alive (co_heap c ! i)"
    "dict_get (co_timers c) k = None"
  shows "coordinator_ok (c\<lparr>co_sessions := (if dict_get (co_sessions c) k = Some i then dict_pop k (co_sessions c) else co_sessions c)\<rparr>)"
proof (cases "dict_get (co_sessions c) k = Some i")
  case True
  then show ?thesis using assms
    by (auto simp: core_def core_ok.simps dict_simps simp del: map_of_eq_Some_iff split: if_splits)
qed (use assms in \<open>simp add: core_def\<close>)

lemma discard_ok:
  assumes "coordinator_ok c" "i < length (co_heap c)" "se_remote_peer_id (co_heap c ! i) = k"
  shows "coordinator_ok (discard_failed_session k i force c)"
proof (cases "\<not> force \<and> se_state (co_heap c ! i) \<noteq> FAILED")
  case True
  with assms show ?thesis by (simp add: discard_failed_session_def)
next
  case False
  let ?s = "co_heap c ! i"
  let ?s' = "if se_state ?s = FAILED then (session_close ?s)\<lparr>se_state := FAILED\<rparr> else session_close ?s"
  let ?c = "put_session i ?s' (cancel_handshake_timeout k c)"
  have m: "moves ?s ?s'" by (simp add: moves_def close_ok) (simp add: session_close_def alive_def state_ok.simps)
  have ok: "coordinator_ok ?c"
    by (intro put_session_ok cancel_ok assms(1)) (use m in \<open>simp add: cancel_handshake_timeout_def\<close>)
  have "coordinator_ok (?c\<lparr>co_sessions := (if dict_get (co_sessions ?c) k = Some i then dict_pop k (co_sessions ?c) else co_sessions ?c)\<rparr>)"
    by (rule drop_session_ok [OF ok])
       (use assms(2,3) in \<open>simp_all add: put_session_def cancel_handshake_timeout_def dict_simps close_ok alive_def session_close_def\<close>)
  moreover have "discard_failed_session k i force c =
      ?c\<lparr>co_sessions := (if dict_get (co_sessions ?c) k = Some i then dict_pop k (co_sessions ?c) else co_sessions ?c),
        co_pending := dict_pop k (co_pending ?c)\<rparr>"
  proof -
    have "(\<not> force \<and> se_state ?s \<noteq> FAILED) = False" using False by simp
    then show ?thesis unfolding discard_failed_session_def Let_def
      by (cases "dict_get (co_sessions ?c) k = Some i") (simp_all only: if_True if_False refl, simp_all)
  qed
  ultimately show ?thesis by (simp only: core_effects)
qed

lemma new_session_ok:
  assumes "coordinator_ok c" "dict_get (co_sessions c) k = None" "NoiseSession (co_identity c) k None = Inr s"
  shows "coordinator_ok (c\<lparr>co_heap := co_heap c @ [s], co_sessions := dict_set k (length (co_heap c)) (co_sessions c)\<rparr>)"
proof -
  note n = new_session [OF assms(3)] state_ok_new [OF assms(3)]
  have t: "task_ok (co_heap c @ [s]) t" if "task_ok (co_heap c) t" for t
    using that by (cases t) (auto simp: nth_append)
  show ?thesis using assms(1,2) n t
    by (auto simp: core_def core_ok.simps dict_simps nth_append less_Suc_eq)
qed

subsection \<open>Every operation keeps it\<close>

text \<open>A message that was decrypted changes nothing else.\<close>

lemma notify_ok: "coordinator_ok (notify n c) \<longleftrightarrow> coordinator_ok c"
  by (simp add: core_def core_ok.simps notify_def)

lemma put_session_core:
  "co_identity (put_session i s c) = co_identity c" "co_heap (put_session i s c) = (co_heap c)[i := s]"
  "co_sessions (put_session i s c) = co_sessions c" "co_timers (put_session i s c) = co_timers c"
  "co_tasks (put_session i s c) = co_tasks c" "inbox (put_session i s c) = inbox c"
  by (simp_all add: put_session_def inbox_def)

lemma cancel_core:
  "co_identity (cancel_handshake_timeout k c) = co_identity c" "co_heap (cancel_handshake_timeout k c) = co_heap c"
  "co_sessions (cancel_handshake_timeout k c) = co_sessions c" "co_tasks (cancel_handshake_timeout k c) = co_tasks c"
  "inbox (cancel_handshake_timeout k c) = inbox c"
  by (simp_all add: cancel_handshake_timeout_def inbox_def)

lemma schedule_core:
  "co_identity (schedule_handshake_timeout k i c) = co_identity c" "co_heap (schedule_handshake_timeout k i c) = co_heap c"
  "co_sessions (schedule_handshake_timeout k i c) = co_sessions c" "co_tasks (schedule_handshake_timeout k i c) = co_tasks c"
  "inbox (schedule_handshake_timeout k i c) = inbox c"
  by (simp_all add: schedule_handshake_timeout_def inbox_def)

lemmas session_core = put_session_core cancel_core schedule_core

text \<open>Failing the session of a peer and discarding it.\<close>

lemma fail_and_discard_ok:
  assumes "coordinator_ok c" "i < length (co_heap c)" "se_remote_peer_id (co_heap c ! i) = k" "moves (co_heap c ! i) s"
  shows "coordinator_ok (discard_failed_session k i force (put_session i s c))"
  by (rule discard_ok [OF put_session_ok [OF assms(1,4)]])
     (use assms movesD [OF assms(4)] coordinator_okD(4) [OF assms(1,2)] in \<open>simp_all add: session_core\<close>)

lemma timer_fires_ok: "coordinator_ok c \<Longrightarrow> coordinator_ok (timer_fires k c)"
  using coordinator_okD(3) [of c k]
  by (auto simp: timer_fires_def moves_failed simp del: map_of_eq_Some_iff intro!: cancel_ok fail_and_discard_ok split: option.split)

lemma expire_ok: "coordinator_ok c \<Longrightarrow> coordinator_ok (expire_handshake k c)"
  using coordinator_okD(3) [of c k]
  by (auto simp: expire_handshake_def moves_failed simp del: map_of_eq_Some_iff intro!: fail_and_discard_ok split: option.split)

lemma get_or_create_ok:
  assumes "coordinator_ok c" "get_or_create_session k c = (c', r)"
  shows "coordinator_ok c'" "r = Inr i \<Longrightarrow> dict_get (co_sessions c') k = Some i"
  using assms new_session_ok [OF assms(1)]
  by (auto simp: get_or_create_session_def dict_simps simp del: map_of_eq_Some_iff split: if_splits option.splits sum.splits)

lemma check_contact_core: "check_contact k f c = (c', b) \<Longrightarrow> core c' = core c"
  using core_peers(5) [of k f c] by simp

lemma established_task_ok:
  assumes "coordinator_ok c" "i < length (co_heap c)" "se_remote_peer_id (co_heap c ! i) = k"
  shows "coordinator_ok (on_handshake_established k i c)"
proof -
  define fp where "fp = (case se_remote_fingerprint (co_heap (cancel_handshake_timeout k c) ! i) of Some f \<Rightarrow> f | None \<Rightarrow> [])"
  obtain c2 b where c2: "check_contact k fp (cancel_handshake_timeout k c) = (c2, b)" by fastforce
  note cc = core_fields [OF check_contact_core [OF c2]]
  have ok: "coordinator_ok c2" using cancel_ok [OF assms(1), of k] check_contact_core [OF c2] by simp
  have spawned: "core (spawn_all (map (Send_Direct k) ts) c') = core c'" for ts c' by (rule core_spawn_all) auto
  show ?thesis
  proof (cases b)
    case True
    then show ?thesis using ok c2
      by (simp add: on_handshake_established_def Let_def fp_def [symmetric] spawned core_simps)
  next
    case False
    have "coordinator_ok (discard_failed_session k i False (put_session i ((co_heap c2 ! i)\<lparr>se_state := FAILED\<rparr>) c2))"
      by (rule fail_and_discard_ok [OF ok _ _ moves_failed]) (use assms cc in \<open>simp_all add: session_core\<close>)
    with False c2 show ?thesis by (simp add: on_handshake_established_def Let_def fp_def [symmetric])
  qed
qed

lemma after_reply_ok:
  "coordinator_ok c \<Longrightarrow> i < length (co_heap c) \<Longrightarrow> se_remote_peer_id (co_heap c ! i) = k \<Longrightarrow> coordinator_ok (after_reply k i c)"
  by (simp add: after_reply_def established_task_ok)

lemma advance_ok:
  assumes "coordinator_ok c" "dict_get (co_sessions c) (sender_id_hex p) = Some i"
  shows "coordinator_ok (advance_handshake env p i c)"
proof -
  let ?k = "sender_id_hex p"
  note i = coordinator_okD(3) [OF assms]
  obtain s r where p: "process_handshake_message (en_lib env) (en_fresh env) (payload p) (co_heap c ! i) = (s, r)" by fastforce
  note m = moves_process [OF p] and ms = movesD [OF moves_process [OF p]] coordinator_okD(4) [OF assms(1)]
  have ok: "coordinator_ok (put_session i s c)" by (rule put_session_ok [OF assms(1) m])
  let ?c = "if se_state s = HANDSHAKING then schedule_handshake_timeout ?k i (put_session i s c) else put_session i s c"
  have c: "coordinator_ok ?c" using schedule_ok [OF ok, of ?k i] ok assms(2) by (simp add: session_core)
  have h: "co_heap ?c = (co_heap c)[i := s]" by (simp add: session_core)
  have in_heap: "i < length (co_heap ?c)" "se_remote_peer_id (co_heap ?c ! i) = ?k"
    using i ms unfolding h by simp_all
  show ?thesis
  proof (cases r)
    case (Inl e)
    with p fail_and_discard_ok [OF assms(1) conjunct1 [OF i] conjunct2 [OF i] m] show ?thesis
      by (simp add: advance_handshake_def Let_def)
  next
    case (Inr response)
    show ?thesis
    proof (cases response)
      case None
      with p Inr after_reply_ok [OF c in_heap] show ?thesis by (simp add: advance_handshake_def Let_def)
    next
      case (Some reply)
      have "coordinator_ok (spawn (After_Reply ?k i) (send_packet_to env ?k q ?c))" for q
        using c in_heap core_fields [OF core_sending(4) [of env ?k q ?c]]
        by (intro spawn_ok) (simp_all add: core_simps)
      with p Inr Some c show ?thesis by (auto simp: advance_handshake_def Let_def split: sum.split)
    qed
  qed
qed

lemma request_ok: "coordinator_ok c \<Longrightarrow> coordinator_ok (on_handshake_request env p c)"
proof -
  assume ok: "coordinator_ok c"
  let ?k = "sender_id_hex p"
  obtain c1 r where g: "get_or_create_session ?k c = (c1, r)" by fastforce
  note g1 = get_or_create_ok [OF ok g]
  have "coordinator_ok (schedule_handshake_timeout ?k i (put_session i s c1)) \<and> coordinator_ok (put_session i s c1)"
    if "r = Inr i" "start_handshake (en_lib env) (en_fresh env) (co_heap c1 ! i) = (s, x)" for i s x
    using schedule_ok put_session_ok [OF g1(1) moves_start [OF that(2)]] g1(2) [OF that(1)] by (simp add: session_core)
  with ok g1(1) show ?thesis
    by (auto simp: on_handshake_request_def Let_def g core_simps split: sum.split prod.split option.split)
qed

lemma init_ok: "coordinator_ok c \<Longrightarrow> coordinator_ok (on_handshake_init env p c)"
  using get_or_create_ok [of c "sender_id_hex p"]
  by (auto simp: on_handshake_init_def advance_ok split: prod.split sum.split)

lemma resp_ok: "coordinator_ok c \<Longrightarrow> coordinator_ok (on_handshake_resp env p c)"
  by (auto simp: on_handshake_resp_def advance_ok simp del: map_of_eq_Some_iff split: option.split)

lemma deliver_ok: "coordinator_ok c \<Longrightarrow> coordinator_ok (deliver_encrypted env k i p c)"
  by (auto simp: deliver_encrypted_def notify_ok dest!: moves_decrypt intro!: put_session_ok split: prod.split sum.split)

lemma encrypted_ok: "coordinator_ok c \<Longrightarrow> coordinator_ok (on_encrypted env p c)"
  using coordinator_okD(3) [of c "sender_id_hex p"]
  by (auto simp: on_encrypted_def deliver_ok simp del: map_of_eq_Some_iff intro!: spawn_ok split: option.split)

lemma await_ok:
  "coordinator_ok c \<Longrightarrow> i < length (co_heap c) \<Longrightarrow> se_remote_peer_id (co_heap c ! i) = k \<Longrightarrow> coordinator_ok (await_session env k i p n c)"
  by (simp add: await_session_def deliver_ok spawn_ok)

lemma open_handshake_ok:
  assumes "coordinator_ok c" "dict_get (co_sessions c) k = Some i"
  shows "coordinator_ok (fst (open_handshake env k i c))"
proof -
  have "coordinator_ok (schedule_handshake_timeout k i (put_session i s c)) \<and> coordinator_ok (put_session i s c)"
    if "start_handshake (en_lib env) (en_fresh env) (co_heap c ! i) = (s, x)" for s x
    using schedule_ok put_session_ok [OF assms(1) moves_start [OF that]] assms(2) by (simp add: session_core)
  with assms(1) show ?thesis
    by (auto simp: open_handshake_def core_simps split: prod.split sum.split option.split)
qed

lemma send_direct_ok: "coordinator_ok c \<Longrightarrow> coordinator_ok (fst (send_direct_message env k txt c))"
proof -
  assume ok: "coordinator_ok c"
  obtain c1 r where g: "get_or_create_session k c = (c1, r)" by fastforce
  note g1 = get_or_create_ok [OF ok g]
  have q: "coordinator_ok (queue_text k txt c1)" "co_sessions (queue_text k txt c1) = co_sessions c1"
    using g1(1) by (simp_all add: core_simps) (simp add: queue_text_def)
  have "coordinator_ok (put_session i s c1)"
    if "session_encrypt (en_lib env) pl (co_heap c1 ! i) = (s, x)" for i s x pl
    by (rule put_session_ok [OF g1(1) moves_encrypt [OF that]])
  with ok g1 q open_handshake_ok [of "queue_text k txt c1" k] show ?thesis
    by (auto simp: send_direct_message_def Let_def g core_simps split: sum.split prod.split)
qed

lemma drop_peer_ok: "coordinator_ok c \<Longrightarrow> coordinator_ok (drop_peer_session k c)"
proof -
  assume ok: "coordinator_ok c"
  show ?thesis
  proof (cases "dict_get (co_sessions c) k")
    case None
    with cancel_ok [OF ok] show ?thesis by (simp add: drop_peer_session_def Let_def core_simps session_core)
  next
    case (Some i)
    let ?c = "put_session i (session_close (co_heap c ! i)) (cancel_handshake_timeout k c)"
    note i = coordinator_okD(3) [OF ok Some]
    have "moves (co_heap c ! i) (session_close (co_heap c ! i))" by (simp add: moves_def close_ok)
    then have ok': "coordinator_ok ?c"
      by (intro put_session_ok cancel_ok [OF ok]) (simp add: session_core)
    have "coordinator_ok (?c\<lparr>co_sessions := (if dict_get (co_sessions ?c) k = Some i then dict_pop k (co_sessions ?c) else co_sessions ?c)\<rparr>)"
      by (rule drop_session_ok [OF ok'])
         (use i in \<open>simp_all add: session_core close_ok\<close>, simp add: put_session_def cancel_handshake_timeout_def dict_simps)
    moreover have "drop_peer_session k c = ?c\<lparr>co_sessions := dict_pop k (co_sessions c), co_pending := dict_pop k (co_pending ?c)\<rparr>"
      using Some by (simp add: drop_peer_session_def Let_def session_core put_session_def cancel_handshake_timeout_def)
    ultimately show ?thesis using Some by (simp only: core_effects session_core if_True simp_thms)
  qed
qed

lemma disconnected_ok: "coordinator_ok c \<Longrightarrow> coordinator_ok (handle_peer_disconnected env a c)"
proof -
  assume ok: "coordinator_ok c"
  have k: "keep_discovered env pid c' = (c'', b) \<Longrightarrow> core c'' = core c'" for pid c' c'' b
    using core_peers(3) [of env pid c'] by simp
  show ?thesis using ok
    by (auto simp: handle_peer_disconnected_def Let_def core_simps drop_peer_ok dest!: k split: option.split prod.split)
qed

lemma dispatch_ok: "coordinator_ok c \<Longrightarrow> coordinator_ok (dispatch_packet env p c)"
  by (cases "message_type p") (simp_all add: dispatch_packet_def core_simps request_ok init_ok resp_ok encrypted_ok)

lemma process_async_ok: "coordinator_ok c \<Longrightarrow> coordinator_ok (process_packet_async env p a c)"
  by (simp add: process_packet_async_def dispatch_ok core_simps)

lemma run_task_ok:
  assumes "coordinator_ok c" "task_ok (co_heap c) t" "run_task env t c = Some c'"
  shows "coordinator_ok c'"
  using assms
  by (cases t) (auto simp: process_async_ok send_direct_ok after_reply_ok await_ok core_simps dest!: core_relay)

lemma fail_task_ok: "coordinator_ok c \<Longrightarrow> fail_task env t c = Some c' \<Longrightarrow> coordinator_ok c'"
  by (cases t) (auto dest!: core_relay)

definition stable :: "coordinator option \<Rightarrow> bool" where
  "stable x \<longleftrightarrow> (case x of None \<Rightarrow> True | Some c \<Rightarrow> coordinator_ok c)"

lemma coordinator_step_ok: "stable x \<Longrightarrow> stable (fst (coordinator_step x e))"
proof (cases x)
  case (Some c)
  assume "stable x"
  then have ok: "coordinator_ok c" using Some by (simp add: stable_def)
  obtain env ev where e: "e = (env, ev)" by (cases e)
  show ?thesis
  proof (cases ev)
    case (Run_Task n)
    have "task_ok (co_heap (take_task n c)) (co_tasks c ! n)" if "n < length (co_tasks c)"
      using coordinator_okD(7) [OF ok nth_mem [OF that]] by (simp add: take_task_def)
    with run_task_ok [OF take_task_ok [OF ok]] ok show ?thesis
      unfolding Some e Run_Task by (auto simp: stable_def split: option.split)
  next
    case (Fail_Task n)
    with fail_task_ok [OF take_task_ok [OF ok]] ok show ?thesis
      unfolding Some e by (auto simp: stable_def split: option.split)
  next
    case (Packet_Arrives p a)
    with ok show ?thesis unfolding Some e by (auto simp: stable_def dest!: core_incoming split: option.split)
  next
    case (Server_Data raw client)
    with ok show ?thesis unfolding Some e by (auto simp: stable_def dest!: core_server_data split: option.split)
  qed (use ok in \<open>simp_all add: Some e stable_def core_simps timer_fires_ok expire_ok send_direct_ok disconnected_ok\<close>)
qed (simp add: stable_def)

interpretation coordinators: machine coordinator_step stable
  by unfold_locales (rule coordinator_step_ok)

lemma coordinator_new_ok: "coordinator_ok (SessionCoordinator ident storage nick r)"
  by (simp add: core_def core_ok.simps SessionCoordinator_def)

end
