(* ===== verification/Sha_Bits.thy ===== *)
theory Sha_Bits
  imports Sha256
begin

text \<open>
  SHA-256 of one block on lists of bits, least significant first: equal to \<open>sha_block\<close> and quick to
  evaluate by rewriting. With it, the published test vector for \<open>abc\<close>.
\<close>

definition wd :: "bool list \<Rightarrow> word32" where "wd = horner_sum of_bool 2"

lemma bit_wd: "bit (wd bs) n \<longleftrightarrow> n < 32 \<and> n < length bs \<and> bs ! n"
  by (auto simp: wd_def bit_horner_sum_bit_word_iff)

fun bxor :: "bool list \<Rightarrow> bool list \<Rightarrow> bool list" where
  "bxor (False # as) (b # bs) = b # bxor as bs"
| "bxor (True # as) (False # bs) = True # bxor as bs"
| "bxor (True # as) (True # bs) = False # bxor as bs"
| "bxor _ _ = []"

fun bchoose :: "bool list \<Rightarrow> bool list \<Rightarrow> bool list \<Rightarrow> bool list" where
  "bchoose (True # as) (b # bs) (c # cs) = b # bchoose as bs cs"
| "bchoose (False # as) (b # bs) (c # cs) = c # bchoose as bs cs"
| "bchoose _ _ _ = []"

text \<open>Where two of three bits agree.\<close>

fun bmaj :: "bool list \<Rightarrow> bool list \<Rightarrow> bool list \<Rightarrow> bool list" where
  "bmaj (True # as) (True # bs) (c # cs) = True # bmaj as bs cs"
| "bmaj (True # as) (False # bs) (c # cs) = c # bmaj as bs cs"
| "bmaj (False # as) (True # bs) (c # cs) = c # bmaj as bs cs"
| "bmaj (False # as) (False # bs) (c # cs) = False # bmaj as bs cs"
| "bmaj _ _ _ = []"

fun badd :: "bool \<Rightarrow> bool list \<Rightarrow> bool list \<Rightarrow> bool list" where
  "badd c (True # as) (True # bs) = c # badd True as bs"
| "badd c (False # as) (False # bs) = c # badd False as bs"
| "badd True (True # as) (False # bs) = False # badd True as bs"
| "badd False (True # as) (False # bs) = True # badd False as bs"
| "badd True (False # as) (True # bs) = False # badd True as bs"
| "badd False (False # as) (True # bs) = True # badd False as bs"
| "badd _ _ _ = []"

fun bcarry :: "bool \<Rightarrow> bool list \<Rightarrow> bool list \<Rightarrow> bool" where
  "bcarry c (a # as) (b # bs) = bcarry ((a \<and> b) \<or> (c \<and> (a \<or> b))) as bs"
| "bcarry c _ _ = c"

definition brotr :: "nat \<Rightarrow> bool list \<Rightarrow> bool list" where
  "brotr n bs = drop n bs @ take n bs"

definition bshr :: "nat \<Rightarrow> bool list \<Rightarrow> bool list" where
  "bshr n bs = drop n bs @ replicate n False"

lemma bits_length [simp]:
  "length a = length b \<Longrightarrow> length (bxor a b) = length b"
  "length a = length b \<Longrightarrow> length b = length c \<Longrightarrow> length (bchoose a b c) = length c"
  "length a = length b \<Longrightarrow> length b = length c \<Longrightarrow> length (bmaj a b c) = length c"
  "length a = length b \<Longrightarrow> length (badd x a b) = length b"
  "length (brotr n a) = length a" "n \<le> length a \<Longrightarrow> length (bshr n a) = length a"
proof -
  show "length a = length b \<Longrightarrow> length (bxor a b) = length b" by (induction a b rule: bxor.induct) auto
  show "length a = length b \<Longrightarrow> length b = length c \<Longrightarrow> length (bchoose a b c) = length c" by (induction a b c rule: bchoose.induct) auto
  show "length a = length b \<Longrightarrow> length b = length c \<Longrightarrow> length (bmaj a b c) = length c" by (induction a b c rule: bmaj.induct) auto
  show "length a = length b \<Longrightarrow> length (badd x a b) = length b" by (induction x a b rule: badd.induct) auto
qed (auto simp: brotr_def bshr_def)

lemma bits_nth:
  "length a = length b \<Longrightarrow> n < length b \<Longrightarrow> bxor a b ! n = (a ! n \<noteq> b ! n)"
  "length a = length b \<Longrightarrow> length b = length c \<Longrightarrow> n < length c \<Longrightarrow> bchoose a b c ! n = (if a ! n then b ! n else c ! n)"
  "length a = length b \<Longrightarrow> length b = length c \<Longrightarrow> n < length c \<Longrightarrow>
     bmaj a b c ! n = ((a ! n \<and> b ! n) \<or> (a ! n \<and> c ! n) \<or> (b ! n \<and> c ! n))"
proof -
  show "length a = length b \<Longrightarrow> n < length b \<Longrightarrow> bxor a b ! n = (a ! n \<noteq> b ! n)"
    by (induction a b arbitrary: n rule: bxor.induct) (auto simp: nth_Cons split: nat.split)
  show "length a = length b \<Longrightarrow> length b = length c \<Longrightarrow> n < length c \<Longrightarrow> bchoose a b c ! n = (if a ! n then b ! n else c ! n)"
    by (induction a b c arbitrary: n rule: bchoose.induct) (auto simp: nth_Cons split: nat.split)
  show "length a = length b \<Longrightarrow> length b = length c \<Longrightarrow> n < length c \<Longrightarrow>
     bmaj a b c ! n = ((a ! n \<and> b ! n) \<or> (a ! n \<and> c ! n) \<or> (b ! n \<and> c ! n))"
    by (induction a b c arbitrary: n rule: bmaj.induct) (auto simp: nth_Cons split: nat.split)
qed

lemma badd_horner:
  "length a = length b \<Longrightarrow>
     horner_sum of_bool 2 (badd c a b) + 2 ^ length b * of_bool (bcarry c a b) =
     (of_bool c + horner_sum of_bool 2 a + horner_sum of_bool 2 b :: 'a::comm_ring_1)"
proof (induction a arbitrary: b c)
  case (Cons x a)
  then obtain y b' where b: "b = y # b'" "length a = length b'" by (cases b) auto
  let ?c = "(x \<and> y) \<or> (c \<and> (x \<or> y))"
  define K where "K = (of_bool (bcarry ?c a b') :: 'a)"
  define R where "R = (horner_sum of_bool 2 (badd ?c a b') :: 'a)"
  have R: "R = of_bool ?c + horner_sum of_bool 2 a + horner_sum of_bool 2 b' - 2 ^ length b' * K"
    using Cons.IH [OF b(2), of ?c] by (simp add: eq_diff_eq K_def R_def)
  have "of_bool (x = (y = c)) + 2 * R + 2 * (2 ^ length b' * K) =
      of_bool c + (of_bool x + 2 * horner_sum of_bool 2 a) + (of_bool y + 2 * horner_sum of_bool 2 b')"
    unfolding R by (cases x; cases y; cases c) (simp_all add: algebra_simps)
  moreover have "badd c (x # a) b = (x = (y = c)) # badd ?c a b'" "bcarry c (x # a) b = bcarry ?c a b'"
    using b(1) by (cases x; cases y; cases c; simp)+
  ultimately show ?case using b(1) by (simp add: R_def K_def mult.assoc)
qed simp

lemma two_32: "(2 :: word32) ^ 32 = 0"
  by simp

lemma wd_ops:
  assumes "length a = 32" "length b = 32"
  shows "wd a XOR wd b = wd (bxor a b)" "wd a + wd b = wd (badd False a b)"
proof -
  show "wd a XOR wd b = wd (bxor a b)" using assms by (intro bit_eqI) (auto simp: bit_wd bit_xor_iff bits_nth)
  have "wd (badd False a b) + 2 ^ 32 * of_bool (bcarry False a b) = wd a + wd b"
    using badd_horner [of a b False, where 'a = word32] assms unfolding wd_def by (simp only: add_0_left of_bool_eq)
  then show "wd a + wd b = wd (badd False a b)" by (simp only: two_32 mult_zero_left add_0_right)
qed

lemma wd_select:
  assumes "length a = 32" "length b = 32" "length c = 32"
  shows "(wd a AND wd b) XOR (NOT (wd a) AND wd c) = wd (bchoose a b c)"
    "(wd a AND wd b) XOR (wd a AND wd c) XOR (wd b AND wd c) = wd (bmaj a b c)"
  using assms by (intro bit_eqI; auto simp: bit_wd bit_xor_iff bit_and_iff bit_not_iff bits_nth)+

lemma wd_shift:
  assumes "length a = 32" "n < 32"
  shows "rotr32 n (wd a) = wd (brotr n a)" "drop_bit n (wd a) = wd (bshr n a)"
  using assms
  by (intro bit_eqI; auto simp: rotr32_def bit_or_iff bit_drop_bit_eq bit_push_bit_iff bit_wd brotr_def bshr_def nth_append)+


subsection \<open>Rounds and the message schedule\<close>

definition bsig :: "nat \<Rightarrow> nat \<Rightarrow> nat \<Rightarrow> bool list \<Rightarrow> bool list" where
  "bsig i j k x = bxor (brotr i x) (bxor (brotr j x) (brotr k x))"

definition bsmall :: "nat \<Rightarrow> nat \<Rightarrow> nat \<Rightarrow> bool list \<Rightarrow> bool list" where
  "bsmall i j k x = bxor (brotr i x) (bxor (brotr j x) (bshr k x))"

fun bsched :: "nat \<Rightarrow> bool list list \<Rightarrow> bool list list" where
  "bsched 0 ws = rev ws"
| "bsched (Suc n) ws =
     bsched n (badd False (badd False (badd False (bsmall 17 19 10 (ws ! 1)) (ws ! 6)) (bsmall 7 18 3 (ws ! 14))) (ws ! 15) # ws)"

type_synonym bstate =
  "bool list \<times> bool list \<times> bool list \<times> bool list \<times> bool list \<times> bool list \<times> bool list \<times> bool list"

fun bstep :: "bool list \<Rightarrow> bool list \<Rightarrow> bstate \<Rightarrow> bstate" where
  "bstep t1 t2 (a, b, c, d, e, f, g, h) = (badd False t1 t2, a, b, c, badd False d t1, e, f, g)"

fun bround :: "bool list \<Rightarrow> bool list \<Rightarrow> bstate \<Rightarrow> bstate" where
  "bround k w (a, b, c, d, e, f, g, h) =
     bstep (badd False (badd False (badd False (badd False h (bsig 6 11 25 e)) (bchoose e f g)) k) w)
       (badd False (bsig 2 13 22 a) (bmaj a b c)) (a, b, c, d, e, f, g, h)"

fun brounds :: "bool list list \<Rightarrow> bool list list \<Rightarrow> bstate \<Rightarrow> bstate" where
  "brounds (k # ks) (w # ws) s = brounds ks ws (bround k w s)"
| "brounds _ _ s = s"

fun bplus :: "bstate \<Rightarrow> bstate \<Rightarrow> bstate" where
  "bplus (a, b, c, d, e, f, g, h) (a', b', c', d', e', f', g', h') =
     (badd False a a', badd False b b', badd False c c', badd False d d',
      badd False e e', badd False f f', badd False g g', badd False h h')"

fun st_of :: "bstate \<Rightarrow> sha_state" where
  "st_of (a, b, c, d, e, f, g, h) = \<lparr>sha_a = wd a, sha_b = wd b, sha_c = wd c, sha_d = wd d,
     sha_e = wd e, sha_f = wd f, sha_g = wd g, sha_h = wd h\<rparr>"

abbreviation w32 :: "bool list list \<Rightarrow> bool" where "w32 ws \<equiv> \<forall>w \<in> set ws. length w = 32"

fun st32 :: "bstate \<Rightarrow> bool" where
  "st32 (a, b, c, d, e, f, g, h) \<longleftrightarrow> w32 [a, b, c, d, e, f, g, h]"

lemma wd_sigmas:
  assumes "length x = 32"
  shows "big_sigma0 (wd x) = wd (bsig 2 13 22 x)" "big_sigma1 (wd x) = wd (bsig 6 11 25 x)"
    "small_sigma0 (wd x) = wd (bsmall 7 18 3 x)" "small_sigma1 (wd x) = wd (bsmall 17 19 10 x)"
    "length (bsig i j k x) = 32" "k < 32 \<Longrightarrow> length (bsmall i j k x) = 32"
  using assms
  by (simp_all add: big_sigma0_def big_sigma1_def small_sigma0_def small_sigma1_def bsig_def bsmall_def wd_shift wd_ops)

lemma wd_sched:
  assumes "w32 ws" "16 \<le> length ws"
  shows "sha_schedule n (map wd ws) = map wd (bsched n ws) \<and> w32 (bsched n ws)"
  using assms
proof (induction n arbitrary: ws)
  case (Suc n)
  let ?w = "badd False (badd False (badd False (bsmall 17 19 10 (ws ! 1)) (ws ! 6)) (bsmall 7 18 3 (ws ! 14))) (ws ! 15)"
  have len: "length (ws ! i) = 32" if "i < 16" for i using Suc.prems that by simp
  have "small_sigma1 (map wd ws ! 1) + map wd ws ! 6 + small_sigma0 (map wd ws ! 14) + map wd ws ! 15 = wd ?w"
    using Suc.prems(2) len by (simp add: wd_sigmas wd_ops)
  with Suc.IH [of "?w # ws"] Suc.prems len show ?case by (simp add: wd_sigmas)
qed (simp add: rev_map)

lemma wd_round:
  assumes "length k = 32" "length w = 32" "st32 s"
  shows "sha_round (wd k, wd w) (st_of s) = st_of (bround k w s)" "st32 (bround k w s)"
proof -
  obtain a b c d e f g h where s: "s = (a, b, c, d, e, f, g, h)" by (cases s rule: st32.cases)
  show "sha_round (wd k, wd w) (st_of s) = st_of (bround k w s)" "st32 (bround k w s)"
    using assms by (simp_all add: s sha_round_def Let_def wd_select wd_sigmas wd_ops)
qed

lemma wd_rounds:
  assumes "w32 ks" "w32 ws" "st32 s"
  shows "fold sha_round (zip (map wd ks) (map wd ws)) (st_of s) = st_of (brounds ks ws s) \<and> st32 (brounds ks ws s)"
  using assms
proof (induction ks ws s rule: brounds.induct)
  case (1 k ks w ws s)
  with wd_round [of k w s] show ?case by simp
qed auto


subsection \<open>One block, and constants\<close>

definition ibits :: "nat \<Rightarrow> int \<Rightarrow> bool list" where
  "ibits n x = map (bit x) [0..<n]"

fun nbits :: "nat \<Rightarrow> num \<Rightarrow> bool list" where
  "nbits 0 m = []"
| "nbits (Suc n) num.One = True # replicate n False"
| "nbits (Suc n) (num.Bit0 m) = False # nbits n m"
| "nbits (Suc n) (num.Bit1 m) = True # nbits n m"

lemma length_ibits [simp]: "length (ibits n x) = n" by (simp add: ibits_def)

lemma wd_ibits: "wd (ibits 32 x) = word_of_int x"
  by (rule bit_eqI) (auto simp: bit_wd ibits_def bit_word_of_int_iff)

lemma nbits_eq: "nbits n m = map (bit (numeral m :: int)) [0..<n]"
proof (induction n m rule: nbits.induct)
  case (2 n)
  show ?case by (rule nth_equalityI) (auto simp: nth_Cons bit_1_iff simp del: upt_Suc split: nat.split)
next
  case (3 n m)
  then show ?case by (intro nth_equalityI) (auto simp: nth_Cons bit_numeral_Bit0_Suc_iff simp del: upt_Suc split: nat.split)
next
  case (4 n m)
  then show ?case by (intro nth_equalityI) (auto simp: nth_Cons bit_numeral_Bit1_Suc_iff simp del: upt_Suc split: nat.split)
qed simp

lemma ibits_code [code]: "ibits n 0 = replicate n False" "ibits n (Int.Pos m) = nbits n m" "ibits n (Int.Neg m) = map (bit (Int.Neg m)) [0..<n]"
  by (simp_all add: ibits_def nbits_eq) (auto intro: nth_equalityI)

text \<open>Numbers cut into words, the first word of the highest weight.\<close>

fun chop32 :: "nat \<Rightarrow> int \<Rightarrow> word32 list" where
  "chop32 0 x = []"
| "chop32 (Suc n) x = chop32 n (x div 2 ^ 32) @ [word_of_int x]"

fun chunks :: "nat \<Rightarrow> bool list \<Rightarrow> bool list list" where
  "chunks 0 bs = []"
| "chunks (Suc n) bs = chunks n (drop 32 bs) @ [take 32 bs]"

lemma ibits_add: "ibits (m + n) x = ibits m x @ ibits n (x div 2 ^ m)"
  by (rule nth_equalityI) (auto simp: ibits_def nth_append bit_drop_bit_eq simp flip: drop_bit_eq_div)

lemma wd_chunks: "map wd (chunks n (ibits (n * 32) x)) = chop32 n x \<and> w32 (chunks n (ibits (n * 32) x))"
  by (induction n arbitrary: x) (auto simp: ibits_add wd_ibits)

lemma be_bytes_split: "be_bytes (m + n) v = be_bytes m (v div 256 ^ n) @ be_bytes n v"
  by (induction n arbitrary: v) (simp_all add: zdiv_zmult2_eq)

lemma be_words_split: "length bs = n * 4 \<Longrightarrow> be_words (n + m) (bs @ cs) = be_words n bs @ be_words m cs"
  by (induction n arbitrary: bs) (simp_all add: take_append drop_append)

lemma be_bytes_mod: "be_bytes n (x mod 256 ^ n) = be_bytes n x"
proof (induction n arbitrary: x)
  case (Suc n)
  have "x mod 256 ^ Suc n div 256 = (x div 256) mod 256 ^ n" by (simp add: mod_mult2_eq zmod_zmult2_eq)
  moreover have "(word_of_int (x mod 256 ^ Suc n) :: byte) = word_of_int x"
    by (simp add: word_of_int_eq_iff take_bit_eq_mod mod_mod_cancel)
  ultimately show ?case using Suc by simp
qed simp

lemma be_words_one: "be_words 1 (be_bytes 4 x) = [word_of_int x]"
proof -
  have "be_bytes 4 x = be_bytes 4 (x mod 2 ^ 32)" using be_bytes_mod [of 4 x] by simp
  moreover have "(word_of_int (x mod 2 ^ 32) :: word32) = word_of_int x" by (simp add: word_of_int_eq_iff take_bit_eq_mod)
  ultimately show ?thesis by (simp add: be_int_be_bytes)
qed

lemma be_words_chop: "be_words n (be_bytes (n * 4) x) = chop32 n x"
proof (induction n arbitrary: x)
  case (Suc n)
  have "be_bytes (n * 4 + 4) x = be_bytes (n * 4) (x div 2 ^ 32) @ be_bytes 4 x"
    by (simp add: be_bytes_split [of "n * 4" 4 x])
  moreover have "be_words (n + 1) (be_bytes (n * 4) (x div 2 ^ 32) @ be_bytes 4 x) = be_words n (be_bytes (n * 4) (x div 2 ^ 32)) @ be_words 1 (be_bytes 4 x)"
    by (rule be_words_split) simp
  ultimately show ?case using Suc be_words_one by (simp add: add.commute)
qed simp


definition sha_rows :: "int list" where
  "sha_rows = [
   0x428a2f9871374491b5c0fbcfe9b5dba53956c25b59f111f1923f82a4ab1c5ed5,
   0xd807aa9812835b01243185be550c7dc372be5d7480deb1fe9bdc06a7c19bf174,
   0xe49b69c1efbe47860fc19dc6240ca1cc2de92c6f4a7484aa5cb0a9dc76f988da,
   0x983e5152a831c66db00327c8bf597fc7c6e00bf3d5a7914706ca635114292967,
   0x27b70a852e1b21384d2c6dfc53380d13650a7354766a0abb81c2c92e92722c85,
   0xa2bfe8a1a81a664bc24b8b70c76c51a3d192e819d6990624f40e3585106aa070,
   0x19a4c1161e376c082748774c34b0bcb5391c0cb34ed8aa4a5b9cca4f682e6ff3,
   0x748f82ee78a5636f84c878148cc7020890befffaa4506cebbef9a3f7c67178f2]"

definition bkeys :: "bool list list" where
  "bkeys = concat (map (\<lambda>row. chunks 8 (ibits 256 row)) sha_rows)"

lemma wd_bkeys: "map wd bkeys = sha_k" "w32 bkeys"
proof -
  have "sha_k = concat (map (\<lambda>row. be_words 8 (be_bytes 32 row)) sha_rows)" by (simp only: sha_k_def sha_rows_def)
  also have "\<dots> = concat (map (\<lambda>row. map wd (chunks 8 (ibits 256 row))) sha_rows)"
    using be_words_chop [of 8] wd_chunks [of 8] by simp
  finally show "map wd bkeys = sha_k" by (simp add: bkeys_def map_concat comp_def)
  show "w32 bkeys" using wd_chunks [of 8] by (auto simp: bkeys_def)
qed

fun bstate_of :: "int list \<Rightarrow> bstate" where
  "bstate_of [a, b, c, d, e, f, g, h] = (ibits 32 a, ibits 32 b, ibits 32 c, ibits 32 d, ibits 32 e, ibits 32 f, ibits 32 g, ibits 32 h)"
| "bstate_of _ = ([], [], [], [], [], [], [], [])"

text \<open>The compression of one block, given and wanted as numbers.\<close>

definition bblock :: "int list \<Rightarrow> bstate \<Rightarrow> bstate" where
  "bblock ws s = bplus s (brounds bkeys (bsched 48 (rev (map (ibits 32) ws))) s)"

lemma st_of_plus:
  assumes "st32 s" "st32 s'"
  shows "st_of (bplus s s') = \<lparr>sha_a = sha_a (st_of s) + sha_a (st_of s'), sha_b = sha_b (st_of s) + sha_b (st_of s'),
          sha_c = sha_c (st_of s) + sha_c (st_of s'), sha_d = sha_d (st_of s) + sha_d (st_of s'),
          sha_e = sha_e (st_of s) + sha_e (st_of s'), sha_f = sha_f (st_of s) + sha_f (st_of s'),
          sha_g = sha_g (st_of s) + sha_g (st_of s'), sha_h = sha_h (st_of s) + sha_h (st_of s')\<rparr>"
  using assms by (cases s rule: st32.cases; cases s' rule: st32.cases) (simp add: wd_ops)

lemma sha_block_bits:
  assumes "be_words 16 block = map word_of_int ws" "length ws = 16" "st32 s"
  shows "sha_block block (st_of s) = st_of (bblock ws s)"
proof -
  have w: "map word_of_int ws = map wd (map (ibits 32) ws)" by (simp add: wd_ibits)
  let ?ws = "rev (map (ibits 32) ws)"
  have sch: "sha_schedule 48 (rev (be_words 16 block)) = map wd (bsched 48 ?ws)" "w32 (bsched 48 ?ws)"
    using wd_sched [of ?ws 48] assms(1,2) w by (auto simp: rev_map)
  have "fold sha_round (zip sha_k (sha_schedule 48 (rev (be_words 16 block)))) (st_of s) = st_of (brounds bkeys (bsched 48 ?ws) s)"
    "st32 (brounds bkeys (bsched 48 ?ws) s)"
    using wd_rounds [OF wd_bkeys(2) sch(2) assms(3)] unfolding sch(1) wd_bkeys(1) [symmetric] by auto
  then show ?thesis using assms(3) by (simp add: sha_block_def Let_def bblock_def st_of_plus)
qed

definition binit :: bstate where
  "binit = bstate_of [0x6a09e667, 0xbb67ae85, 0x3c6ef372, 0xa54ff53a, 0x510e527f, 0x9b05688c, 0x1f83d9ab, 0x5be0cd19]"

lemma binit: "st_of binit = sha_init" "st32 binit"
  by (simp_all add: binit_def sha_init_def wd_ibits)


lemma uint_word_digest: "be_bytes 4 (uint (word_of_int d :: word32)) = be_bytes 4 d"
  using be_bytes_mod [of 4 d] by (simp add: uint_word_of_int take_bit_eq_mod)

text \<open>A message of one block: its padded words and its digest, as numbers.\<close>

lemma sha256_one_block:
  assumes "length msg < 56" "be_words 16 (sha_pad msg) = map word_of_int ws" "length ws = 16"
    and "bblock ws binit = bstate_of [a, b, c, d, e, f, g, h]"
  shows "sha256 msg = concat (map (be_bytes 4) [a, b, c, d, e, f, g, h])"
proof -
  have "119 - length msg = 55 - length msg + 64" using assms(1) by simp
  then have "(119 - length msg) mod 64 = 55 - length msg" by (simp only: mod_add_self2) simp
  then have len: "length (sha_pad msg) = 64" using assms(1) by (simp add: sha_pad_def)
  have "sha_block (sha_pad msg) sha_init = st_of (bstate_of [a, b, c, d, e, f, g, h])"
    using sha_block_bits [OF assms(2,3) binit(2)] assms(4) by (simp only: binit(1))
  then show ?thesis by (simp add: sha256_def len Let_def wd_ibits uint_word_digest numeral_eq_Suc [of num.One])
qed

lemma be_words_take:
  "be_words (Suc n) (a # b # c # d # bs) = word_of_int (((uint a * 256 + uint b) * 256 + uint c) * 256 + uint d) # be_words n bs"
  by (simp add: be_int_def)

lemma be_words_sixteen: "be_words 16 = be_words (Suc (Suc (Suc (Suc (Suc (Suc (Suc (Suc (Suc (Suc (Suc (Suc (Suc (Suc (Suc (Suc 0))))))))))))))))"
  by (simp add: numeral_eq_Suc)

lemma be_bytes_eight: "be_bytes 8 v = map (\<lambda>i. word_of_int (v div 256 ^ i)) [7, 6, 5, 4, 3, 2, 1, 0]"
  by (simp add: numeral_eq_Suc zdiv_zmult2_eq [symmetric])

lemma replicate_eval: "replicate (numeral k) x = x # replicate (pred_numeral k) x"
  by (simp add: numeral_eq_Suc)

lemmas padding_simps = sha_pad_def replicate_eval be_words_sixteen be_words_take be_bytes_eight

lemma sha256_abc:
  "sha256 [0x61, 0x62, 0x63] = concat (map (be_bytes 4)
     [0xba7816bf, 0x8f01cfea, 0x414140de, 0x5dae2223, 0xb00361a3, 0x96177a9c, 0xb410ff61, 0xf20015ad])"
proof (rule sha256_one_block)
  show "be_words 16 (sha_pad [0x61, 0x62, 0x63]) = map word_of_int [0x61626380, 0, 0, 0, 0, 0, 0, 0, 0, 0, 0, 0, 0, 0, 0, 0x18]"
    by (simp add: padding_simps del: be_words.simps(2))
  show "bblock [0x61626380, 0, 0, 0, 0, 0, 0, 0, 0, 0, 0, 0, 0, 0, 0, 0x18] binit = bstate_of
      [0xba7816bf, 0x8f01cfea, 0x414140de, 0x5dae2223, 0xb00361a3, 0x96177a9c, 0xb410ff61, 0xf20015ad]" by code_simp
qed simp_all


lemma sha256_ones:
  "sha256 (replicate 32 1) = concat (map (be_bytes 4)
     [0x72cd6e84, 0x22c407fb, 0x6d098690, 0xf1130b7d, 0xed7ec2f7, 0xf5e1d30b, 0xd9d521f0, 0x15363793])"
proof (rule sha256_one_block)
  let ?ws = "[0x01010101, 0x01010101, 0x01010101, 0x01010101, 0x01010101, 0x01010101, 0x01010101, 0x01010101,
     0x80000000, 0, 0, 0, 0, 0, 0, 0x100] :: int list"
  show "be_words 16 (sha_pad (replicate 32 1)) = map word_of_int ?ws" by (simp add: padding_simps del: be_words.simps(2))
  show "bblock ?ws binit = bstate_of
     [0x72cd6e84, 0x22c407fb, 0x6d098690, 0xf1130b7d, 0xed7ec2f7, 0xf5e1d30b, 0xd9d521f0, 0x15363793]" by code_simp
qed simp_all

lemma sha256_twos:
  "sha256 (replicate 32 2) = concat (map (be_bytes 4)
     [0x75877bb4, 0x1d393b5f, 0xb8455ce6, 0x0ecd8dda, 0x001d0631, 0x6496b14d, 0xfa7f8956, 0x56eeca4a])"
proof (rule sha256_one_block)
  let ?ws = "[0x02020202, 0x02020202, 0x02020202, 0x02020202, 0x02020202, 0x02020202, 0x02020202, 0x02020202,
     0x80000000, 0, 0, 0, 0, 0, 0, 0x100] :: int list"
  show "be_words 16 (sha_pad (replicate 32 2)) = map word_of_int ?ws" by (simp add: padding_simps del: be_words.simps(2))
  show "bblock ?ws binit = bstate_of
     [0x75877bb4, 0x1d393b5f, 0xb8455ce6, 0x0ecd8dda, 0x001d0631, 0x6496b14d, 0xfa7f8956, 0x56eeca4a]" by code_simp
qed simp_all

end
