(* ===== verification/Samples.thy ===== *)
theory Samples
  imports Coordinator_Inv Sha_Bits
begin

text \<open>Two peers of the sample library with their identifiers worked out, for the examples.\<close>

lemma sample_ids:
  "peer_id_hex (sample_identity 1) = ''72cd6e8422c407fb''" "peer_id_hex (sample_identity 2) = ''75877bb41d393b5f''"
proof -
  have "sha256 (sample_key 1) = concat (map (be_bytes 4)
     [0x72cd6e84, 0x22c407fb, 0x6d098690, 0xf1130b7d, 0xed7ec2f7, 0xf5e1d30b, 0xd9d521f0, 0x15363793])"
    "sha256 (sample_key 2) = concat (map (be_bytes 4)
     [0x75877bb4, 0x1d393b5f, 0xb8455ce6, 0x0ecd8dda, 0x001d0631, 0x6496b14d, 0xfa7f8956, 0x56eeca4a])"
    by (simp_all only: sample_key_def sha256_ones sha256_twos)
  then have "take 8 (sha256 (sample_key 1)) = be_bytes 4 0x72cd6e84 @ be_bytes 4 0x22c407fb"
    "take 8 (sha256 (sample_key 2)) = be_bytes 4 0x75877bb4 @ be_bytes 4 0x1d393b5f" by simp_all
  moreover have "bytes_hex (be_bytes 4 0x72cd6e84 @ be_bytes 4 0x22c407fb) = ''72cd6e8422c407fb''"
    "bytes_hex (be_bytes 4 0x75877bb4 @ be_bytes 4 0x1d393b5f) = ''75877bb41d393b5f''" by code_simp+
  ultimately show "peer_id_hex (sample_identity 1) = ''72cd6e8422c407fb''" "peer_id_hex (sample_identity 2) = ''75877bb41d393b5f''"
    by (simp_all add: peer_id_hex_def sample_identity_def)
qed

lemma sample_role: "determine_handshake_role (peer_id_hex (sample_identity 1)) (peer_id_hex (sample_identity 2)) = Inr INITIATOR"
  unfolding sample_ids by code_simp

definition sample_env :: "byte \<Rightarrow> env" where
  "sample_env b = \<lparr>en_lib = sample_lib, en_now = 0, en_stamp = 0, en_fresh = sample_key b, en_connected = [], en_inbound = [],
     en_discovered = [], en_resolve = (\<lambda>k. None), en_utf8 = (\<lambda>bs. Some (map (\<lambda>b. char_of (unat b)) bs)), en_utf8_replace = (\<lambda>bs. [])\<rparr>"

abbreviation "alice \<equiv> SessionCoordinator (sample_identity 1) None ''alice'' None"
abbreviation "bob \<equiv> SessionCoordinator (sample_identity 2) None ''bob'' None"

end
