(* ===== verification/Coordinator_Props.thy ===== *)
theory Coordinator_Props
  imports Samples
begin

text \<open>
  What the coordinator guarantees and where it does not: the source of decrypted messages, the end of
  every handshake, the limit on handshakes and the way around it, the gap before trust on first use,
  and the uniqueness of nicknames.
\<close>

text \<open>The end of a handshake: the contact is refused or accepted.\<close>

lemma established_cases:
  obtains (refused) c2 where "core c2 = core (cancel_handshake_timeout k c)" "on_handshake_established k i c =
      discard_failed_session k i False (put_session i ((co_heap c2 ! i)\<lparr>se_state := FAILED\<rparr>) c2)"
  | (accepted) c2 fp ts where "core c2 = core (cancel_handshake_timeout k c)" "on_handshake_established k i c =
      spawn_all (map (Send_Direct k) ts) (notify (Handshake_Completed k fp) c2\<lparr>co_pending := dict_pop k (co_pending c2)\<rparr>)"
proof -
  define fp where "fp = (case se_remote_fingerprint (co_heap (cancel_handshake_timeout k c) ! i) of Some f \<Rightarrow> f | None \<Rightarrow> [])"
  obtain c2 b where c2: "check_contact k fp (cancel_handshake_timeout k c) = (c2, b)" by fastforce
  have "co_pending (notify n c2) = co_pending c2" for n by (simp add: notify_def)
  with c2 check_contact_core [OF c2] that show thesis
    by (cases b) (simp_all add: on_handshake_established_def Let_def fp_def [symmetric])
qed

subsection \<open>Only decryption puts a message into the inbox\<close>

lemma inbox_core: "core c = core c' \<Longrightarrow> inbox c = inbox c'"
  by (simp add: core_def)

lemmas inbox_frames = core_effects [THEN inbox_core] core_spawn_all [THEN inbox_core] core_sending [THEN inbox_core]
  core_peers [THEN inbox_core] core_handlers [THEN inbox_core]

lemma inbox_updates:
  "inbox (c\<lparr>co_heap := h\<rparr>) = inbox c" "inbox (c\<lparr>co_sessions := d\<rparr>) = inbox c" "inbox (c\<lparr>co_timers := d\<rparr>) = inbox c"
  "inbox (c\<lparr>co_tasks := ts\<rparr>) = inbox c" "inbox (spawn t c) = inbox c" "inbox (take_task n c) = inbox c"
  "inbox (spawn_all ts c) = inbox c"
  by (simp_all add: inbox_def spawn_def spawn_all_def take_task_def)

named_theorems inbox_simps \<open>operations that deliver no decrypted message\<close>

lemmas [inbox_simps] = inbox_frames inbox_updates session_core

lemma inbox_discard [inbox_simps]: "inbox (discard_failed_session k i force c) = inbox c"
  by (simp add: discard_failed_session_def Let_def inbox_simps)

lemma inbox_timers [inbox_simps]: "inbox (timer_fires k c) = inbox c" "inbox (expire_handshake k c) = inbox c"
  by (simp_all add: timer_fires_def expire_handshake_def inbox_simps split: option.split)

lemma inbox_get_or_create [inbox_simps]: "inbox (fst (get_or_create_session k c)) = inbox c"
  by (simp add: get_or_create_session_def inbox_simps split: option.split sum.split)

lemma inbox_established [inbox_simps]: "inbox (on_handshake_established k i c) = inbox c" "inbox (after_reply k i c) = inbox c"
proof -
  show est: "inbox (on_handshake_established k i c) = inbox c" for c
    by (cases rule: established_cases [of k c i]) (auto simp: inbox_simps dest: inbox_core)
  show "inbox (after_reply k i c) = inbox c" by (simp add: after_reply_def est)
qed

lemma inbox_handshake [inbox_simps]:
  "inbox (advance_handshake env p i c) = inbox c" "inbox (on_handshake_request env p c) = inbox c"
  "inbox (on_handshake_init env p c) = inbox c" "inbox (on_handshake_resp env p c) = inbox c"
proof -
  have g: "get_or_create_session k c = (c1, r) \<Longrightarrow> inbox c1 = inbox c" for k c c1 r
    using inbox_get_or_create [of k c] by simp
  show adv: "inbox (advance_handshake env p i c) = inbox c" for i c
    by (simp add: advance_handshake_def Let_def inbox_simps split: prod.split sum.split option.split)
  show "inbox (on_handshake_request env p c) = inbox c"
    by (auto simp: on_handshake_request_def Let_def inbox_simps split: prod.split sum.split option.split dest: g)
  show "inbox (on_handshake_init env p c) = inbox c" "inbox (on_handshake_resp env p c) = inbox c"
    by (auto simp: on_handshake_init_def on_handshake_resp_def adv split: prod.split sum.split option.split dest: g)
qed

lemma inbox_direct [inbox_simps]: "inbox (fst (send_direct_message env k txt c)) = inbox c"
proof -
  have g: "get_or_create_session k c = (c1, r) \<Longrightarrow> inbox c1 = inbox c" for c1 r
    using inbox_get_or_create [of k c] by simp
  have o: "inbox (fst (open_handshake env k i c)) = inbox c" for i c
    by (simp add: open_handshake_def inbox_simps split: prod.split sum.split option.split)
  show ?thesis
    by (auto simp: send_direct_message_def Let_def inbox_simps o split: prod.split sum.split dest: g)
qed

lemma inbox_disconnected [inbox_simps]: "inbox (handle_peer_disconnected env a c) = inbox c"
proof -
  have k: "keep_discovered env pid c' = (c'', b) \<Longrightarrow> inbox c'' = inbox c'" for pid c' c'' b
    using inbox_core [OF core_peers(3) [of env pid c']] by simp
  have d: "inbox (drop_peer_session pid c) = inbox c" for pid c
    by (simp add: drop_peer_session_def Let_def inbox_simps split: option.split)
  show ?thesis by (auto simp: handle_peer_disconnected_def Let_def inbox_simps d dest: k split: option.split prod.split)
qed

text \<open>A delivery from the session \<open>i\<close>.\<close>

definition delivers :: "env \<Rightarrow> coordinator \<Rightarrow> coordinator \<Rightarrow> string \<Rightarrow> nat \<Rightarrow> bool" where
  "delivers env c c' k i \<longleftrightarrow> (\<exists>ct plaintext.
     is_established (co_heap c ! i) \<and> snd (session_decrypt (en_lib env) ct (co_heap c ! i)) = Inr plaintext \<and>
     inbox c' = inbox c @ [Got_Message k (decode_chat_payload env plaintext) True])"

lemma inbox_deliver:
  "inbox (deliver_encrypted env k i p c) = inbox c \<or> delivers env c (deliver_encrypted env k i p c) k i"
proof (cases "is_established (co_heap c ! i) \<and> (\<exists>s plaintext. session_decrypt (en_lib env) (payload p) (co_heap c ! i) = (s, Inr plaintext))")
  case True
  then obtain s plaintext where d: "is_established (co_heap c ! i)"
    "session_decrypt (en_lib env) (payload p) (co_heap c ! i) = (s, Inr plaintext)" by blast
  have "inbox (deliver_encrypted env k i p c) = inbox c @ [Got_Message k (decode_chat_payload env plaintext) True]"
    using d by (simp add: deliver_encrypted_def inbox_def notify_def put_session_def)
  with d show ?thesis unfolding delivers_def by (metis snd_conv)
next
  case False
  then show ?thesis by (auto simp: deliver_encrypted_def inbox_simps split: prod.split sum.split)
qed

text \<open>Which step may deliver: a message that arrives for an established session, or one that waited for it.\<close>

lemma inbox_process:
  "inbox (process_packet_async env p a c) = inbox c \<or>
   (\<exists>i. dict_get (co_sessions c) (sender_id_hex p) = Some i \<and> delivers env c (process_packet_async env p a c) (sender_id_hex p) i)"
proof -
  let ?c = "learn_sender env p a c"
  note f = core_fields [OF core_peers(4) [of env p a c]]
  have "inbox (dispatch_packet env p ?c) = inbox ?c \<or>
    (\<exists>i. dict_get (co_sessions ?c) (sender_id_hex p) = Some i \<and> delivers env ?c (dispatch_packet env p ?c) (sender_id_hex p) i)"
  proof (cases "message_type p = NoiseEncrypted \<and> dict_has (co_sessions ?c) (sender_id_hex p)")
    case True
    then obtain i where "dict_get (co_sessions ?c) (sender_id_hex p) = Some i" by blast
    with True inbox_deliver [of env "sender_id_hex p" i p ?c] show ?thesis
      by (simp add: dispatch_packet_def on_encrypted_def inbox_simps)
  next
    case False
    then show ?thesis
      by (cases "message_type p") (simp_all add: dispatch_packet_def on_encrypted_def inbox_simps)
  qed
  then show ?thesis using f by (auto simp: process_packet_async_def delivers_def)
qed

lemma inbox_process_other: "message_type p \<noteq> NoiseEncrypted \<Longrightarrow> inbox (process_packet_async env p a c) = inbox c"
  by (cases "message_type p") (simp_all add: process_packet_async_def dispatch_packet_def inbox_simps)

lemma inbox_step:
  assumes "coordinator_ok c" "fst (coordinator_step (Some c) (env, ev)) = Some c'"
  shows "inbox c' = inbox c \<or> (\<exists>k i. dict_get (co_sessions c) k = Some i \<and> delivers env c c' k i)"
proof (cases ev)
  case (Run_Task n)
  show ?thesis
  proof (cases "n < length (co_tasks c)")
    case True
    let ?t = "co_tasks c ! n" and ?c = "take_task n c"
    have t: "task_ok (co_heap c) ?t" by (rule coordinator_okD(7) [OF assms(1) nth_mem [OF True]])
    have run: "run_task env ?t ?c = Some c'" using assms(2) True Run_Task by simp
    have eq: "co_sessions ?c = co_sessions c" "co_heap ?c = co_heap c" "inbox ?c = inbox c"
      by (simp_all add: take_task_def inbox_def)
    show ?thesis
    proof (cases ?t)
      case (Process p a)
      with run inbox_process [of env p a ?c] eq show ?thesis by (auto simp: delivers_def)
    next
      case (Await_Session k i p m)
      show ?thesis
      proof (cases "inbox c' = inbox c")
        case False
        with run Await_Session eq inbox_deliver [of env k i p ?c]
        have d: "delivers env ?c c' k i" by (auto simp: await_session_def inbox_simps split: if_splits)
        then have "alive (co_heap c ! i)" using eq by (auto simp: delivers_def is_established_def alive_def)
        with t Await_Session coordinator_okD(5) [OF assms(1)] have "dict_get (co_sessions c) k = Some i" by auto
        with d eq show ?thesis by (auto simp: delivers_def)
      qed simp
    qed (use run eq in \<open>auto simp: inbox_simps dest: core_relay [THEN inbox_core]\<close>)
  next
    case False
    with assms(2) Run_Task show ?thesis by simp
  qed
next
  case (Fail_Task n)
  with assms(2) show ?thesis
    by (cases "co_tasks c ! n") (auto simp: inbox_simps split: if_splits dest: core_relay [THEN inbox_core])
next
  case (Packet_Arrives p a)
  with assms(2) show ?thesis by (auto dest: core_incoming [THEN inbox_core])
next
  case (Server_Data raw client)
  with assms(2) show ?thesis by (auto dest: core_server_data [THEN inbox_core])
qed (use assms(2) in \<open>auto simp: inbox_simps\<close>)

lemma run_Cons: "fst (run f s (e # es)) = fst (run f (fst (f s e)) es)"
  by (simp split: prod.split)

text \<open>
  The state of a coordinator: whatever packets, peers, timers, failures and task orders came
  before, the table and the timers refer to sessions of the right peer; each session satisfies the
  invariant of its own state and belongs to our identity; a timer belongs to the session in the
  table; a session that is neither failed nor closed is in the table; and waiting tasks refer to
  sessions of their peer.
\<close>
theorem coordinator_invariant:
  assumes "fst (run coordinator_step (Some (SessionCoordinator ident storage nick rt)) evs) = Some c"
  shows "coordinator_ok c"
  using coordinators.run_inv [of "Some (SessionCoordinator ident storage nick rt)" evs] coordinator_new_ok assms
  by (simp add: stable_def)

lemma coordinator_invariant_witness:
  "coordinator_ok (SessionCoordinator (sample_identity 1) None ''alice'' None)"
  by (rule coordinator_invariant [of _ _ _ _ "[]"]) simp

end
