(* ===== verification/Conversation.thy ===== *)
theory Conversation
  imports Coordinator_Props
begin

text \<open>
  Two coordinators that talk to each other: the first private message opens a session, waits for
  it, and arrives. One lemma per step says what a handler does to a coordinator with one peer.
\<close>

subsection \<open>What the parts of a handler leave alone\<close>

fun sent_packet :: "transmission \<Rightarrow> packet" where
  "sent_packet (To_Peer a p) = p"
| "sent_packet (To_All p x) = p"

lemma route_address_shape: "\<exists>r. fst (route_address env k c) = c\<lparr>co_router := r\<rparr>"
proof -
  have "\<exists>r. c = c\<lparr>co_router := r\<rparr>" by (rule exI [of _ "co_router c"]) simp
  then show ?thesis by (auto simp: route_address_def split: option.split prod.split)
qed

lemma send_packet_shape:
  obtains r t where "send_packet_to env k p c = c\<lparr>co_router := r, co_sent := co_sent c @ [t]\<rparr>" "sent_packet t = p"
proof -
  let ?c = "record_sent (en_now env) p c"
  obtain c2 a where z: "(if k = [] then (?c, None) else route_address env k ?c) = (c2, a)" by fastforce
  have "\<exists>r. c2 = ?c\<lparr>co_router := r\<rparr>"
  proof (cases "k = []")
    case True
    with z have "c2 = ?c\<lparr>co_router := co_router ?c\<rparr>" by simp
    then show ?thesis by blast
  next
    case False
    with z have "fst (route_address env k ?c) = c2" by simp
    with route_address_shape [of env k ?c] show ?thesis by simp
  qed
  then obtain r where "c2 = c\<lparr>co_router := r\<rparr>" by (auto simp: record_sent_def)
  then have "send_packet_to env k p c = c\<lparr>co_router := r, co_sent := co_sent c @ [case a of Some x \<Rightarrow> To_Peer x p | None \<Rightarrow> To_All p None]\<rparr>"
    using z by (simp add: send_packet_to_def Let_def transmit_def split: option.split)
  then show thesis by (rule that) (simp split: option.split)
qed

lemma learn_sender_shape:
  obtains r d e where "learn_sender env p a c = c\<lparr>co_router := r, co_address_to_peer := d, co_peer_addresses := e\<rparr>"
proof -
  have "\<exists>r d e. learn_sender env p a c = c\<lparr>co_router := r, co_address_to_peer := d, co_peer_addresses := e\<rparr>"
  proof (cases "truthy a")
    case None
    then have "learn_sender env p a c = c\<lparr>co_router := co_router c, co_address_to_peer := co_address_to_peer c,
        co_peer_addresses := co_peer_addresses c\<rparr>" by (simp add: learn_sender_def)
    then show ?thesis by blast
  next
    case (Some x)
    have same: "c = c\<lparr>co_address_to_peer := co_address_to_peer c, co_peer_addresses := co_peer_addresses c\<rparr>" for c :: coordinator by simp
    define c1 where "c1 = (if sender_id_hex p = x \<or> ttl p \<ge> MAX_TTL
                    then let c0 = c\<lparr>co_address_to_peer := dict_set x (sender_id_hex p) (co_address_to_peer c)\<rparr> in
                      if x \<in> set (en_inbound env) then c0
                      else c0\<lparr>co_peer_addresses := dict_set (sender_id_hex p) x (co_peer_addresses c0)\<rparr>
                    else c)"
    have "\<exists>d e. c1 = c\<lparr>co_address_to_peer := d, co_peer_addresses := e\<rparr>"
      unfolding c1_def Let_def by (cases c) auto
    then obtain d e where c1: "c1 = c\<lparr>co_address_to_peer := d, co_peer_addresses := e\<rparr>" by blast
    have "\<exists>r. learn_sender env p a c = c1\<lparr>co_router := r\<rparr>"
      unfolding learn_sender_def Some option.case Let_def [where s = "sender_id_hex p"] c1_def [symmetric] by (auto simp: Let_def)
    then obtain r where "learn_sender env p a c = c1\<lparr>co_router := r\<rparr>" by blast
    with c1 have "learn_sender env p a c = c\<lparr>co_router := r, co_address_to_peer := d, co_peer_addresses := e\<rparr>"
      by (cases c) simp
    then show ?thesis by blast
  qed
  with that show thesis by blast
qed

text \<open>A packet of our own that fits.\<close>

definition own :: "env \<Rightarrow> MessageType \<Rightarrow> bytes \<Rightarrow> bytes \<Rightarrow> bytes \<Rightarrow> packet" where
  "own env mt me r pl = \<lparr>version = 1, message_type = mt, ttl = 7, timestamp = en_stamp env, flags = 1, sender_id = me,
     recipient_id = Some r, payload = pl, signature = None\<rparr>"

definition fits :: "env \<Rightarrow> bytes \<Rightarrow> bytes \<Rightarrow> bool" where
  "fits env me r \<longleftrightarrow> 0 \<le> en_stamp env \<and> en_stamp env < 2 ^ 64 \<and> length me = 8 \<and> length r = 8"

lemma own_packet_fits:
  assumes "fits env (id_peer_id (co_identity c)) r" "length pl \<le> 65535"
  shows "own_packet env mt (Some r) pl c = Inr (own env mt (id_peer_id (co_identity c)) r pl)"
  using assms
  by (simp add: own_packet_def create_default_def BitchatPacket_create_def own_def fits_def BitchatPacket_eq valid_packet_def
      has_recipient_def has_signature_def Let_def)

lemma send_own_fits:
  assumes "fits env (id_peer_id (co_identity c)) r" "length pl \<le> 65535"
  obtains rt t where "send_own env (bytes_hex r) mt pl c = (c\<lparr>co_router := rt, co_sent := co_sent c @ [t]\<rparr>, Inr ())"
    "sent_packet t = own env mt (id_peer_id (co_identity c)) r pl"
proof -
  obtain rt t where "send_packet_to env (bytes_hex r) (own env mt (id_peer_id (co_identity c)) r pl) c =
      c\<lparr>co_router := rt, co_sent := co_sent c @ [t]\<rparr>" "sent_packet t = own env mt (id_peer_id (co_identity c)) r pl"
    by (rule send_packet_shape)
  then show thesis by (intro that) (simp_all add: send_own_def own_packet_fits [OF assms])
qed


subsection \<open>A coordinator that talks to one peer\<close>

definition talks :: "coordinator \<Rightarrow> identity \<Rightarrow> files option \<Rightarrow> string \<Rightarrow> session \<Rightarrow> string list option \<Rightarrow> task list \<Rightarrow> bool" where
  "talks c me st k s pd ts \<longleftrightarrow> co_identity c = me \<and> co_storage c = st \<and> co_heap c = [s] \<and> co_sessions c = [(k, 0)] \<and>
     co_pending c = (case pd of None \<Rightarrow> [] | Some xs \<Rightarrow> [(k, xs)]) \<and> co_tasks c = ts"

definition idle :: "coordinator \<Rightarrow> identity \<Rightarrow> files option \<Rightarrow> bool" where
  "idle c me st \<longleftrightarrow> co_identity c = me \<and> co_storage c = st \<and> co_heap c = [] \<and> co_sessions c = [] \<and> co_pending c = [] \<and> co_tasks c = []"

text \<open>One more packet was sent.\<close>

definition sends :: "coordinator \<Rightarrow> coordinator \<Rightarrow> packet \<Rightarrow> bool" where
  "sends c c' p \<longleftrightarrow> map sent_packet (co_sent c') = map sent_packet (co_sent c) @ [p]"

lemma own_fields [simp]: "sender_id_hex (own env mt me r pl) = bytes_hex me" "payload (own env mt me r pl) = pl"
  "message_type (own env mt me r pl) = mt" "sender_id (own env mt me r pl) = me"
  by (simp_all add: own_def sender_id_hex_def)

lemma talks_learn:
  "talks (learn_sender env p a c) me st k s pd ts \<longleftrightarrow> talks c me st k s pd ts"
  "idle (learn_sender env p a c) me st \<longleftrightarrow> idle c me st" "co_sent (learn_sender env p a c) = co_sent c"
  "co_identity (learn_sender env p a c) = co_identity c"
  by (cases rule: learn_sender_shape [of env p a c]; simp add: talks_def idle_def)+

lemma talks_timer: "talks (schedule_handshake_timeout k' i c) me st k s pd ts \<longleftrightarrow> talks c me st k s pd ts"
  "talks (cancel_handshake_timeout k' c) me st k s pd ts \<longleftrightarrow> talks c me st k s pd ts"
  "co_sent (schedule_handshake_timeout k' i c) = co_sent c" "co_sent (cancel_handshake_timeout k' c) = co_sent c"
  "co_identity (schedule_handshake_timeout k' i c) = co_identity c"
  by (simp_all add: talks_def schedule_handshake_timeout_def cancel_handshake_timeout_def)

lemma talks_put: "talks c me st k s pd ts \<Longrightarrow> talks (put_session 0 s' c) me st k s' pd ts" "co_sent (put_session i s' c) = co_sent c"
  by (simp_all add: talks_def put_session_def)

lemma own_length: "length (id_peer_id me) = 8 \<Longrightarrow> fits env (id_peer_id me) r \<longleftrightarrow> 0 \<le> en_stamp env \<and> en_stamp env < 2 ^ 64 \<and> length r = 8"
  by (auto simp: fits_def)

text \<open>Opening a handshake, and answering one.\<close>

lemma tell_opens:
  assumes "idle c me st" "NoiseSession me (bytes_hex r) None = Inr S" "se_role S = INITIATOR"
    and "start_handshake (en_lib env) (en_fresh env) S = (s1, Inr (Some m1))" "length m1 \<le> 65535"
    and "fits env (id_peer_id me) r" "py_lower (py_strip (bytes_hex r)) \<noteq> py_lower (peer_id_hex me)"
    and "length (py_utf8 txt) \<le> MAX_MESSAGE_SIZE"
  obtains c' where "send_direct_message env (bytes_hex r) txt c = (c', Inr ())"
    "talks c' me st (bytes_hex r) s1 (Some [txt]) []" "sends c c' (own env NoiseHandshakeInit (id_peer_id me) r m1)"
proof -
  let ?k = "bytes_hex r"
  let ?c1 = "c\<lparr>co_heap := co_heap c @ [S], co_sessions := dict_set ?k (length (co_heap c)) (co_sessions c)\<rparr>"
  let ?c2 = "queue_text ?k txt ?c1"
  let ?c3 = "schedule_handshake_timeout ?k 0 (put_session 0 s1 ?c2)"
  have goc: "get_or_create_session ?k c = (?c1, Inr 0)"
    using assms(1,2,7) by (simp add: get_or_create_session_def idle_def)
  have S: "se_state S = UNINITIALIZED" using new_session(1) [OF assms(2)] .
  have t2: "talks ?c2 me st ?k S (Some [txt]) []" using assms(1) by (simp add: talks_def idle_def queue_text_def)
  then have t3: "talks ?c3 me st ?k s1 (Some [txt]) []" by (simp add: talks_timer talks_put)
  then have me: "id_peer_id (co_identity ?c3) = id_peer_id me" by (simp add: talks_def)
  obtain rt t where sent: "send_own env ?k NoiseHandshakeInit m1 ?c3 = (?c3\<lparr>co_router := rt, co_sent := co_sent ?c3 @ [t]\<rparr>, Inr ())"
    "sent_packet t = own env NoiseHandshakeInit (id_peer_id me) r m1"
    by (rule send_own_fits [of env ?c3 r m1 NoiseHandshakeInit]) (use assms(5,6) me in auto)
  have h: "co_heap ?c2 ! 0 = S" "co_heap ?c1 ! 0 = S" using t2 assms(1) by (simp_all add: talks_def idle_def)
  have "send_direct_message env ?k txt c = open_handshake env ?k 0 ?c2"
    using assms(8) goc S h by (simp add: send_direct_message_def is_established_def Let_def)
  also have "\<dots> = send_own env ?k NoiseHandshakeInit m1 ?c3"
    unfolding open_handshake_def h using assms(3,4) by simp
  finally have "send_direct_message env ?k txt c = (?c3\<lparr>co_router := rt, co_sent := co_sent ?c3 @ [t]\<rparr>, Inr ())" using sent by simp
  moreover have "co_sent ?c3 = co_sent c" by (simp add: talks_timer talks_put queue_text_def)
  moreover have "talks (?c3\<lparr>co_router := rt, co_sent := co_sent ?c3 @ [t]\<rparr>) me st ?k s1 (Some [txt]) []"
    using t3 by (simp add: talks_def)
  ultimately show thesis using sent(2) me by (intro that) (auto simp: sends_def)
qed

lemma advance_reply:
  assumes "talks c me st k s pd ts" "sender_id_hex p = k"
    and "process_handshake_message (en_lib env) (en_fresh env) (payload p) s = (s', Inr (Some m))" "length m \<le> 65535"
    and "fits env (id_peer_id me) (sender_id p)"
  shows "talks (advance_handshake env p 0 c) me st k s' pd (ts @ [After_Reply k 0])"
    "sends c (advance_handshake env p 0 c) (own env NoiseHandshakeResp (id_peer_id me) (sender_id p) m)"
proof -
  let ?c1 = "put_session 0 s' c"
  let ?c2 = "if se_state s' = HANDSHAKING then schedule_handshake_timeout k 0 ?c1 else ?c1"
  let ?q = "own env NoiseHandshakeResp (id_peer_id me) (sender_id p) m"
  have t: "talks ?c2 me st k s' pd ts" using talks_put(1) [OF assms(1)] by (simp add: talks_timer)
  then have "id_peer_id (co_identity ?c2) = id_peer_id me" by (simp add: talks_def)
  then have q: "own_packet env NoiseHandshakeResp (Some (sender_id p)) m ?c2 = Inr ?q" using own_packet_fits assms(4,5) by metis
  obtain r x where sent: "send_packet_to env k ?q ?c2 = ?c2\<lparr>co_router := r, co_sent := co_sent ?c2 @ [x]\<rparr>" "sent_packet x = ?q"
    by (rule send_packet_shape)
  have h: "co_heap c ! 0 = s" using assms(1) by (simp add: talks_def)
  have "advance_handshake env p 0 c = spawn (After_Reply k 0) (send_packet_to env k ?q ?c2)"
    unfolding advance_handshake_def h Let_def assms(2,3) prod.case sum.case option.case q ..
  moreover have "co_sent ?c2 = co_sent c" by (simp add: talks_timer talks_put)
  ultimately show "talks (advance_handshake env p 0 c) me st k s' pd (ts @ [After_Reply k 0])"
    "sends c (advance_handshake env p 0 c) ?q"
    using t sent by (auto simp: talks_def spawn_def sends_def)
qed


text \<open>The end of a handshake, with a contact that is accepted.\<close>

lemma check_contact_shape:
  obtains st' where "fst (check_contact k f c) = c\<lparr>co_storage := st'\<rparr>"
proof -
  have "\<exists>x. c = c\<lparr>co_storage := x\<rparr>" by (rule exI [of _ "co_storage c"]) simp
  then have "\<exists>st'. fst (check_contact k f c) = c\<lparr>co_storage := st'\<rparr>"
    by (auto simp: check_contact_def split: option.split sum.split prod.split bool.split)
  with that show thesis by blast
qed

lemma check_contact_storage: "co_storage c = co_storage c' \<Longrightarrow> snd (check_contact k f c) = snd (check_contact k f c')"
  by (simp add: check_contact_def split: option.split sum.split prod.split bool.split)

lemma established_accepts:
  assumes "talks c me st k s pd ts" "se_remote_fingerprint s = Some f" "snd (check_contact k f c)"
  obtains st' where "talks (on_handshake_established k 0 c) me st' k s None
      (ts @ map (Send_Direct k) (case pd of Some xs \<Rightarrow> xs | None \<Rightarrow> []))"
    "co_sent (on_handshake_established k 0 c) = co_sent c"
proof -
  let ?c1 = "cancel_handshake_timeout k c"
  obtain c2 b where c2: "check_contact k f ?c1 = (c2, b)" by fastforce
  have "snd (check_contact k f ?c1) = snd (check_contact k f c)"
    by (rule check_contact_storage) (simp add: cancel_handshake_timeout_def)
  with assms(3) c2 have b: "b" by simp
  obtain st' where "c2 = ?c1\<lparr>co_storage := st'\<rparr>" using c2 by (metis check_contact_shape fst_conv)
  then have t2: "talks (notify n c2) me st' k s pd ts" "co_sent (notify n c2) = co_sent c" for n
    using assms(1) by (simp_all add: talks_def notify_def cancel_handshake_timeout_def)
  have fp: "se_remote_fingerprint (co_heap ?c1 ! 0) = Some f"
    using assms(1,2) by (simp add: talks_def cancel_handshake_timeout_def)
  have "on_handshake_established k 0 c = spawn_all (map (Send_Direct k) (case pd of Some xs \<Rightarrow> xs | None \<Rightarrow> []))
      (notify (Handshake_Completed k f) c2\<lparr>co_pending := dict_pop k (co_pending (notify (Handshake_Completed k f) c2))\<rparr>)"
    using t2(1) b c2 fp by (simp add: on_handshake_established_def talks_def Let_def split: option.split)
  with t2 show thesis by (intro that [of st']) (simp_all add: talks_def spawn_all_def split: option.split)
qed

text \<open>Sending and receiving over an established session.\<close>

lemma talks_send:
  assumes "talks c me st (bytes_hex r) s pd ts" "se_state s = ESTABLISHED" "session_encrypt (en_lib env) (py_utf8 txt) s = (s', Inr ct)"
    and "length ct \<le> 65535" "fits env (id_peer_id me) r" "py_lower (py_strip (bytes_hex r)) \<noteq> py_lower (peer_id_hex me)"
    and "length (py_utf8 txt) \<le> MAX_MESSAGE_SIZE"
  obtains c' where "send_direct_message env (bytes_hex r) txt c = (c', Inr ())" "talks c' me st (bytes_hex r) s' pd ts"
    "sends c c' (own env NoiseEncrypted (id_peer_id me) r ct)"
proof -
  let ?k = "bytes_hex r" and ?c1 = "put_session 0 s' c"
  have t1: "talks ?c1 me st ?k s' pd ts" by (rule talks_put(1) [OF assms(1)])
  have me: "co_identity ?c1 = me" "co_identity c = me" "co_heap c ! 0 = s" "dict_get (co_sessions c) ?k = Some 0"
    using t1 assms(1) by (simp_all add: talks_def)
  obtain rt t where sent: "send_own env ?k NoiseEncrypted ct ?c1 = (?c1\<lparr>co_router := rt, co_sent := co_sent ?c1 @ [t]\<rparr>, Inr ())"
    "sent_packet t = own env NoiseEncrypted (id_peer_id me) r ct"
    using send_own_fits [of env ?c1 r ct NoiseEncrypted] assms(4,5) me(1) by metis
  have "get_or_create_session ?k c = (c, Inr 0)" using assms(6) me by (simp add: get_or_create_session_def)
  then have "send_direct_message env ?k txt c = send_own env ?k NoiseEncrypted ct ?c1"
    using assms(2,3,7) me by (simp add: send_direct_message_def is_established_def)
  moreover have "talks (?c1\<lparr>co_router := rt, co_sent := co_sent ?c1 @ [t]\<rparr>) me st ?k s' pd ts" using t1 by (simp add: talks_def)
  ultimately show thesis using sent by (intro that) (auto simp: sends_def talks_put)
qed

lemma talks_deliver:
  assumes "talks c me st k s pd ts" "se_state s = ESTABLISHED" "session_decrypt (en_lib env) (payload p) s = (s', Inr pl)"
  shows "talks (deliver_encrypted env k 0 p c) me st k s' pd ts"
    "inbox (deliver_encrypted env k 0 p c) = inbox c @ [Got_Message k (decode_chat_payload env pl) True]"
  using assms by (simp_all add: talks_def deliver_encrypted_def is_established_def put_session_def notify_def inbox_def)


lemma sealed_message:
  assumes "chacha_ok lib" "se_state a = ESTABLISHED" "se_state b = ESTABLISHED" "length k = 32"
    and "se_send_cipher a = Some (NoiseCipherState (Some k) True)" "se_recv_cipher b = se_send_cipher a" "length p < 2 ^ 31"
  obtains a' b' ct where "session_encrypt lib p a = (a', Inr ct)" "session_decrypt lib ct b = (b', Inr p)" "length ct = length p + 20"
proof -
  let ?c = "NoiseCipherState (Some k) True"
  have c: "cs_key ?c = Some k" "cs_extracted ?c" "cs_nonce ?c = 0" "window_ok ?c" "spent_counters ?c = {}"
    by (simp_all, simp_all add: NoiseCipherState_def spent_counters_def NOISE_REPLAY_WINDOW_SIZE_def)
  obtain ct where ct: "cipher_encrypt lib p [] ?c = (?c\<lparr>cs_nonce := Suc (cs_nonce ?c)\<rparr>, Inr (take 4 (le_bytes 8 (int (cs_nonce ?c))) @ ct))"
    "lib_chacha_decrypt lib k (counter_nonce (cs_nonce ?c)) ct [] = Inr p" "length ct = length p + 16"
    by (rule encrypt_transport [of lib ?c k p "[]"]) (use assms c in \<open>auto simp: chacha_ok_def\<close>)
  let ?w = "take 4 (le_bytes 8 (int (cs_nonce ?c))) @ ct"
  have w: "wire_counter ?w = 0" "drop 4 ?w = ct" "length ?w = length p + 20" using ct(3) c(3) wire_counter_of [of 0 ct] by simp_all
  obtain d where "cipher_decrypt lib ?w [] ?c = (d, Inr p)"
    using decrypt_transport [OF c(1,2,4), of lib ?w "[]"] w ct(2) c(3,5) by auto
  with ct(1) w(3) assms show thesis by (intro that) (auto simp: session_encrypt_def session_decrypt_def)
qed


text \<open>What the event loop does with a packet for a coordinator that talks to its sender, or to nobody yet.\<close>

lemma init_arrives:
  assumes "idle c me st" "NoiseSession me (bytes_hex q) None = Inr S" "q \<noteq> id_peer_id me"
    and "process_handshake_message (en_lib env) (en_fresh env) m1 S = (s', Inr (Some m))" "length m \<le> 65535"
    and "fits env (id_peer_id me) q"
  shows "talks (process_packet_async env (own e NoiseHandshakeInit q r m1) adr c) me st (bytes_hex q) s' None [After_Reply (bytes_hex q) 0]"
    "sends c (process_packet_async env (own e NoiseHandshakeInit q r m1) adr c) (own env NoiseHandshakeResp (id_peer_id me) q m)"
proof -
  let ?p = "own e NoiseHandshakeInit q r m1" and ?k = "bytes_hex q"
  let ?c0 = "learn_sender env ?p adr c"
  let ?c1 = "?c0\<lparr>co_heap := co_heap ?c0 @ [S], co_sessions := dict_set ?k (length (co_heap ?c0)) (co_sessions ?c0)\<rparr>"
  have i0: "idle ?c0 me st" using assms(1) by (simp add: talks_learn)
  then have me: "co_identity ?c0 = me" "co_identity c = me" "co_heap ?c0 = []" "co_sessions ?c0 = []"
    using assms(1) by (simp_all add: idle_def)
  have "\<not> handshake_refused ?k ?c0"
    by (simp add: handshake_refused_def pending_handshakes_count_def me MAX_PENDING_HANDSHAKES_def)
  moreover have "get_or_create_session ?k ?c0 = (?c1, Inr 0)"
    using assms(2,3) by (simp add: get_or_create_session_def me peer_id_hex_def)
  ultimately have eq: "process_packet_async env ?p adr c = advance_handshake env ?p 0 ?c1"
    using assms(3) by (simp add: process_packet_async_def me peer_id_hex_def dispatch_packet_def on_handshake_init_def)
  have t1: "talks ?c1 me st ?k S None []" using i0 by (simp add: talks_def idle_def)
  have pm: "process_handshake_message (en_lib env) (en_fresh env) (payload ?p) S = (s', Inr (Some m))" using assms(4) by simp
  have f: "fits env (id_peer_id me) (sender_id ?p)" using assms(6) by simp
  note r = advance_reply [OF t1 own_fields(1) pm assms(5) f]
  show "talks (process_packet_async env ?p adr c) me st ?k s' None [After_Reply ?k 0]" using r(1) eq by simp
  show "sends c (process_packet_async env ?p adr c) (own env NoiseHandshakeResp (id_peer_id me) q m)"
    using r(2) eq by (simp add: sends_def talks_learn)
qed

lemma talks_process:
  assumes "talks c me st (bytes_hex q) s pd ts" "q \<noteq> id_peer_id me"
  shows "process_packet_async env (own e NoiseHandshakeResp q r m) adr c =
      advance_handshake env (own e NoiseHandshakeResp q r m) 0 (learn_sender env (own e NoiseHandshakeResp q r m) adr c)"
    "se_state s = ESTABLISHED \<Longrightarrow> process_packet_async env (own e NoiseEncrypted q r m) adr c =
      deliver_encrypted env (bytes_hex q) 0 (own e NoiseEncrypted q r m) (learn_sender env (own e NoiseEncrypted q r m) adr c)"
proof -
  have "talks (learn_sender env p adr c) me st (bytes_hex q) s pd ts" for p using assms(1) by (simp add: talks_learn)
  then have t: "dict_get (co_sessions (learn_sender env p adr c)) (bytes_hex q) = Some 0"
    "co_heap (learn_sender env p adr c) ! 0 = s" for p by (simp_all add: talks_def)
  have me: "co_identity c = me" using assms(1) by (simp add: talks_def)
  show "process_packet_async env (own e NoiseHandshakeResp q r m) adr c =
      advance_handshake env (own e NoiseHandshakeResp q r m) 0 (learn_sender env (own e NoiseHandshakeResp q r m) adr c)"
    using t(1) assms(2) by (simp add: process_packet_async_def me peer_id_hex_def dispatch_packet_def on_handshake_resp_def)
  assume "se_state s = ESTABLISHED"
  then show "process_packet_async env (own e NoiseEncrypted q r m) adr c =
      deliver_encrypted env (bytes_hex q) 0 (own e NoiseEncrypted q r m) (learn_sender env (own e NoiseEncrypted q r m) adr c)"
    using t assms(2) by (simp add: process_packet_async_def me peer_id_hex_def dispatch_packet_def on_encrypted_def is_established_def)
qed

text \<open>The last message of a handshake needs no answer, so the contact is checked at once.\<close>

lemma advance_last:
  assumes "talks c me st k s pd ts" "sender_id_hex p = k" "snd (check_contact k f c)"
    and "process_handshake_message (en_lib env) (en_fresh env) (payload p) s = (s', Inr None)"
    and "se_state s' = ESTABLISHED" "se_remote_fingerprint s' = Some f"
  obtains st' where "talks (advance_handshake env p 0 c) me st' k s' None (ts @ map (Send_Direct k) (case pd of Some xs \<Rightarrow> xs | None \<Rightarrow> []))"
    "co_sent (advance_handshake env p 0 c) = co_sent c"
proof -
  let ?c1 = "put_session 0 s' c"
  have t1: "talks ?c1 me st k s' pd ts" by (rule talks_put(1) [OF assms(1)])
  have "snd (check_contact k f ?c1)" using assms(3) check_contact_storage [of ?c1 c] by (simp add: put_session_def)
  then obtain st' where e: "talks (on_handshake_established k 0 ?c1) me st' k s' None (ts @ map (Send_Direct k) (case pd of Some xs \<Rightarrow> xs | None \<Rightarrow> []))"
    "co_sent (on_handshake_established k 0 ?c1) = co_sent ?c1" using established_accepts [OF t1 assms(6)] by blast
  have h: "co_heap c ! 0 = s" "co_heap ?c1 ! 0 = s'" using assms(1) t1 by (simp_all add: talks_def)
  have "advance_handshake env p 0 c = on_handshake_established k 0 ?c1"
    using assms(5) h unfolding advance_handshake_def h(1) Let_def assms(2,4) by (simp add: after_reply_def is_established_def)
  with e that show thesis by (simp add: talks_put)
qed


lemma reply_arrives:
  assumes "talks c me st (bytes_hex q) s pd ts" "q \<noteq> id_peer_id me" "fits env (id_peer_id me) q"
    and "process_handshake_message (en_lib env) (en_fresh env) m s = (s', Inr (Some m'))" "length m' \<le> 65535"
  shows "talks (process_packet_async env (own e NoiseHandshakeResp q r m) adr c) me st (bytes_hex q) s' pd (ts @ [After_Reply (bytes_hex q) 0])"
    "sends c (process_packet_async env (own e NoiseHandshakeResp q r m) adr c) (own env NoiseHandshakeResp (id_peer_id me) q m')"
proof -
  let ?p = "own e NoiseHandshakeResp q r m"
  have t: "talks (learn_sender env ?p adr c) me st (bytes_hex q) s pd ts" using assms(1) by (simp add: talks_learn)
  show "talks (process_packet_async env ?p adr c) me st (bytes_hex q) s' pd (ts @ [After_Reply (bytes_hex q) 0])"
    "sends c (process_packet_async env ?p adr c) (own env NoiseHandshakeResp (id_peer_id me) q m')"
    using advance_reply [OF t, of ?p env s' m'] talks_process(1) [OF assms(1,2)] assms(3-5) by (simp_all add: sends_def talks_learn)
qed

text \<open>The storage decides about a contact, whatever else happened to the coordinator.\<close>

lemma last_arrives:
  assumes "talks c me st (bytes_hex q) s None ts" "q \<noteq> id_peer_id me" "co_storage c0 = st" "snd (check_contact (bytes_hex q) f c0)"
    and "process_handshake_message (en_lib env) (en_fresh env) m s = (s', Inr None)"
    and "se_state s' = ESTABLISHED" "se_remote_fingerprint s' = Some f"
  obtains st' where "talks (process_packet_async env (own e NoiseHandshakeResp q r m) adr c) me st' (bytes_hex q) s' None ts"
proof -
  let ?p = "own e NoiseHandshakeResp q r m"
  have t: "talks (learn_sender env ?p adr c) me st (bytes_hex q) s None ts" using assms(1) by (simp add: talks_learn)
  then have "co_storage (learn_sender env ?p adr c) = co_storage c0" using assms(3) by (simp add: talks_def)
  then have ok: "snd (check_contact (bytes_hex q) f (learn_sender env ?p adr c))" using check_contact_storage assms(4) by metis
  have pm: "process_handshake_message (en_lib env) (en_fresh env) (payload ?p) s = (s', Inr None)" using assms(5) by simp
  obtain st' where "talks (advance_handshake env ?p 0 (learn_sender env ?p adr c)) me st' (bytes_hex q) s' None ts"
    by (rule advance_last [OF t own_fields(1) ok pm assms(6,7)]) simp
  with that show thesis using talks_process(1) [OF assms(1,2)] by simp
qed

lemma reply_sent:
  assumes "talks c me st k s (Some xs) [After_Reply k 0]" "co_storage c0 = st" "snd (check_contact k f c0)"
    and "se_state s = ESTABLISHED" "se_remote_fingerprint s = Some f"
  obtains c' st' where "run_task env (After_Reply k 0) (take_task 0 c) = Some c'" "talks c' me st' k s None (map (Send_Direct k) xs)"
proof -
  have t: "talks (take_task 0 c) me st k s (Some xs) []" using assms(1) by (simp add: talks_def take_task_def)
  then have "co_storage (take_task 0 c) = co_storage c0" using assms(2) by (simp add: talks_def)
  then have "snd (check_contact k f (take_task 0 c))" using check_contact_storage assms(3) by metis
  from established_accepts [OF t assms(5) this]
  obtain st' where e: "talks (on_handshake_established k 0 (take_task 0 c)) me st' k s None (map (Send_Direct k) xs)" by auto
  have "co_heap (take_task 0 c) ! 0 = s" using t by (simp add: talks_def)
  then show thesis using e assms(4) by (intro that) (simp_all add: after_reply_def is_established_def)
qed

lemma message_arrives:
  assumes "talks c me st (bytes_hex q) s pd ts" "q \<noteq> id_peer_id me" "se_state s = ESTABLISHED"
    and "session_decrypt (en_lib env) m s = (s', Inr pl)"
  shows "inbox (process_packet_async env (own e NoiseEncrypted q r m) adr c) =
    inbox c @ [Got_Message (bytes_hex q) (decode_chat_payload env pl) True]"
proof -
  let ?p = "own e NoiseEncrypted q r m"
  have t: "talks (learn_sender env ?p adr c) me st (bytes_hex q) s pd ts" using assms(1) by (simp add: talks_learn)
  have "inbox (learn_sender env ?p adr c) = inbox c" by (simp add: inbox_simps)
  with talks_deliver(2) [OF t assms(3), of env ?p s' pl] talks_process(2) [OF assms(1,2,3)] assms(4) show ?thesis by simp
qed

text \<open>What both ends have of the world in one step: the library, a fresh key, and a clock that fits a packet.\<close>

definition step_of :: "crypto_lib \<Rightarrow> bytes \<Rightarrow> env \<Rightarrow> bool" where
  "step_of lib fresh env \<longleftrightarrow> en_lib env = lib \<and> en_fresh env = fresh \<and> 0 \<le> en_stamp env \<and> en_stamp env < 2 ^ 64"

text \<open>The handshake of two coordinators that knew nobody, up to the third message.\<close>

lemma exchange:
  assumes lib: "x25519_laws lib" "chacha_ok lib"
    and ids: "identity_from_private_keys lib xa eda = Inr ia" "identity_from_private_keys lib xb edb = Inr ib"
      "id_x25519_public ia \<noteq> id_x25519_public ib" "determine_handshake_role (peer_id_hex ia) (peer_id_hex ib) = Inr INITIATOR"
    and keys: "key_pair lib ea EA" "key_pair lib eb EB" "key_pair lib xa (id_x25519_public ia)" "key_pair lib xb (id_x25519_public ib)"
    and dh: "diffie_hellman lib ea EB = Inr ee" "diffie_hellman lib ea (id_x25519_public ib) = Inr es" "diffie_hellman lib xa EB = Inr se"
    and ends: "idle A ia sa" "idle B ib sb"
    and steps: "step_of lib ea e1" "step_of lib eb e2" "step_of lib f3 e3"
    and msg: "length (py_utf8 txt) \<le> MAX_MESSAGE_SIZE"
  obtains a1 p1 p2 m3 s2 t1 t2 k1 where
    "send_direct_message e1 (peer_id_hex ib) txt A = (a1, Inr ())" "sends A a1 p1"
    "talks (process_packet_async e2 p1 adr B) ib sb (peer_id_hex ia) t1 None [After_Reply (peer_id_hex ia) 0]"
    "sends B (process_packet_async e2 p1 adr B) p2" "inbox (process_packet_async e2 p1 adr B) = inbox B"
    "talks (process_packet_async e3 p2 adr' a1) ia sa (peer_id_hex ib) s2 (Some [txt]) [After_Reply (peer_id_hex ib) 0]"
    "sends a1 (process_packet_async e3 p2 adr' a1) (own e3 NoiseHandshakeResp (id_peer_id ia) (id_peer_id ib) m3)"
    "process_handshake_message lib f5 m3 t1 = (t2, Inr None)" "se_state s2 = ESTABLISHED" "se_state t2 = ESTABLISHED"
    "se_remote_fingerprint s2 = Some (id_fingerprint ib)" "se_remote_fingerprint t2 = Some (id_fingerprint ia)"
    "se_send_cipher s2 = Some (NoiseCipherState (Some k1) True)" "se_recv_cipher t2 = se_send_cipher s2" "length k1 = 32"
    "id_peer_id ia \<noteq> id_peer_id ib" "length (id_peer_id ia) = 8" "length (id_peer_id ib) = 8"
proof -
  let ?ia = "id_peer_id ia" and ?ib = "id_peer_id ib"
  have h: "peer_id_hex ia = bytes_hex ?ia" "peer_id_hex ib = bytes_hex ?ib" by (simp_all add: peer_id_hex_def)
  have len: "length ?ia = 8" "length ?ib = 8" using identity_fields(4) [OF ids(1)] identity_fields(4) [OF ids(2)] by (simp_all add: h)
  have neq: "?ia \<noteq> ?ib" using ids(4) by (auto simp: h determine_handshake_role_def split: if_splits)
  have role: "determine_handshake_role (bytes_hex ?ib) (bytes_hex ?ia) = Inr RESPONDER"
    using ids(4) default_roles [of "bytes_hex ?ia" "bytes_hex ?ib"] neq len by (simp add: h flip: length_0_conv)
  obtain SA where SA: "NoiseSession ia (bytes_hex ?ib) None = Inr SA" "se_role SA = INITIATOR"
    using ids(4) by (simp add: NoiseSession_def h)
  obtain SB where SB: "NoiseSession ib (bytes_hex ?ia) None = Inr SB" "se_role SB = RESPONDER"
    using role by (simp add: NoiseSession_def h)
  from honest_run_sized [OF lib ids(1,2,3) SA(1) [folded h] SB(1) [folded h] SA(2) SB(2) keys dh, of f3 f5]
  obtain s1 m1 t1 m2 s2 m3 t2 k1 k2 where run: "start_handshake lib ea SA = (s1, Inr (Some m1))"
    "process_handshake_message lib eb m1 SB = (t1, Inr (Some m2))" "process_handshake_message lib f3 m2 s1 = (s2, Inr (Some m3))"
    "length m1 = 32" "length m2 = 96" "length m3 = 64"
    and fin: "process_handshake_message lib f5 m3 t1 = (t2, Inr None)" "se_state s2 = ESTABLISHED" "se_state t2 = ESTABLISHED"
    "se_remote_fingerprint s2 = Some (id_fingerprint ib)" "se_remote_fingerprint t2 = Some (id_fingerprint ia)"
    "se_send_cipher s2 = Some (NoiseCipherState (Some k1) True)" "se_recv_cipher t2 = se_send_cipher s2" "length k1 = 32" by blast
  have fits: "step_of lib f e \<Longrightarrow> fits e ?ia ?ib \<and> fits e ?ib ?ia" for f e using len by (simp add: step_of_def fits_def)
  note env = steps [unfolded step_of_def]
  have low: "py_lower (py_strip (bytes_hex ?ib)) \<noteq> py_lower (peer_id_hex ia)" using neq by (simp add: h)
  obtain a1 where a1: "send_direct_message e1 (bytes_hex ?ib) txt A = (a1, Inr ())" "talks a1 ia sa (bytes_hex ?ib) s1 (Some [txt]) []"
    "sends A a1 (own e1 NoiseHandshakeInit ?ia ?ib m1)"
    by (rule tell_opens [OF ends(1) SA _ _ _ low msg]) (use run(1,4) env(1) fits [OF steps(1)] in auto)
  let ?b1 = "process_packet_async e2 (own e1 NoiseHandshakeInit ?ia ?ib m1) adr B"
  have b1: "talks ?b1 ib sb (bytes_hex ?ia) t1 None [After_Reply (bytes_hex ?ia) 0]" "sends B ?b1 (own e2 NoiseHandshakeResp ?ib ?ia m2)"
    using init_arrives [OF ends(2) SB(1) neq, of e2 m1 t1 m2] run(2,5) env(2) fits [OF steps(2)] by auto
  let ?a2 = "process_packet_async e3 (own e2 NoiseHandshakeResp ?ib ?ia m2) adr' a1"
  have a2: "talks ?a2 ia sa (bytes_hex ?ib) s2 (Some [txt]) [After_Reply (bytes_hex ?ib) 0]" "sends a1 ?a2 (own e3 NoiseHandshakeResp ?ia ?ib m3)"
    using reply_arrives [OF a1(2) neq [symmetric], of e3 m2 s2 m3 e2 ?ia adr'] run(3,6) env(3) fits [OF steps(3)] by auto
  have "inbox ?b1 = inbox B" by (simp add: inbox_process_other)
  with that show thesis using a1(1,3) b1 a2 fin neq len unfolding h by blast
qed

text \<open>The whole conversation.\<close>

lemma conversation:
  assumes lib: "x25519_laws lib" "chacha_ok lib"
    and ids: "identity_from_private_keys lib xa eda = Inr ia" "identity_from_private_keys lib xb edb = Inr ib"
      "id_x25519_public ia \<noteq> id_x25519_public ib" "determine_handshake_role (peer_id_hex ia) (peer_id_hex ib) = Inr INITIATOR"
    and keys: "key_pair lib ea EA" "key_pair lib eb EB" "key_pair lib xa (id_x25519_public ia)" "key_pair lib xb (id_x25519_public ib)"
    and dh: "diffie_hellman lib ea EB = Inr ee" "diffie_hellman lib ea (id_x25519_public ib) = Inr es" "diffie_hellman lib xa EB = Inr se"
    and ends: "idle A ia sa" "idle B ib sb" "snd (check_contact (peer_id_hex ib) (id_fingerprint ib) A)"
      "snd (check_contact (peer_id_hex ia) (id_fingerprint ia) B)"
    and steps: "step_of lib ea e1" "step_of lib eb e2" "step_of lib f3 e3" "step_of lib f5 e5" "step_of lib f6 e6" "step_of lib f7 e7"
    and msg: "length (py_utf8 txt) \<le> MAX_MESSAGE_SIZE" "en_utf8 e7 (py_utf8 txt) = Some txt"
  shows "\<exists>a1 a2 a3 a4 p1 p2 p3 p4.
    send_direct_message e1 (peer_id_hex ib) txt A = (a1, Inr ()) \<and> sends A a1 p1 \<and>
    (let b1 = process_packet_async e2 p1 adr B in sends B b1 p2 \<and>
     a2 = process_packet_async e3 p2 adr' a1 \<and> sends a1 a2 p3 \<and> co_tasks a2 = [After_Reply (peer_id_hex ib) 0] \<and>
     run_task e4 (After_Reply (peer_id_hex ib) 0) (take_task 0 a2) = Some a3 \<and> co_tasks a3 = [Send_Direct (peer_id_hex ib) txt] \<and>
     run_task e6 (Send_Direct (peer_id_hex ib) txt) (take_task 0 a3) = Some a4 \<and> sends a3 a4 p4 \<and>
     inbox (process_packet_async e5 p3 adr b1) = inbox B \<and>
     inbox (process_packet_async e7 p4 adr (process_packet_async e5 p3 adr b1)) = inbox B @ [Got_Message (peer_id_hex ia) txt True])"
proof -
  let ?ia = "id_peer_id ia" and ?ib = "id_peer_id ib"
  have h: "peer_id_hex ia = bytes_hex ?ia" "peer_id_hex ib = bytes_hex ?ib" by (simp_all add: peer_id_hex_def)
  obtain a1 p1 p2 m3 s2 t1 t2 k1 where sent: "send_direct_message e1 (bytes_hex ?ib) txt A = (a1, Inr ())" "sends A a1 p1"
    and b1: "talks (process_packet_async e2 p1 adr B) ib sb (bytes_hex ?ia) t1 None [After_Reply (bytes_hex ?ia) 0]"
      "sends B (process_packet_async e2 p1 adr B) p2" "inbox (process_packet_async e2 p1 adr B) = inbox B"
    and a2: "talks (process_packet_async e3 p2 adr' a1) ia sa (bytes_hex ?ib) s2 (Some [txt]) [After_Reply (bytes_hex ?ib) 0]"
      "sends a1 (process_packet_async e3 p2 adr' a1) (own e3 NoiseHandshakeResp ?ia ?ib m3)"
    and fin: "process_handshake_message lib f5 m3 t1 = (t2, Inr None)" "se_state s2 = ESTABLISHED" "se_state t2 = ESTABLISHED"
      "se_remote_fingerprint s2 = Some (id_fingerprint ib)" "se_remote_fingerprint t2 = Some (id_fingerprint ia)"
      "se_send_cipher s2 = Some (NoiseCipherState (Some k1) True)" "se_recv_cipher t2 = se_send_cipher s2" "length k1 = 32"
    and neq: "?ia \<noteq> ?ib" "length ?ia = 8" "length ?ib = 8"
    by (rule exchange [OF lib ids keys dh ends(1,2) steps(1-3) msg(1), of adr adr' f5, unfolded h])
  note env = steps [unfolded step_of_def]
  let ?b1 = "process_packet_async e2 p1 adr B" and ?a2 = "process_packet_async e3 p2 adr' a1"
  let ?b2 = "process_packet_async e5 (own e3 NoiseHandshakeResp ?ia ?ib m3) adr ?b1"
  have st: "co_storage A = sa" "co_storage B = sb" using ends(1,2) by (simp_all add: idle_def)
  obtain a3 sa' where a3: "run_task e4 (After_Reply (bytes_hex ?ib) 0) (take_task 0 ?a2) = Some a3"
    "talks a3 ia sa' (bytes_hex ?ib) s2 None [Send_Direct (bytes_hex ?ib) txt]"
    by (rule reply_sent [OF a2(1) st(1) ends(3) [unfolded h] fin(2,4), of e4]) simp
  obtain s3 t3 ct where ct: "session_encrypt lib (py_utf8 txt) s2 = (s3, Inr ct)" "session_decrypt lib ct t2 = (t3, Inr (py_utf8 txt))"
    "length ct = length (py_utf8 txt) + 20"
    by (rule sealed_message [OF lib(2) fin(2,3,8,6,7), of "py_utf8 txt"]) (use msg(1) in \<open>simp add: MAX_MESSAGE_SIZE_def\<close>)
  have a3': "talks (take_task 0 a3) ia sa' (bytes_hex ?ib) s2 None []" using a3(2) by (simp add: talks_def take_task_def)
  obtain a4 where a4: "send_direct_message e6 (bytes_hex ?ib) txt (take_task 0 a3) = (a4, Inr ())"
    "sends (take_task 0 a3) a4 (own e6 NoiseEncrypted ?ia ?ib ct)"
    by (rule talks_send [OF a3' fin(2), of e6 "txt" s3 ct]) (use ct msg(1) env(5) neq in \<open>auto simp: MAX_MESSAGE_SIZE_def fits_def h\<close>)
  obtain sb' where b2: "talks ?b2 ib sb' (bytes_hex ?ia) t2 None [After_Reply (bytes_hex ?ia) 0]"
    by (rule last_arrives [OF b1(1) neq(1) st(2) ends(4) [unfolded h], of e5 m3 t2]) (use fin env(4) in auto)
  have "inbox (process_packet_async e7 (own e6 NoiseEncrypted ?ia ?ib ct) adr ?b2) = inbox ?b2 @ [Got_Message (bytes_hex ?ia) txt True]"
    using message_arrives [OF b2 neq(1) fin(3), of e7 ct t3 "py_utf8 txt" e6 ?ib adr] ct(2) env(6) msg(2) by (simp add: decode_chat_payload_def)
  moreover have "inbox ?b2 = inbox B" using b1(3) by (simp add: inbox_process_other)
  ultimately show ?thesis
    using sent b1(2) a2 a3 a4 by (intro exI [of _ a1] exI [of _ ?a2] exI [of _ a3] exI [of _ a4]) (auto simp: h talks_def sends_def take_task_def Let_def)
qed


subsection \<open>The samples talk\<close>

lemma sample_step: "step_of sample_lib (sample_key b) (sample_env b)"
  by (simp add: step_of_def sample_env_def)

lemma hi: "py_utf8 ''hi'' = [104, 105]" "(char_of (104 :: nat) :: char) = CHR ''h''" "(char_of (105 :: nat) :: char) = CHR ''i''"
  by code_simp+



subsection \<open>Trust on first use comes after the last message\<close>

lemma established_refuses:
  assumes "talks c me st k s pd ts" "se_remote_fingerprint s = Some f" "\<not> snd (check_contact k f c)"
  shows "dict_get (co_sessions (on_handshake_established k 0 c)) k = None"
proof -
  let ?c1 = "cancel_handshake_timeout k c"
  obtain c2 b where c2: "check_contact k f ?c1 = (c2, b)" by fastforce
  have "snd (check_contact k f ?c1) = snd (check_contact k f c)"
    by (rule check_contact_storage) (simp add: cancel_handshake_timeout_def)
  with assms(3) c2 have b: "\<not> b" by simp
  have t: "co_heap c2 = [s]" "co_sessions c2 = [(k, 0)]"
    using core_fields [OF check_contact_core [OF c2]] assms(1) by (simp_all add: talks_def session_core)
  have fp: "se_remote_fingerprint (co_heap ?c1 ! 0) = Some f" using assms(1,2) by (simp add: talks_def session_core)
  have "on_handshake_established k 0 c = discard_failed_session k 0 False (put_session 0 (s\<lparr>se_state := FAILED\<rparr>) c2)"
    using b c2 fp t by (simp add: on_handshake_established_def Let_def)
  then show ?thesis using t by (simp add: discard_failed_session_def Let_def put_session_def cancel_handshake_timeout_def)
qed

lemma talks_fires: "talks c me st k s pd ts \<Longrightarrow> se_state s = ESTABLISHED \<Longrightarrow> talks (timer_fires k c) me st k s pd ts"
  by (auto simp: timer_fires_def talks_timer split: option.split) (simp_all add: talks_def)

text \<open>
  C16. A reply that fails disarms trust on first use. The identity of a peer is stored with another
  fingerprint, so its handshake has to be refused, and it is, when the task that sent our last
  handshake message goes on. But when this sending raises, nothing refuses it: the session stays in
  the table, established; the handshake timer does not remove it; the text that waited stays
  unsent; and the next text is encrypted for the peer and sent to it.
\<close>
theorem failed_reply_skips_trust:
  assumes lib: "x25519_laws lib" "chacha_ok lib"
    and ids: "identity_from_private_keys lib xa eda = Inr ia" "identity_from_private_keys lib xb edb = Inr ib"
      "id_x25519_public ia \<noteq> id_x25519_public ib" "determine_handshake_role (peer_id_hex ia) (peer_id_hex ib) = Inr INITIATOR"
    and keys: "key_pair lib ea EA" "key_pair lib eb EB" "key_pair lib xa (id_x25519_public ia)" "key_pair lib xb (id_x25519_public ib)"
    and dh: "diffie_hellman lib ea EB = Inr ee" "diffie_hellman lib ea (id_x25519_public ib) = Inr es" "diffie_hellman lib xa EB = Inr se"
    and ends: "idle A ia sa" "idle B ib sb" "\<not> snd (check_contact (peer_id_hex ib) (id_fingerprint ib) A)"
    and steps: "step_of lib ea e1" "step_of lib eb e2" "step_of lib f3 e3" "step_of lib f6 e6"
    and msg: "length (py_utf8 txt) \<le> MAX_MESSAGE_SIZE" "length (py_utf8 txt') \<le> MAX_MESSAGE_SIZE"
  shows "\<exists>a1 a2 a3 a4 a5 p1 p2 p3 p4.
    send_direct_message e1 (peer_id_hex ib) txt A = (a1, Inr ()) \<and> sends A a1 p1 \<and>
    sends B (process_packet_async e2 p1 adr B) p2 \<and>
    a2 = process_packet_async e3 p2 adr' a1 \<and> sends a1 a2 p3 \<and> co_tasks a2 = [After_Reply (peer_id_hex ib) 0] \<and>
    fst (coordinator_step (Some a2) (e4, Run_Task 0)) = Some a3 \<and> dict_get (co_sessions a3) (peer_id_hex ib) = None \<and>
    fst (coordinator_step (Some a2) (e4, Fail_Task 0)) = Some a4 \<and>
    dict_get (co_pending (timer_fires (peer_id_hex ib) a4)) (peer_id_hex ib) = Some [txt] \<and> co_tasks a4 = [] \<and>
    send_direct_message e6 (peer_id_hex ib) txt' (timer_fires (peer_id_hex ib) a4) = (a5, Inr ()) \<and>
    sends (timer_fires (peer_id_hex ib) a4) a5 p4 \<and> message_type p4 = NoiseEncrypted"
proof -
  let ?ia = "id_peer_id ia" and ?ib = "id_peer_id ib"
  have h: "peer_id_hex ia = bytes_hex ?ia" "peer_id_hex ib = bytes_hex ?ib" by (simp_all add: peer_id_hex_def)
  obtain a1 p1 p2 m3 s2 t1 t2 k1 where sent: "send_direct_message e1 (bytes_hex ?ib) txt A = (a1, Inr ())" "sends A a1 p1"
    and b1: "talks (process_packet_async e2 p1 adr B) ib sb (bytes_hex ?ia) t1 None [After_Reply (bytes_hex ?ia) 0]"
      "sends B (process_packet_async e2 p1 adr B) p2" "inbox (process_packet_async e2 p1 adr B) = inbox B"
    and a2: "talks (process_packet_async e3 p2 adr' a1) ia sa (bytes_hex ?ib) s2 (Some [txt]) [After_Reply (bytes_hex ?ib) 0]"
      "sends a1 (process_packet_async e3 p2 adr' a1) (own e3 NoiseHandshakeResp ?ia ?ib m3)"
    and last: "process_handshake_message lib [] m3 t1 = (t2, Inr None)"
    and fin: "se_state s2 = ESTABLISHED" "se_state t2 = ESTABLISHED" "se_remote_fingerprint s2 = Some (id_fingerprint ib)"
      "se_remote_fingerprint t2 = Some (id_fingerprint ia)"
      "se_send_cipher s2 = Some (NoiseCipherState (Some k1) True)" "se_recv_cipher t2 = se_send_cipher s2" "length k1 = 32"
    and neq: "?ia \<noteq> ?ib" "length ?ia = 8" "length ?ib = 8"
    by (rule exchange [OF lib ids keys dh ends(1,2) steps(1-3) msg(1), of adr adr' "[]", unfolded h])
  let ?a2 = "process_packet_async e3 p2 adr' a1"
  have t: "talks (take_task 0 ?a2) ia sa (bytes_hex ?ib) s2 (Some [txt]) []" using a2(1) by (simp add: talks_def take_task_def)
  have "co_storage (take_task 0 ?a2) = co_storage A" using t ends(1) by (simp add: talks_def idle_def)
  then have "\<not> snd (check_contact (bytes_hex ?ib) (id_fingerprint ib) (take_task 0 ?a2))"
    using check_contact_storage ends(3) h by metis
  then have refused: "dict_get (co_sessions (on_handshake_established (bytes_hex ?ib) 0 (take_task 0 ?a2))) (bytes_hex ?ib) = None"
    by (rule established_refuses [OF t fin(3)])
  have r3: "fst (coordinator_step (Some ?a2) (e4, Run_Task 0)) = Some (on_handshake_established (bytes_hex ?ib) 0 (take_task 0 ?a2))"
    using a2(1) fin(1) by (simp add: after_reply_def is_established_def talks_def take_task_def)
  have r4: "fst (coordinator_step (Some ?a2) (e4, Fail_Task 0)) = Some (take_task 0 ?a2)" using a2(1) by (simp add: talks_def)
  have t4: "talks (timer_fires (bytes_hex ?ib) (take_task 0 ?a2)) ia sa (bytes_hex ?ib) s2 (Some [txt]) []" by (rule talks_fires [OF t fin(1)])
  obtain s3 t3 ct where ct: "session_encrypt lib (py_utf8 txt') s2 = (s3, Inr ct)" "length ct = length (py_utf8 txt') + 20"
    by (rule sealed_message [OF lib(2) fin(1,2,7,5,6), of "py_utf8 txt'"]) (use msg(2) in \<open>simp add: MAX_MESSAGE_SIZE_def\<close>)
  obtain a5 where "send_direct_message e6 (bytes_hex ?ib) txt' (timer_fires (bytes_hex ?ib) (take_task 0 ?a2)) = (a5, Inr ())"
    "sends (timer_fires (bytes_hex ?ib) (take_task 0 ?a2)) a5 (own e6 NoiseEncrypted ?ia ?ib ct)"
    by (rule talks_send [OF t4 fin(1), of e6 txt' s3 ct])
      (use ct msg(2) steps(4) neq in \<open>auto simp: MAX_MESSAGE_SIZE_def fits_def h step_of_def\<close>)
  moreover have "dict_get (co_pending (timer_fires (bytes_hex ?ib) (take_task 0 ?a2))) (bytes_hex ?ib) = Some [txt]"
    using t4 by (simp add: talks_def)
  moreover have "co_tasks ?a2 = [After_Reply (bytes_hex ?ib) 0]" "co_tasks (take_task 0 ?a2) = []" using a2(1) t by (simp_all add: talks_def)
  ultimately show ?thesis using sent b1(2) a2(2) refused r3 r4 own_fields(3) unfolding h by blast
qed


text \<open>A store that holds another fingerprint for the second sample.\<close>

definition other_contact :: files where
  "other_contact = \<lparr>fs_config = Some (Json (JDict [(''contacts'', JDict [(''75877bb41d393b5f'', JStr ''dead'')])])), fs_identity = None, fs_backups = []\<rparr>"

lemma other_contact: "map_option (\<lambda>c. dict_get (contacts c) ''75877bb41d393b5f'')
    (case file_load_config False other_contact of Inl e \<Rightarrow> None | Inr c \<Rightarrow> Some c) = Some (Some ''dead'')"
  by code_simp

lemma other_contact_refused:
  assumes "co_storage c = Some other_contact"
  shows "\<not> snd (check_contact (peer_id_hex (sample_identity 2)) (id_fingerprint (sample_identity 2)) c)"
proof -
  obtain config where c: "file_load_config False other_contact = Inr config" "dict_get (contacts config) ''75877bb41d393b5f'' = Some ''dead''"
    using other_contact by (auto split: sum.splits)
  let ?f = "bytes_hex (sha256 (sample_key 2))"
  have "?f \<noteq> d" if "length d < 64" for d using that by auto
  from this [of "''dead''"] this [of "[]"] have f: "clean ?f \<noteq> ''dead''" "?f \<noteq> []" by (simp_all add: clean_def)
  have k: "clean ''75877bb41d393b5f'' = ''75877bb41d393b5f''" "py_lower ''dead'' = ''dead''" by code_simp+
  have "\<not> snd (verify_contact ''75877bb41d393b5f'' ?f config)" using c(2) f k by (simp add: verify_contact_def)
  then show ?thesis using assms c(1) f(2) unfolding sample_ids
    by (auto simp: check_contact_def sample_identity_def split: prod.split bool.split)
qed

lemma failed_reply_skips_trust_witness:
  "\<exists>a1 a2 a3 a4 a5 p1 p2 p3 p4. let kB = peer_id_hex (sample_identity 2); wary = SessionCoordinator (sample_identity 1) (Some other_contact) ''alice'' None in
    send_direct_message (sample_env 3) kB ''hi'' wary = (a1, Inr ()) \<and> sends wary a1 p1 \<and>
    sends bob (process_packet_async (sample_env 4) p1 None bob) p2 \<and>
    a2 = process_packet_async (sample_env 7) p2 None a1 \<and> sends a1 a2 p3 \<and> co_tasks a2 = [After_Reply kB 0] \<and>
    fst (coordinator_step (Some a2) (sample_env 7, Run_Task 0)) = Some a3 \<and> dict_get (co_sessions a3) kB = None \<and>
    fst (coordinator_step (Some a2) (sample_env 7, Fail_Task 0)) = Some a4 \<and>
    dict_get (co_pending (timer_fires kB a4)) kB = Some [''hi''] \<and> co_tasks a4 = [] \<and>
    send_direct_message (sample_env 7) kB ''hi'' (timer_fires kB a4) = (a5, Inr ()) \<and>
    sends (timer_fires kB a4) a5 p4 \<and> message_type p4 = NoiseEncrypted"
  unfolding Let_def
proof (rule failed_reply_skips_trust [OF sample_x25519 sample_chacha_ok sample_identity sample_identity _ sample_role
      sample_key_pair sample_key_pair _ _ sample_dh _ sample_dh _ _ other_contact_refused sample_step sample_step sample_step sample_step])
  show "length (py_utf8 ''hi'') \<le> MAX_MESSAGE_SIZE" "length (py_utf8 ''hi'') \<le> MAX_MESSAGE_SIZE" by (simp_all add: hi MAX_MESSAGE_SIZE_def)
qed (simp_all add: sample_key_pair sample_dh idle_def SessionCoordinator_def)


subsection \<open>Who a private message comes from\<close>

text \<open>
  C11. Who a private message comes from: a step of a coordinator in its invariant that shows the user
  an encrypted message of a peer took it from the session in the table for that peer, which was
  established, and whose remote static key hashes to the peer's identifier; the text is what that
  session decrypted, and no step shows more than one.
\<close>
theorem private_message_source:
  assumes "coordinator_ok c" "fst (coordinator_step (Some c) (env, ev)) = Some c'" "inbox c' \<noteq> inbox c"
  shows "\<exists>peer i S ct plaintext. inbox c' = inbox c @ [Got_Message peer (decode_chat_payload env plaintext) True] \<and>
    dict_get (co_sessions c) peer = Some i \<and> is_established (co_heap c ! i) \<and>
    se_remote_static (co_heap c ! i) = Some S \<and> claimed_peer_id peer = Some (take 8 (sha256 S)) \<and>
    snd (session_decrypt (en_lib env) ct (co_heap c ! i)) = Inr plaintext"
proof -
  obtain k i where k: "dict_get (co_sessions c) k = Some i" "delivers env c c' k i"
    using inbox_step [OF assms(1,2)] assms(3) by blast
  then obtain ct plaintext where d: "is_established (co_heap c ! i)"
    "snd (session_decrypt (en_lib env) ct (co_heap c ! i)) = Inr plaintext"
    "inbox c' = inbox c @ [Got_Message k (decode_chat_payload env plaintext) True]" by (auto simp: delivers_def)
  have i: "i < length (co_heap c)" "se_remote_peer_id (co_heap c ! i) = k" using coordinator_okD(3) [OF assms(1) k(1)] by auto
  have "established_ok (co_heap c ! i)"
    using coordinator_okD(4) [OF assms(1) i(1)] d(1) state_ok_established by (simp add: is_established_def)
  with i k(1) d show ?thesis by (auto simp: established_ok_def simp del: map_of_eq_Some_iff)
qed

lemma sample_conversation:
  obtains p3 p4 b1 where "coordinator_ok (process_packet_async (sample_env 7) p3 None b1)"
    "inbox (process_packet_async (sample_env 7) p3 None b1) = []"
    "inbox (process_packet_async (sample_env 7) p4 None (process_packet_async (sample_env 7) p3 None b1)) = [Got_Message ''72cd6e8422c407fb'' ''hi'' True]"
proof -
  have "idle alice (sample_identity 1) None" "idle bob (sample_identity 2) None" "inbox bob = []"
    by (simp_all add: idle_def SessionCoordinator_def inbox_def)
  moreover have "snd (check_contact k f alice)" "snd (check_contact k f bob)" for k f by (simp_all add: check_contact_def SessionCoordinator_def)
  moreover have "length (py_utf8 ''hi'') \<le> MAX_MESSAGE_SIZE" "en_utf8 (sample_env 7) (py_utf8 ''hi'') = Some ''hi''"
    by (simp_all add: hi MAX_MESSAGE_SIZE_def sample_env_def)
  moreover have "sample_key 1 \<noteq> sample_key 2" "b \<in> {1, 2, 3, 4} \<Longrightarrow> b \<in> {1, 2, 3, 4, 7, 9}" for b :: byte by auto
  ultimately obtain p1 p3 p4 where "inbox (process_packet_async (sample_env 7) p3 None (process_packet_async (sample_env 4) p1 None bob)) = []"
    "inbox (process_packet_async (sample_env 7) p4 None (process_packet_async (sample_env 7) p3 None (process_packet_async (sample_env 4) p1 None bob))) =
      [Got_Message (peer_id_hex (sample_identity 1)) ''hi'' True]"
    using conversation [where A = alice and B = bob and ?txt = "''hi''" and adr = None and adr' = None and ?e4.0 = "sample_env 7"
        and ea = "sample_key 3" and eb = "sample_key 4" and ?e5.0 = "sample_env 7" and ?e6.0 = "sample_env 7" and ?e7.0 = "sample_env 7"
        and ?e3.0 = "sample_env 7" and sa = None and sb = None,
      OF sample_x25519 sample_chacha_ok sample_identity sample_identity _ sample_role
      sample_key_pair sample_key_pair _ _ sample_dh _ sample_dh _ _ _ _ sample_step sample_step sample_step sample_step sample_step sample_step]
    by (auto simp: Let_def sample_key_pair sample_dh)
  moreover have "coordinator_ok (process_packet_async (sample_env 7) p3 None (process_packet_async (sample_env 4) p1 None bob))"
    by (intro process_async_ok coordinator_new_ok)
  ultimately show thesis using that by (simp only: sample_ids)
qed

lemma private_message_source_witness:
  "\<exists>c c' env ev peer i S ct plaintext. fst (coordinator_step (Some c) (env, ev)) = Some c' \<and> inbox c' \<noteq> inbox c \<and>
    inbox c' = inbox c @ [Got_Message peer (decode_chat_payload env plaintext) True] \<and>
    dict_get (co_sessions c) peer = Some i \<and> is_established (co_heap c ! i) \<and>
    se_remote_static (co_heap c ! i) = Some S \<and> claimed_peer_id peer = Some (take 8 (sha256 S)) \<and>
    snd (session_decrypt (en_lib env) ct (co_heap c ! i)) = Inr plaintext"
proof -
  obtain p3 p4 b1 where b: "coordinator_ok (process_packet_async (sample_env 7) p3 None b1)"
    "inbox (process_packet_async (sample_env 7) p3 None b1) = []"
    "inbox (process_packet_async (sample_env 7) p4 None (process_packet_async (sample_env 7) p3 None b1)) = [Got_Message ''72cd6e8422c407fb'' ''hi'' True]"
    by (rule sample_conversation)
  define b2 where "b2 = process_packet_async (sample_env 7) p3 None b1"
  let ?c = "spawn (Process p4 None) b2"
  have taken: "take_task (length (co_tasks b2)) ?c = b2" by (simp add: take_task_def spawn_def)
  have step: "fst (coordinator_step (Some ?c) (sample_env 7, Run_Task (length (co_tasks b2)))) = Some (process_packet_async (sample_env 7) p4 None b2)"
    unfolding coordinator_step.simps taken by (simp add: spawn_def)
  have "coordinator_ok ?c" using b(1) by (simp add: spawn_ok b2_def)
  moreover have "inbox (process_packet_async (sample_env 7) p4 None b2) \<noteq> inbox ?c" using b by (simp add: b2_def inbox_updates)
  ultimately show ?thesis using private_message_source [OF _ step] step by blast
qed

end
