(* ===== verification/Handshake_Limits.thy ===== *)
theory Handshake_Limits
  imports Coordinator_Props
begin

text \<open>
  How many handshakes a coordinator has open, and that each of them ends: which sessions an operation
  may bring into the state \<open>HANDSHAKING\<close>, the timer of each, the limit that the handlers of
  \<open>HandshakeRequest\<close> and \<open>NoiseHandshakeInit\<close> keep, and the one that \<open>NoiseHandshakeResp\<close> does not.
\<close>

definition pending :: "coordinator \<Rightarrow> string set" where
  "pending c = {k. \<exists>i. dict_get (co_sessions c) k = Some i \<and> se_state (co_heap c ! i) = HANDSHAKING}"

definition timed :: "coordinator \<Rightarrow> bool" where
  "timed c \<longleftrightarrow> (\<forall>k \<in> pending c. dict_has (co_timers c) k)"

text \<open>An operation opens handshakes with the peers \<open>K\<close> at most, and gives each a timer.\<close>

definition opens :: "string set \<Rightarrow> coordinator \<Rightarrow> coordinator \<Rightarrow> bool" where
  "opens K c c' \<longleftrightarrow> pending c' \<subseteq> K \<union> pending c \<and> (timed c \<longrightarrow> timed c')"

lemma pending_handshakes_card:
  assumes "dict_ok (co_sessions c)"
  shows "pending_handshakes_count c = card (pending c)"
proof -
  let ?es = "filter (\<lambda>e. se_state (co_heap c ! snd e) = HANDSHAKING) (co_sessions c)"
  have "distinct (map fst ?es)" using assms by (simp add: distinct_map_filter)
  then have "pending_handshakes_count c = card (set (map fst ?es))"
    using distinct_card [of "map fst ?es"] by (simp add: pending_handshakes_count_def)
  also have "set (map fst ?es) = pending c"
    using assms by (force simp: pending_def image_iff)
  finally show ?thesis .
qed

lemma finite_pending: "finite (pending c)"
proof (rule finite_subset)
  show "pending c \<subseteq> fst ` set (co_sessions c)" by (force simp: pending_def dest: map_of_SomeD)
qed simp

lemma opens_trans: "opens K c c' \<Longrightarrow> opens L c' c'' \<Longrightarrow> opens (K \<union> L) c c''"
  by (auto simp: opens_def)

lemma opens_more: "opens {} c c' \<Longrightarrow> opens L c' c'' \<Longrightarrow> opens L c c''"
  using opens_trans [of "{}" c c' L c''] by simp

lemma opens_after: "opens K c c' \<Longrightarrow> opens {} c' c'' \<Longrightarrow> opens K c c''"
  using opens_trans [of K c c' "{}" c''] by simp

lemma opens_mono: "opens K c c' \<Longrightarrow> K \<subseteq> L \<Longrightarrow> opens L c c'"
  by (auto simp: opens_def)

lemma opens_core: "core c' = core c \<Longrightarrow> opens K c c'"
  using core_fields [of c' c] by (auto simp: opens_def pending_def timed_def)

lemma opens_refl [simp]: "opens K c c"
  by (rule opens_core) simp

lemma opens_put:
  assumes "se_state s = HANDSHAKING \<Longrightarrow> se_state (co_heap c ! i) = HANDSHAKING"
  shows "opens {} c (put_session i s c)"
proof -
  have "se_state ((co_heap c)[i := s] ! j) = HANDSHAKING \<Longrightarrow> se_state (co_heap c ! j) = HANDSHAKING" for j
    using assms by (cases "j = i"; cases "i < length (co_heap c)") (auto simp: list_update_beyond)
  then show ?thesis by (auto simp: opens_def pending_def timed_def session_core simp del: map_of_eq_Some_iff)
qed

text \<open>A session is in the table under one peer only, so writing it concerns this peer.\<close>

lemma opens_schedule:
  assumes "coordinator_ok c" "dict_get (co_sessions c) k = Some i"
  shows "opens {k} c (schedule_handshake_timeout k i (put_session i s c))"
proof -
  have "pending (put_session i s c) \<subseteq> insert k (pending c)"
  proof
    fix k' assume "k' \<in> pending (put_session i s c)"
    then obtain j where j: "dict_get (co_sessions c) k' = Some j" "se_state ((co_heap c)[i := s] ! j) = HANDSHAKING"
      by (auto simp: pending_def session_core)
    show "k' \<in> insert k (pending c)"
    proof (cases "j = i")
      case True
      then have "k' = k" using coordinator_okD(3) [OF assms] coordinator_okD(3) [OF assms(1) j(1)] by simp
      then show ?thesis by simp
    next
      case False
      with j show ?thesis by (auto simp: pending_def)
    qed
  qed
  then have "pending (schedule_handshake_timeout k i (put_session i s c)) \<subseteq> insert k (pending c)"
    by (simp add: pending_def session_core)
  then show ?thesis
    by (force simp: opens_def timed_def schedule_handshake_timeout_def put_session_def dict_simps)
qed

lemma opens_discard:
  assumes "coordinator_ok c" "dict_get (co_sessions c) k = Some i"
  shows "opens {} c (discard_failed_session k i force c)"
proof (cases "\<not> force \<and> se_state (co_heap c ! i) \<noteq> FAILED")
  case False
  let ?c' = "discard_failed_session k i force c"
  have s: "co_sessions ?c' = dict_pop k (co_sessions c)" "co_timers ?c' = dict_pop k (co_timers c)"
    "co_heap ?c' ! j = (if j = i then co_heap ?c' ! i else co_heap c ! j)" for j
    using False assms(2) by (auto simp: discard_failed_session_def Let_def put_session_def cancel_handshake_timeout_def)
  have "k' \<in> pending c \<and> k' \<noteq> k" if k': "k' \<in> pending ?c'" for k'
  proof -
    obtain j where j: "k' \<noteq> k" "dict_get (co_sessions c) k' = Some j" "se_state (co_heap ?c' ! j) = HANDSHAKING"
      using k' by (auto simp: pending_def s(1) dict_simps split: if_splits)
    have "j \<noteq> i" using j(1,2) coordinator_okD(3) [OF assms] coordinator_okD(3) [OF assms(1) j(2)] by auto
    with j s(3) [of j] show ?thesis by (auto simp: pending_def)
  qed
  then show ?thesis by (auto simp: opens_def timed_def s(2) dict_simps)
qed (simp add: discard_failed_session_def)

lemma opens_cancel: "k \<notin> pending c \<Longrightarrow> opens {} c (cancel_handshake_timeout k c)"
  by (auto simp: opens_def timed_def pending_def cancel_handshake_timeout_def dict_simps)

lemma opens_create:
  assumes "coordinator_ok c" "get_or_create_session k c = (c', r)"
  shows "opens {} c c'"
proof (cases "c' = c")
  case False
  then obtain s where s: "NoiseSession (co_identity c) k None = Inr s"
    "c' = c\<lparr>co_heap := co_heap c @ [s], co_sessions := dict_set k (length (co_heap c)) (co_sessions c)\<rparr>"
    using assms(2) by (auto simp: get_or_create_session_def split: if_splits option.splits sum.splits)
  have "k' \<in> pending c" if "k' \<in> pending c'" for k'
    using that new_session(1) [OF s(1)] coordinator_okD(3) [OF assms(1), of k']
    by (auto simp: pending_def s(2) dict_simps nth_append simp del: map_of_eq_Some_iff split: if_splits)
  then show ?thesis by (auto simp: opens_def timed_def s(2))
qed simp


subsection \<open>What each handler opens\<close>

text \<open>The fresh octets make a key pair, as those of \<open>X25519PrivateKey.generate\<close> do.\<close>

definition fresh_ok :: "env \<Rightarrow> bool" where
  "fresh_ok env \<longleftrightarrow> (\<exists>E. x25519_public_key_from_private (en_lib env) (en_fresh env) = Inr E \<and> length E = 32)"

lemma start_with_fresh_key:
  assumes "fresh_ok env" "se_role s = INITIATOR" "start_handshake (en_lib env) (en_fresh env) s = (s', r)"
  shows "(\<exists>m. r = Inr (Some m)) \<or> s' = s"
proof (cases "se_state s \<noteq> UNINITIALIZED")
  case False
  obtain E where E: "x25519_public_key_from_private (en_lib env) (en_fresh env) = Inr E" "length E = 32"
    using assms(1) by (auto simp: fresh_ok_def)
  show ?thesis
  proof (cases "NoiseHandshakeState (en_lib env) INITIATOR (id_x25519_private (se_identity s)) None")
    case (Inr hs)
    then have hs: "hs_current hs = 0" "hs_symmetric hs = mix_hash [] (NoiseSymmetricState NOISE_PROTOCOL_NAME)"
      by (auto simp: NoiseHandshakeState_def split: sum.splits)
    have "snd (write_message (en_lib env) (en_fresh env) [] hs) = Inr E"
      using message1(1) [of hs hs, OF hs(1,1) refl _ E] initial_symmetric(2) hs(2) by simp
    with assms(2,3) False Inr show ?thesis by (auto simp: start_handshake_def Let_def split: prod.splits sum.splits)
  qed (use assms(2,3) False in \<open>simp add: start_handshake_def\<close>)
qed (use assms(3) in \<open>simp add: start_handshake_def\<close>)

lemma opens_established:
  assumes "coordinator_ok c" "i < length (co_heap c)" "se_remote_peer_id (co_heap c ! i) = k" "se_state (co_heap c ! i) = ESTABLISHED"
  shows "opens {} c (on_handshake_established k i c)"
proof -
  have tab: "dict_get (co_sessions c) k = Some i" using coordinator_okD(5) [OF assms(1,2)] assms(3,4) by (simp add: alive_def)
  then have c1: "opens {} c (cancel_handshake_timeout k c)" by (intro opens_cancel) (simp add: pending_def assms(4))
  show ?thesis
  proof (cases rule: established_cases [of k c i])
    case (refused c2)
    note f = core_fields [OF refused(1)]
    let ?c3 = "put_session i ((co_heap c2 ! i)\<lparr>se_state := FAILED\<rparr>) c2"
    have ok: "coordinator_ok c2" using cancel_ok [OF assms(1)] refused(1) by simp
    have "coordinator_ok ?c3" by (rule put_session_ok [OF ok moves_failed])
    moreover have "dict_get (co_sessions ?c3) k = Some i" using f tab by (simp add: session_core)
    ultimately have "opens {} ?c3 (discard_failed_session k i False ?c3)" by (rule opens_discard)
    moreover have "opens {} c2 ?c3" by (rule opens_put) simp
    ultimately show ?thesis using c1 opens_core [OF refused(1)] unfolding refused(2) by (blast intro: opens_more)
  next
    case (accepted c2 fp ts)
    have "core (on_handshake_established k i c) = core (cancel_handshake_timeout k c)"
      unfolding accepted(2) using accepted(1) by (subst core_spawn_all) (auto simp: core_simps)
    with c1 show ?thesis by (blast intro: opens_core opens_more)
  qed
qed

lemma opens_after_reply:
  "coordinator_ok c \<Longrightarrow> i < length (co_heap c) \<Longrightarrow> se_remote_peer_id (co_heap c ! i) = k \<Longrightarrow> opens {} c (after_reply k i c)"
  by (simp add: after_reply_def is_established_def opens_established)

lemma opens_advance:
  assumes "coordinator_ok c" "dict_get (co_sessions c) (sender_id_hex p) = Some i"
  shows "opens {sender_id_hex p} c (advance_handshake env p i c)"
proof -
  let ?k = "sender_id_hex p"
  obtain s r where p: "process_handshake_message (en_lib env) (en_fresh env) (payload p) (co_heap c ! i) = (s, r)" by fastforce
  note m = moves_process [OF p] and ms = movesD [OF moves_process [OF p]] coordinator_okD(4) [OF assms(1)]
  note i = coordinator_okD(3) [OF assms]
  let ?c1 = "put_session i s c"
  let ?c2 = "if se_state s = HANDSHAKING then schedule_handshake_timeout ?k i ?c1 else ?c1"
  have ok1: "coordinator_ok ?c1" by (rule put_session_ok [OF assms(1) m])
  have ok2: "coordinator_ok ?c2" using schedule_ok [OF ok1, of ?k i] ok1 assms(2) by (simp add: session_core)
  have o2: "opens {?k} c ?c2"
    using opens_schedule [OF assms, of s] opens_put [of s c i] by (auto intro: opens_mono)
  show ?thesis
  proof (cases r)
    case (Inl e)
    then have "se_state s = FAILED" using p by (auto simp: process_handshake_message_def split: prod.splits sum.splits)
    then have "opens {} c ?c1" by (intro opens_put) simp
    moreover have "opens {} ?c1 (discard_failed_session ?k i False ?c1)"
      by (rule opens_discard [OF ok1]) (use assms(2) in \<open>simp add: session_core\<close>)
    ultimately show ?thesis using p Inl by (auto simp: advance_handshake_def Let_def intro: opens_mono opens_more)
  next
    case (Inr response)
    show ?thesis
    proof (cases response)
      case None
      have "i < length (co_heap ?c2)" "se_remote_peer_id (co_heap ?c2 ! i) = ?k" using i ms by (simp_all add: session_core)
      with opens_after_reply [OF ok2] have "opens {} ?c2 (after_reply ?k i ?c2)" by blast
      with o2 p Inr None show ?thesis by (auto simp: advance_handshake_def Let_def intro: opens_after)
    next
      case (Some reply)
      have "opens {} ?c2 (spawn (After_Reply ?k i) (send_packet_to env ?k q ?c2))" for q
        using core_fields [OF core_sending(4) [of env ?k q ?c2]] by (simp add: opens_def pending_def timed_def spawn_def)
      with o2 p Inr Some show ?thesis by (auto simp: advance_handshake_def Let_def intro: opens_after split: sum.split)
    qed
  qed
qed


lemma opens_create_session:
  assumes "coordinator_ok c" "get_or_create_session k c = (c', Inr i)"
  shows "coordinator_ok c'" "dict_get (co_sessions c') k = Some i" "opens {} c c'"
  using get_or_create_ok [OF assms] opens_create [OF assms] by auto

lemma opens_request:
  assumes "coordinator_ok c" "fresh_ok env"
  shows "opens {sender_id_hex p} c (on_handshake_request env p c)"
proof -
  let ?k = "sender_id_hex p"
  obtain c1 r where g: "get_or_create_session ?k c = (c1, r)" by fastforce
  have o1: "opens {} c c1" by (rule opens_create [OF assms(1) g])
  have step: "opens {?k} c1 (schedule_handshake_timeout ?k i (put_session i s c1))" "x = Inr (Some m) \<or> s = co_heap c1 ! i"
    if "r = Inr i" "start_handshake (en_lib env) (en_fresh env) (co_heap c1 ! i) = (s, x)" "se_role (co_heap c1 ! i) = INITIATOR"
      "\<nexists>m'. x = Inr (Some m') \<and> m' \<noteq> m" for i s x m
    using opens_schedule opens_create_session [OF assms(1)] g that start_with_fresh_key [OF assms(2) that(3,2)] by auto
  have quiet: "opens K c1 (put_session i (co_heap c1 ! i) c1)" for K i by (rule opens_mono [OF opens_put]) simp_all
  have sent: "opens K c' (send_packet_to env ?k q c')" for K q c' by (rule opens_core) (simp add: core_simps)
  show ?thesis
  proof (cases "handshake_refused ?k c \<or> (\<exists>e. r = Inl e)")
    case True
    with o1 g show ?thesis by (auto simp: on_handshake_request_def Let_def intro: opens_mono)
  next
    case False
    then obtain i where i: "r = Inr i" by (cases r) auto
    let ?s = "co_heap c1 ! i"
    show ?thesis
    proof (cases "se_role ?s = INITIATOR \<and> se_state ?s = UNINITIALIZED")
      case True
      obtain s x where st: "start_handshake (en_lib env) (en_fresh env) ?s = (s, x)" by fastforce
      show ?thesis
      proof (cases "\<exists>m. x = Inr (Some m)")
        case started: True
        then obtain m where m: "x = Inr (Some m)" by blast
        have "opens {?k} c (schedule_handshake_timeout ?k i (put_session i s c1))"
          using step(1) [OF i st, of m] True m o1 by (auto intro: opens_more)
        with False True g i st m sent show ?thesis
          by (auto simp: on_handshake_request_def Let_def intro: opens_after split: sum.split)
      next
        case other: False
        then have "s = ?s" using step(2) [OF i st] True by blast
        with other False True g i st quiet o1 show ?thesis
          by (auto simp: on_handshake_request_def Let_def intro: opens_more split: sum.split option.split)
      qed
    next
      case other: False
      with False g i o1 show ?thesis by (auto simp: on_handshake_request_def Let_def intro: opens_mono)
    qed
  qed
qed

lemma opens_init:
  assumes "coordinator_ok c"
  shows "opens {sender_id_hex p} c (on_handshake_init env p c)"
proof -
  have "opens {sender_id_hex p} c (advance_handshake env p i c1)" if "get_or_create_session (sender_id_hex p) c = (c1, Inr i)" for c1 i
    using opens_advance opens_create_session [OF assms that] by (blast intro: opens_more)
  moreover have "opens {sender_id_hex p} c c1" if "get_or_create_session (sender_id_hex p) c = (c1, r)" for c1 r
    by (rule opens_mono [OF opens_create [OF assms that]]) simp
  ultimately show ?thesis by (auto simp: on_handshake_init_def split: prod.split sum.split)
qed

lemma opens_resp: "coordinator_ok c \<Longrightarrow> opens {sender_id_hex p} c (on_handshake_resp env p c)"
  by (auto simp: on_handshake_resp_def opens_advance simp del: map_of_eq_Some_iff split: option.split)

lemma opens_deliver: "opens {} c (deliver_encrypted env k i p c)"
proof -
  have "opens {} c (put_session i s c)" if "session_decrypt (en_lib env) (payload p) (co_heap c ! i) = (s, r)" for s r
    by (cases rule: session_decrypt_cases [of "en_lib env" "payload p" "co_heap c ! i"]) (use that in \<open>auto intro!: opens_put\<close>)
  moreover have "opens {} c (notify n c') = opens {} c c'" for n c' by (simp add: opens_def pending_def timed_def notify_def)
  ultimately show ?thesis by (auto simp: deliver_encrypted_def split: prod.split sum.split)
qed


lemma opens_encrypted: "opens {} c (on_encrypted env p c)" "opens {} c (await_session env k i p n c)"
proof -
  have "opens {} c (spawn t c)" for t by (simp add: opens_def pending_def timed_def spawn_def)
  then show "opens {} c (on_encrypted env p c)" "opens {} c (await_session env k i p n c)"
    by (auto simp: on_encrypted_def await_session_def opens_deliver split: option.split)
qed

lemma opens_process:
  assumes "coordinator_ok c" "fresh_ok env"
  shows "opens {sender_id_hex p} c (process_packet_async env p a c)"
proof -
  let ?c = "learn_sender env p a c"
  have l: "core ?c = core c" by (simp add: core_simps)
  have ok: "coordinator_ok ?c" using assms(1) l by simp
  have "opens {sender_id_hex p} ?c (dispatch_packet env p ?c)"
    using opens_request [OF ok assms(2)] opens_init [OF ok] opens_resp [OF ok] opens_mono [OF opens_encrypted(1)]
    by (cases "message_type p") (auto simp: dispatch_packet_def core_simps intro: opens_core)
  with opens_core [OF l, of "{}"] show ?thesis by (auto simp: process_packet_async_def intro: opens_more)
qed

lemma opens_direct:
  assumes "coordinator_ok c" "fresh_ok env"
  shows "opens {k} c (fst (send_direct_message env k txt c))"
proof -
  obtain c1 r where g: "get_or_create_session k c = (c1, r)" by fastforce
  have o1: "opens {} c c1" by (rule opens_create [OF assms(1) g])
  have own: "opens {} c' (fst (send_own env k mt pl c'))" for mt pl c' by (rule opens_core) (simp add: core_simps)
  have q: "opens {} c1 (queue_text k txt c1)" by (rule opens_core) (simp add: core_simps)
  have open_it: "opens {k} c2 (fst (open_handshake env k i c2))" if c2: "coordinator_ok c2" "dict_get (co_sessions c2) k = Some i" for c2 i
  proof (cases "se_role (co_heap c2 ! i) = INITIATOR")
    case True
    obtain s x where st: "start_handshake (en_lib env) (en_fresh env) (co_heap c2 ! i) = (s, x)" by fastforce
    from start_with_fresh_key [OF assms(2) True st] show ?thesis
    proof
      assume "\<exists>m. x = Inr (Some m)"
      with opens_schedule [OF c2, of s] own True st show ?thesis by (auto simp: open_handshake_def intro: opens_after)
    next
      assume "s = co_heap c2 ! i"
      then have "opens {k} c2 (put_session i s c2)" "opens {k} c2 (fst (send_own env k mt pl (schedule_handshake_timeout k i (put_session i s c2))))" for mt pl
        using opens_mono [OF opens_put [of s c2 i]] opens_after [OF opens_schedule [OF c2] own] by auto
      with True st show ?thesis by (auto simp: open_handshake_def split: sum.split option.split)
    qed
  next
    case False
    with opens_mono [OF own] show ?thesis by (simp add: open_handshake_def)
  qed
  have enc: "opens {} c1 (put_session i s c1)" if "session_encrypt (en_lib env) pl (co_heap c1 ! i) = (s, x)" for i s x pl
    by (cases rule: session_encrypt_cases [of "en_lib env" pl "co_heap c1 ! i"]) (use that in \<open>auto intro!: opens_put\<close>)
  show ?thesis
  proof (cases r)
    case (Inl e)
    with o1 g show ?thesis by (auto simp: send_direct_message_def intro: opens_mono)
  next
    case (Inr i)
    note c1 = opens_create_session [OF assms(1) g [unfolded Inr]]
    have "coordinator_ok (queue_text k txt c1)" "co_sessions (queue_text k txt c1) = co_sessions c1"
      using c1(1) by (simp_all add: core_simps) (simp add: queue_text_def)
    with c1 open_it [of "queue_text k txt c1" i] q have o2: "opens {k} c1 (fst (open_handshake env k i (queue_text k txt c1)))"
      by (auto intro: opens_more)
    have "opens {k} c1 (fst (send_direct_message env k txt c))" if "length (py_utf8 txt) \<le> MAX_MESSAGE_SIZE"
      using that g Inr o2 opens_mono [OF q] opens_mono [OF opens_after [OF enc own]] opens_mono [OF enc]
      by (auto simp: send_direct_message_def Let_def split: prod.split sum.split)
    with o1 show ?thesis by (cases "length (py_utf8 txt) \<le> MAX_MESSAGE_SIZE") (auto simp: send_direct_message_def intro: opens_more)
  qed
qed


lemma opens_fail_discard:
  assumes "coordinator_ok c" "dict_get (co_sessions c) k = Some i"
  shows "opens {} c (discard_failed_session k i force (put_session i ((co_heap c ! i)\<lparr>se_state := FAILED\<rparr>) c))"
proof -
  let ?c = "put_session i ((co_heap c ! i)\<lparr>se_state := FAILED\<rparr>) c"
  have "opens {} ?c (discard_failed_session k i force ?c)"
    by (rule opens_discard [OF put_session_ok [OF assms(1) moves_failed]]) (use assms(2) in \<open>simp add: session_core\<close>)
  moreover have "opens {} c ?c" by (rule opens_put) simp
  ultimately show ?thesis by (rule opens_more [rotated])
qed

lemma discarded_timer: "dict_get (co_timers c) k = Some i \<Longrightarrow> dict_get (co_sessions c) k = Some i \<Longrightarrow>
    se_state (co_heap c ! i) = FAILED \<Longrightarrow> dict_get (co_sessions (discard_failed_session k i force c)) k = None"
  by (simp add: discard_failed_session_def Let_def put_session_def cancel_handshake_timeout_def dict_simps)

text \<open>The timer of a peer fires: its handshake, if it is still open, is gone.\<close>

lemma timer_closes:
  assumes "coordinator_ok c" "dict_has (co_timers c) k"
  shows "k \<notin> pending (timer_fires k c)"
proof -
  obtain i where t: "dict_get (co_timers c) k = Some i" using assms(2) by blast
  have tab: "dict_get (co_sessions c) k = Some i" by (rule coordinator_okD(6) [OF assms(1) t])
  have i: "i < length (co_heap c)" using coordinator_okD(3) [OF assms(1) tab] by blast
  show ?thesis
  proof (cases "se_state (co_heap c ! i) = HANDSHAKING")
    case True
    let ?c = "put_session i ((co_heap c ! i)\<lparr>se_state := FAILED\<rparr>) c"
    have "dict_get (co_sessions (discard_failed_session k i False ?c)) k = None"
      by (rule discarded_timer) (use t tab i in \<open>simp_all add: session_core\<close>)
    with t tab True show ?thesis by (simp add: timer_fires_def pending_def session_core)
  next
    case False
    with t tab show ?thesis by (simp add: timer_fires_def pending_def session_core)
  qed
qed

lemma opens_timer: "coordinator_ok c \<Longrightarrow> opens {} c (timer_fires k c)"
proof (cases "dict_has (co_timers c) k")
  case True
  assume ok: "coordinator_ok c"
  obtain i where t: "dict_get (co_timers c) k = Some i" using True by blast
  let ?c = "if dict_get (co_sessions c) k = Some i \<and> se_state (co_heap c ! i) = HANDSHAKING
     then discard_failed_session k i False (put_session i ((co_heap c ! i)\<lparr>se_state := FAILED\<rparr>) c) else c"
  have o: "opens {} c ?c" using opens_fail_discard [OF ok] by simp
  have eq: "timer_fires k c = cancel_handshake_timeout k ?c" unfolding timer_fires_def t by simp
  have "k \<notin> pending (cancel_handshake_timeout k ?c)" using timer_closes [OF ok True] unfolding eq .
  then have "k \<notin> pending ?c" unfolding pending_def session_core .
  then show "opens {} c (timer_fires k c)" unfolding eq by (intro opens_more [OF o] opens_cancel)
qed (simp add: timer_fires_def)

lemma opens_expire: "coordinator_ok c \<Longrightarrow> opens {} c (expire_handshake k c)"
  by (auto simp: expire_handshake_def opens_fail_discard simp del: map_of_eq_Some_iff split: option.split)

lemma opens_drop_peer:
  assumes "coordinator_ok c"
  shows "opens {} c (drop_peer_session k c)"
proof (cases "dict_get (co_sessions c) k")
  case None
  then have "opens {} c (cancel_handshake_timeout k c)" by (intro opens_cancel) (simp add: pending_def)
  moreover have "core (drop_peer_session k c) = core (cancel_handshake_timeout k c)"
    using None by (simp add: drop_peer_session_def Let_def core_simps session_core)
  ultimately show ?thesis by (blast intro: opens_core opens_more)
next
  case (Some i)
  let ?c' = "drop_peer_session k c"
  have s: "co_sessions ?c' = dict_pop k (co_sessions c)" "co_timers ?c' = dict_pop k (co_timers c)"
    "co_heap ?c' ! j = (if j = i then co_heap ?c' ! i else co_heap c ! j)" for j
    using Some by (auto simp: drop_peer_session_def Let_def put_session_def cancel_handshake_timeout_def)
  have "k' \<in> pending c \<and> k' \<noteq> k" if k': "k' \<in> pending ?c'" for k'
  proof -
    obtain j where j: "k' \<noteq> k" "dict_get (co_sessions c) k' = Some j" "se_state (co_heap ?c' ! j) = HANDSHAKING"
      using k' by (auto simp: pending_def s(1) dict_simps split: if_splits)
    have "j \<noteq> i" using j(1,2) coordinator_okD(3) [OF assms Some] coordinator_okD(3) [OF assms j(2)] by auto
    with j s(3) [of j] show ?thesis by (auto simp: pending_def)
  qed
  then show ?thesis by (auto simp: opens_def timed_def s(2) dict_simps)
qed

lemma opens_disconnected:
  assumes "coordinator_ok c"
  shows "opens {} c (handle_peer_disconnected env a c)"
proof -
  have k: "keep_discovered env pid c' = (c'', b) \<Longrightarrow> core c'' = core c'" for pid c' c'' b
    using core_peers(3) [of env pid c'] by simp
  have drop: "opens {} c (drop_peer_session pid c')" if "core c' = core c" for pid c'
    using opens_drop_peer [of c'] assms that by (auto intro: opens_more opens_core)
  have told: "opens {} c (notify (Peer_Status x y) c') = opens {} c c'" for x y c' by (simp add: opens_def pending_def timed_def notify_def)
  show ?thesis
    by (auto simp: handle_peer_disconnected_def Let_def told core_simps dest!: k intro!: drop split: option.split prod.split intro: opens_core)
qed

lemma opens_timed: "opens K c c' \<Longrightarrow> timed c \<Longrightarrow> timed c'"
  by (simp add: opens_def)

lemma timed_core: "core c' = core c \<Longrightarrow> timed c \<Longrightarrow> timed c'"
  by (rule opens_timed [OF opens_core])

lemma timed_task:
  assumes "coordinator_ok c" "fresh_ok env" "task_ok (co_heap c) t" "run_task env t c = Some c'" "timed c"
  shows "timed c'"
proof (cases t)
  case (Process p a)
  with assms show ?thesis using opens_timed [OF opens_process [OF assms(1,2)]] by auto
next
  case (Send_Direct k m)
  with assms show ?thesis using opens_timed [OF opens_direct [OF assms(1,2)]] by auto
next
  case (After_Reply k i)
  with assms show ?thesis using opens_timed [OF opens_after_reply [OF assms(1)]] by auto
next
  case (Await_Session k i p n)
  with assms show ?thesis using opens_timed [OF opens_encrypted(2)] by auto
qed (use assms(4,5) in \<open>auto simp: core_simps dest!: core_relay intro: timed_core\<close>)

lemma timed_step:
  assumes "coordinator_ok c" "fresh_ok env" "fst (coordinator_step (Some c) (env, ev)) = Some c'" "timed c"
  shows "timed c'"
proof -
  have taken: "timed (take_task n c)" for n using assms(4) by (simp add: pending_def timed_def take_task_def)
  show ?thesis
  proof (cases ev)
    case (Run_Task n)
    show ?thesis
    proof (cases "n < length (co_tasks c)")
      case True
      have "task_ok (co_heap (take_task n c)) (co_tasks c ! n)"
        using coordinator_okD(7) [OF assms(1) nth_mem [OF True]] by (simp add: take_task_def)
      with timed_task [OF take_task_ok [OF assms(1)] assms(2) _ _ taken] assms(3) True Run_Task show ?thesis by simp
    qed (use assms(3,4) Run_Task in simp)
  next
    case (Fail_Task n)
    with assms(3,4) taken show ?thesis
      by (cases "co_tasks c ! n") (auto split: if_splits dest!: core_relay intro: timed_core)
  next
    case (Peer_Disconnected a)
    with assms(3) opens_timed [OF opens_disconnected [OF assms(1), of env a] assms(4)] show ?thesis by simp
  next
    case (Tell k m)
    with assms(3) opens_timed [OF opens_direct [OF assms(1,2), of k m] assms(4)] show ?thesis by simp
  qed (use assms opens_timer [OF assms(1)] opens_expire [OF assms(1)] in
     \<open>auto simp: core_simps dest!: core_incoming core_server_data intro: timed_core opens_timed\<close>)
qed


subsection \<open>Every handshake ends\<close>

lemma reachable_timed:
  assumes "fst (run coordinator_step (Some (SessionCoordinator ident storage nick rt)) evs) = Some c"
    and "list_all (\<lambda>e. fresh_ok (fst e)) evs"
  shows "coordinator_ok c \<and> timed c"
  using assms
proof (induction evs arbitrary: c rule: rev_induct)
  case Nil
  then have "c = SessionCoordinator ident storage nick rt" by simp
  moreover have "timed (SessionCoordinator ident storage nick rt)" by (simp add: timed_def pending_def SessionCoordinator_def)
  ultimately show ?case using coordinator_new_ok by simp
next
  case (snoc e evs)
  obtain env ev where e: "e = (env, ev)" by (cases e)
  show ?case
  proof (cases "fst (run coordinator_step (Some (SessionCoordinator ident storage nick rt)) evs)")
    case None
    with snoc.prems(1) show ?thesis by (simp add: fst_run_append)
  next
    case (Some c0)
    then have s: "fst (coordinator_step (Some c0) (env, ev)) = Some c" using snoc.prems(1) by (simp add: fst_run_append e)
    have c0: "coordinator_ok c0 \<and> timed c0" using snoc.IH [OF Some] snoc.prems(2) by simp
    then have "coordinator_ok c" using coordinator_step_ok [of "Some c0" "(env, ev)"] s by (simp add: stable_def)
    with timed_step [OF _ _ s] c0 snoc.prems(2) show ?thesis by (simp add: e)
  qed
qed


lemma timer_keeps_others:
  assumes "coordinator_ok c" "k' \<in> pending c" "k' \<noteq> k"
  shows "k' \<in> pending (timer_fires k c)"
proof -
  obtain j where j: "dict_get (co_sessions c) k' = Some j" "se_state (co_heap c ! j) = HANDSHAKING"
    using assms(2) by (auto simp: pending_def)
  show ?thesis
  proof (cases "dict_get (co_timers c) k")
    case (Some i)
    have tab: "dict_get (co_sessions c) k = Some i" by (rule coordinator_okD(6) [OF assms(1) Some])
    then have "j \<noteq> i" using coordinator_okD(3) [OF assms(1) tab] coordinator_okD(3) [OF assms(1) j(1)] assms(3) by auto
    with j Some tab assms(3) show ?thesis
      by (auto simp: timer_fires_def discard_failed_session_def pending_def Let_def put_session_def cancel_handshake_timeout_def dict_simps
          simp del: map_of_eq_Some_iff)
  qed (use assms(2) in \<open>simp add: timer_fires_def\<close>)
qed

text \<open>
  C12. Every handshake ends: after any packets, peers, timers, failures and task orders, as long as
  fresh keys are valid, each handshake that is open has a timer, and when the timer of a peer fires
  the handshake with this peer is over and those with other peers are as they were.
\<close>
theorem handshakes_end:
  assumes "fst (run coordinator_step (Some (SessionCoordinator ident storage nick rt)) evs) = Some c"
    and "list_all (\<lambda>e. fresh_ok (fst e)) evs"
  shows "(\<forall>k. k \<in> pending c \<longrightarrow> dict_has (co_timers c) k) \<and> pending (timer_fires k c) = pending c - {k}"
proof -
  have ok: "coordinator_ok c" "timed c" using reachable_timed [OF assms] by auto
  have "k \<notin> pending (timer_fires k c)"
  proof (cases "dict_has (co_timers c) k")
    case False
    then have "timer_fires k c = c" by (auto simp: timer_fires_def split: option.split)
    with False ok(2) show ?thesis by (auto simp: timed_def)
  qed (rule timer_closes [OF ok(1)])
  moreover have "pending (timer_fires k c) \<subseteq> pending c" using opens_timer [OF ok(1)] by (simp add: opens_def)
  ultimately have "pending (timer_fires k c) = pending c - {k}" using timer_keeps_others [OF ok(1)] by blast
  with ok(2) show ?thesis by (simp add: timed_def)
qed

subsection \<open>The limit on open handshakes\<close>

lemma limit_from_pending:
  assumes "coordinator_ok c" "coordinator_ok c'" "pending c' \<subseteq> insert k (pending c)"
    and "k \<notin> pending c \<Longrightarrow> pending_handshakes_count c < MAX_PENDING_HANDSHAKES"
  shows "pending_handshakes_count c' \<le> max MAX_PENDING_HANDSHAKES (pending_handshakes_count c)"
proof (cases "k \<in> pending c")
  case True
  then have "card (pending c') \<le> card (pending c)" using assms(3) by (intro card_mono finite_pending) auto
  then show ?thesis using assms(1,2) by (simp add: pending_handshakes_card coordinator_okD(1))
next
  case False
  have "card (pending c') \<le> card (insert k (pending c))" by (rule card_mono [OF _ assms(3)]) (simp add: finite_pending)
  also have "\<dots> \<le> Suc (card (pending c))" using finite_pending by (simp add: card_insert_if)
  finally show ?thesis using assms(1,2) assms(4) [OF False] by (simp add: pending_handshakes_card coordinator_okD(1))
qed

lemma refused_iff: "handshake_refused k c \<longleftrightarrow> k \<notin> pending c \<and> pending_handshakes_count c \<ge> MAX_PENDING_HANDSHAKES"
  by (auto simp: handshake_refused_def pending_def split: option.split)

text \<open>
  C13. The limit on handshakes: a \<open>HandshakeRequest\<close> or a \<open>NoiseHandshakeInit\<close>, from whatever
  sender and whatever it holds, never takes the number of open handshakes above 64; where they are
  more already, it adds none.
\<close>
theorem handshake_limit_kept:
  assumes "coordinator_ok c" "fresh_ok env" "message_type p \<in> {HandshakeRequest, NoiseHandshakeInit}"
  shows "pending_handshakes_count (process_packet_async env p a c) \<le> max MAX_PENDING_HANDSHAKES (pending_handshakes_count c)"
proof -
  let ?c = "learn_sender env p a c" and ?c' = "process_packet_async env p a c" and ?k = "sender_id_hex p"
  have l: "core ?c = core c" by (simp add: core_simps)
  have same: "handshake_refused ?k ?c \<longleftrightarrow> handshake_refused ?k c" "pending_handshakes_count ?c = pending_handshakes_count c"
    using core_fields [OF l] by (simp_all add: handshake_refused_def pending_handshakes_count_def split: option.split)
  show ?thesis
  proof (cases "handshake_refused ?k c")
    case True
    then have "?c' = c \<or> ?c' = ?c" using assms(3) same(1)
      by (auto simp: process_packet_async_def dispatch_packet_def on_handshake_request_def on_handshake_init_def)
    then show ?thesis using same(2) by auto
  next
    case False
    then have "?k \<notin> pending c \<Longrightarrow> pending_handshakes_count c < MAX_PENDING_HANDSHAKES" by (auto simp: refused_iff)
    with opens_process [OF assms(1,2), of p a] show ?thesis
      by (intro limit_from_pending [OF assms(1) process_async_ok [OF assms(1)]]) (auto simp: opens_def)
  qed
qed


subsection \<open>The way around it\<close>

text \<open>A session that waits for a first message, as a \<open>HandshakeRequest\<close> leaves it on the responder's side.\<close>

definition waiting :: "coordinator \<Rightarrow> string set" where
  "waiting c = {k. \<exists>i. dict_get (co_sessions c) k = Some i \<and> i < length (co_heap c) \<and>
     se_state (co_heap c ! i) = UNINITIALIZED \<and> se_role (co_heap c ! i) = RESPONDER}"

definition knows :: "coordinator \<Rightarrow> string set" where
  "knows c = {k. dict_has (co_sessions c) k}"

lemma sets_core: "core c' = core c \<Longrightarrow> waiting c' = waiting c \<and> pending c' = pending c \<and> knows c' = knows c \<and> co_identity c' = co_identity c"
  using core_fields [of c' c] by (simp add: waiting_def pending_def knows_def)

lemma request_waits:
  assumes "coordinator_ok c" "pending c = {}" "message_type p = HandshakeRequest" "sender_id_hex p \<notin> knows c"
    and "determine_handshake_role (own_id c) (sender_id_hex p) = Inr RESPONDER" "py_lower (sender_id_hex p) \<noteq> py_lower (own_id c)"
    and "py_strip (sender_id_hex p) = sender_id_hex p"
  shows "waiting (process_packet_async env p a c) = insert (sender_id_hex p) (waiting c) \<and> pending (process_packet_async env p a c) = {} \<and>
    knows (process_packet_async env p a c) = insert (sender_id_hex p) (knows c) \<and>
    co_identity (process_packet_async env p a c) = co_identity c"
proof -
  let ?k = "sender_id_hex p" and ?c = "learn_sender env p a c"
  have l: "core ?c = core c" by (simp add: core_simps)
  note f = core_fields [OF l] and g = sets_core [OF l]
  have ok: "coordinator_ok ?c" using assms(1) l by simp
  have "\<not> handshake_refused ?k ?c"
    using ok g assms(2) by (simp add: refused_iff pending_handshakes_card coordinator_okD(1) MAX_PENDING_HANDSHAKES_def)
  moreover obtain s where s: "NoiseSession (co_identity ?c) ?k None = Inr s" "se_role s = RESPONDER" "se_state s = UNINITIALIZED"
    using assms(5) f by (simp add: NoiseSession_def)
  moreover define c1 where "c1 = ?c\<lparr>co_heap := co_heap ?c @ [s], co_sessions := dict_set ?k (length (co_heap ?c)) (co_sessions ?c)\<rparr>"
  moreover have "get_or_create_session ?k ?c = (c1, Inr (length (co_heap ?c)))"
    using assms(4,6,7) s(1) f by (simp add: get_or_create_session_def c1_def knows_def)
  ultimately have eq: "process_packet_async env p a c = c1"
    using assms(3,6) by (simp add: process_packet_async_def dispatch_packet_def on_handshake_request_def Let_def c1_def)
  have in_heap: "dict_get (co_sessions ?c) k = Some i \<Longrightarrow> i < length (co_heap ?c)" for k i using coordinator_okD(3) [OF ok] by blast
  have "waiting c1 = insert ?k (waiting ?c)" "pending c1 = pending ?c" "knows c1 = insert ?k (knows ?c)"
    using in_heap assms(4) f s(2,3)
    by (auto simp: waiting_def pending_def knows_def c1_def dict_simps nth_append simp del: map_of_eq_Some_iff split: if_splits)
  with g assms(2) eq f show ?thesis by (simp add: c1_def)
qed

lemma first_message_pends:
  assumes "coordinator_ok c" "message_type p = NoiseHandshakeResp" "sender_id_hex p \<in> waiting c" "py_lower (sender_id_hex p) \<noteq> py_lower (own_id c)"
    and "\<And>B. se_state B = UNINITIALIZED \<Longrightarrow> se_role B = RESPONDER \<Longrightarrow> se_identity B = co_identity c \<Longrightarrow>
      \<exists>B' m. process_handshake_message (en_lib env) (en_fresh env) (payload p) B = (B', Inr (Some m)) \<and> se_state B' = HANDSHAKING"
  shows "waiting c - {sender_id_hex p} \<subseteq> waiting (process_packet_async env p a c) \<and>
    insert (sender_id_hex p) (pending c) \<subseteq> pending (process_packet_async env p a c) \<and>
    co_identity (process_packet_async env p a c) = co_identity c"
proof -
  let ?k = "sender_id_hex p" and ?c = "learn_sender env p a c"
  have l: "core ?c = core c" by (simp add: core_simps)
  note f = core_fields [OF l]
  obtain i where i: "dict_get (co_sessions c) ?k = Some i" "i < length (co_heap c)" "se_state (co_heap c ! i) = UNINITIALIZED"
      "se_role (co_heap c ! i) = RESPONDER" using assms(3) by (auto simp: waiting_def)
  have me: "se_identity (co_heap c ! i) = co_identity c" using coordinator_okD(4) [OF assms(1) i(2)] by blast
  obtain s m where s: "process_handshake_message (en_lib env) (en_fresh env) (payload p) (co_heap c ! i) = (s, Inr (Some m))"
    "se_state s = HANDSHAKING" using assms(5) [OF i(3,4) me] by blast
  let ?c2 = "schedule_handshake_timeout ?k i (put_session i s ?c)"
  have eq: "process_packet_async env p a c = advance_handshake env p i ?c"
    using assms(2,4) i(1) f by (simp add: process_packet_async_def dispatch_packet_def on_handshake_resp_def del: map_of_eq_Some_iff)
  have fields: "co_heap (advance_handshake env p i ?c) = co_heap ?c2 \<and> co_sessions (advance_handshake env p i ?c) = co_sessions ?c2 \<and>
      co_identity (advance_handshake env p i ?c) = co_identity ?c2"
  proof -
    have "co_heap (spawn t (send_packet_to env ?k q ?c2)) = co_heap ?c2 \<and> co_sessions (spawn t (send_packet_to env ?k q ?c2)) = co_sessions ?c2 \<and>
        co_identity (spawn t (send_packet_to env ?k q ?c2)) = co_identity ?c2" for t q
      using core_fields [OF core_sending(4) [of env ?k q ?c2]] by (simp add: spawn_def)
    then show ?thesis using s f by (simp add: advance_handshake_def Let_def split: sum.split)
  qed
  have other: "j \<noteq> i" if "dict_get (co_sessions c) k' = Some j" "k' \<noteq> ?k" for k' j
    using coordinator_okD(3) [OF assms(1) that(1)] coordinator_okD(3) [OF assms(1) i(1)] that(2) by auto
  have h: "co_heap (process_packet_async env p a c) = (co_heap c)[i := s]" "co_sessions (process_packet_async env p a c) = co_sessions c"
    "co_identity (process_packet_async env p a c) = co_identity c" unfolding eq using fields f by (simp_all add: session_core)
  have "k' \<in> waiting (process_packet_async env p a c)" if w: "k' \<in> waiting c" "k' \<noteq> ?k" for k'
  proof -
    obtain j where "dict_get (co_sessions c) k' = Some j" "j < length (co_heap c)" "se_state (co_heap c ! j) = UNINITIALIZED"
        "se_role (co_heap c ! j) = RESPONDER" using w(1) by (auto simp: waiting_def)
    with other [of k' j] w(2) show ?thesis by (auto simp: waiting_def h)
  qed
  moreover have "k' \<in> pending (process_packet_async env p a c)" if w: "k' \<in> pending c" "k' \<noteq> ?k" for k'
  proof -
    obtain j where "dict_get (co_sessions c) k' = Some j" "se_state (co_heap c ! j) = HANDSHAKING" using w(1) by (auto simp: pending_def)
    with other [of k' j] w(2) show ?thesis by (auto simp: pending_def h)
  qed
  moreover have "?k \<in> pending (process_packet_async env p a c)" using i(1,2) s(2) by (simp add: pending_def h)
  ultimately show ?thesis using h(3) by blast
qed

text \<open>The packets of a flood: first all requests, then a first message of each sender.\<close>

definition flood_packet :: "MessageType \<Rightarrow> bytes \<Rightarrow> bytes \<Rightarrow> packet" where
  "flood_packet mt pl q = \<lparr>version = 1, message_type = mt, ttl = 7, timestamp = 0, flags = 0, sender_id = q, recipient_id = None,
     payload = pl, signature = None\<rparr>"

definition flood :: "env \<Rightarrow> string option \<Rightarrow> MessageType \<Rightarrow> bytes \<Rightarrow> bytes list \<Rightarrow> coordinator \<Rightarrow> coordinator" where
  "flood env a mt pl qs c = fold (\<lambda>q. process_packet_async env (flood_packet mt pl q) a) qs c"

lemma flood_fields [simp]: "sender_id_hex (flood_packet mt pl q) = bytes_hex q" "message_type (flood_packet mt pl q) = mt"
  "payload (flood_packet mt pl q) = pl"
  by (simp_all add: flood_packet_def sender_id_hex_def)

lemma flood_requests:
  assumes "coordinator_ok c" "pending c = {}" "distinct qs" "\<forall>q \<in> set qs. bytes_hex q \<notin> knows c"
    and "\<forall>q \<in> set qs. determine_handshake_role (own_id c) (bytes_hex q) = Inr RESPONDER \<and> bytes_hex q \<noteq> own_id c"
  shows "coordinator_ok (flood env a HandshakeRequest [] qs c) \<and>
    bytes_hex ` set qs \<union> waiting c \<subseteq> waiting (flood env a HandshakeRequest [] qs c) \<and>
    co_identity (flood env a HandshakeRequest [] qs c) = co_identity c"
  using assms unfolding flood_def
proof (induction qs arbitrary: c)
  case (Cons q qs)
  let ?p = "flood_packet HandshakeRequest [] q"
  have low: "py_lower (own_id c) = own_id c" by (simp add: peer_id_hex_def)
  have st: "waiting (process_packet_async env ?p a c) = insert (bytes_hex q) (waiting c) \<and> pending (process_packet_async env ?p a c) = {} \<and>
    knows (process_packet_async env ?p a c) = insert (bytes_hex q) (knows c) \<and> co_identity (process_packet_async env ?p a c) = co_identity c"
    using request_waits [OF Cons.prems(1,2), of ?p env a] Cons.prems(4,5) low by simp
  have "coordinator_ok (process_packet_async env ?p a c)" by (rule process_async_ok [OF Cons.prems(1)])
  from Cons.IH [OF this] st Cons.prems(3-5) show ?case by auto
qed simp

lemma flood_messages:
  assumes "coordinator_ok c" "distinct qs" "bytes_hex ` set qs \<subseteq> waiting c" "\<forall>q \<in> set qs. bytes_hex q \<noteq> own_id c"
    and "\<And>B. se_state B = UNINITIALIZED \<Longrightarrow> se_role B = RESPONDER \<Longrightarrow> se_identity B = co_identity c \<Longrightarrow>
      \<exists>B' m. process_handshake_message (en_lib env) (en_fresh env) pl B = (B', Inr (Some m)) \<and> se_state B' = HANDSHAKING"
  shows "coordinator_ok (flood env a NoiseHandshakeResp pl qs c) \<and>
    bytes_hex ` set qs \<union> pending c \<subseteq> pending (flood env a NoiseHandshakeResp pl qs c)"
  using assms unfolding flood_def
proof (induction qs arbitrary: c)
  case (Cons q qs)
  let ?p = "flood_packet NoiseHandshakeResp pl q"
  have low: "py_lower (own_id c) = own_id c" by (simp add: peer_id_hex_def)
  have st: "waiting c - {bytes_hex q} \<subseteq> waiting (process_packet_async env ?p a c) \<and>
      insert (bytes_hex q) (pending c) \<subseteq> pending (process_packet_async env ?p a c) \<and>
      co_identity (process_packet_async env ?p a c) = co_identity c"
    using first_message_pends [OF Cons.prems(1), of ?p env a] Cons.prems(3-5) low by simp
  have ok: "coordinator_ok (process_packet_async env ?p a c)" by (rule process_async_ok [OF Cons.prems(1)])
  have "bytes_hex ` set qs \<subseteq> waiting c - {bytes_hex q}" using Cons.prems(2,3) by auto
  then have "bytes_hex ` set qs \<subseteq> waiting (process_packet_async env ?p a c)" using st by blast
  from Cons.IH [OF ok _ this] st Cons.prems(2,4,5) show ?case by auto
qed simp


lemma first_message_accepted:
  assumes lib: "x25519_laws lib" "chacha_ok lib"
    and me: "id_x25519_private me = x" "key_pair lib x X"
    and keys: "key_pair lib ei EI" "key_pair lib er ER"
    and dh: "diffie_hellman lib er EI = Inr ee" "diffie_hellman lib x EI = Inr es"
    and B: "se_state B = UNINITIALIZED" "se_role B = RESPONDER" "se_identity B = me"
  shows "\<exists>B' m. process_handshake_message lib er EI B = (B', Inr (Some m)) \<and> se_state B' = HANDSHAKING"
proof -
  have K: "x25519_public_key_from_private lib k = Inr K" "validate_public_key lib K = Inr K" "length K = 32"
    if "key_pair lib k K" for k K using that key_pair_length by (auto simp: key_pair_def)
  have swap: "diffie_hellman lib ei Kb = Inr s" if "key_pair lib b Kb" "diffie_hellman lib b EI = Inr s" for b Kb s
    using diffie_hellman_commutes [OF lib(1) K(1) [OF keys(1)] K(1) [OF that(1)] K(2) [OF keys(1)] K(2) [OF that(1)]] that(2) by simp
  obtain hi :: handshake where hi: "hs_role hi = INITIATOR" "hs_current hi = 0" "hs_symmetric hi = mix_hash [] (NoiseSymmetricState NOISE_PROTOCOL_NAME)"
    by (rule handshake_initial [OF K(1) [OF keys(1)], of INITIATOR]) (rule that, assumption+)
  have xB: "id_x25519_private (se_identity B) = x" using B(3) me(1) by simp
  show ?thesis
    by (rule responder_answers [OF lib(2) B(1,2) K(1,2) [OF me(2), folded xB] K(1,3) [OF keys(1)] K(1,3) [OF keys(2)]
          dh(1) swap [OF keys(2) dh(1)] dh(2) [folded xB] swap [OF me(2) dh(2)] hi]) simp
qed

text \<open>
  C14. The limit on handshakes can be passed: peers whose identifiers make us the responder, as many
  as one likes, each send a \<open>HandshakeRequest\<close>, which opens a session that is not counted, and then
  a first handshake message in a packet of type \<open>NoiseHandshakeResp\<close>, whose handler does not ask
  for the limit; afterwards each of them has a handshake open with us.
\<close>
theorem handshake_limit_bypassed:
  assumes lib: "x25519_laws lib" "chacha_ok lib" "en_lib env = lib" "en_fresh env = er"
    and me: "identity_from_private_keys lib x ed = Inr me" "key_pair lib x (id_x25519_public me)"
    and keys: "key_pair lib ei EI" "key_pair lib er ER" "diffie_hellman lib er EI = Inr ee" "diffie_hellman lib x EI = Inr es"
    and peers: "distinct qs" "\<forall>q \<in> set qs. determine_handshake_role (peer_id_hex me) (bytes_hex q) = Inr RESPONDER \<and> q \<noteq> id_peer_id me"
  shows "pending_handshakes_count (flood env a NoiseHandshakeResp EI qs
    (flood env a HandshakeRequest [] qs (SessionCoordinator me storage nick rt))) \<ge> length qs"
proof -
  let ?c = "SessionCoordinator me storage nick rt"
  let ?c1 = "flood env a HandshakeRequest [] qs ?c" and ?c2 = "flood env a NoiseHandshakeResp EI qs (flood env a HandshakeRequest [] qs ?c)"
  have c: "coordinator_ok ?c" "pending ?c = {}" "knows ?c = {}" "co_identity ?c = me"
    by (simp_all add: coordinator_new_ok) (simp_all add: pending_def knows_def SessionCoordinator_def)
  have other: "\<forall>q \<in> set qs. bytes_hex q \<noteq> peer_id_hex me" using peers(2) by (simp add: peer_id_hex_def)
  have c1: "coordinator_ok ?c1 \<and> bytes_hex ` set qs \<union> waiting ?c \<subseteq> waiting ?c1 \<and> co_identity ?c1 = me"
    using flood_requests [OF c(1,2) peers(1), of env a] peers(2) other c(3,4) by auto
  have accepted: "\<exists>B' m. process_handshake_message (en_lib env) (en_fresh env) EI B = (B', Inr (Some m)) \<and> se_state B' = HANDSHAKING"
    if "se_state B = UNINITIALIZED" "se_role B = RESPONDER" "se_identity B = co_identity ?c1" for B
    using first_message_accepted [OF lib(1,2) identity_fields(1) [OF me(1)] me(2) keys that(1,2)] that(3) c1 lib(3,4) by simp
  have c2: "coordinator_ok ?c2 \<and> bytes_hex ` set qs \<union> pending ?c1 \<subseteq> pending ?c2"
    by (rule flood_messages [OF _ peers(1)]) (use c1 other accepted in auto)
  have "length qs = card (bytes_hex ` set qs)"
    using peers(1) by (simp add: card_image inj_on_def distinct_card)
  also have "\<dots> \<le> card (pending ?c2)" using c2 finite_pending by (auto intro: card_mono)
  finally show ?thesis using c2 by (simp add: pending_handshakes_card coordinator_okD(1))
qed


lemma sample_fresh: "b \<in> {1, 2, 3, 4, 7, 9} \<Longrightarrow> fresh_ok (sample_env b)"
  using sample_key_pair [of b] by (auto simp: fresh_ok_def key_pair_def sample_env_def)

lemma handshakes_end_witness:
  "\<exists>c. fst (run coordinator_step (Some alice) [(sample_env 3, Tell ''75877bb41d393b5f'' ''hi'')]) = Some c \<and>
     pending (timer_fires ''75877bb41d393b5f'' c) = pending c - {''75877bb41d393b5f''}"
proof -
  let ?c = "fst (send_direct_message (sample_env 3) ''75877bb41d393b5f'' ''hi'' alice)"
  have run: "fst (run coordinator_step (Some alice) [(sample_env 3, Tell ''75877bb41d393b5f'' ''hi'')]) = Some ?c"
    unfolding run_Cons coordinator_step.simps fst_conv run.simps(1) ..
  moreover have "list_all (\<lambda>e. fresh_ok (fst e)) [(sample_env 3, Tell ''75877bb41d393b5f'' ''hi'')]"
    using sample_fresh [of 3] by simp
  ultimately show ?thesis using handshakes_end by blast
qed

lemma handshake_limit_kept_witness:
  "pending_handshakes_count (process_packet_async (sample_env 3) (flood_packet HandshakeRequest [] [0]) None bob)
     \<le> max MAX_PENDING_HANDSHAKES (pending_handshakes_count bob)"
  by (rule handshake_limit_kept [OF coordinator_new_ok]) (simp_all add: sample_fresh)

definition many_peers :: "bytes list" where
  "many_peers = map (\<lambda>b. [0, 0, 0, 0, 0, 0, 0, b]) (map of_nat [0..<65])"

lemma many_peers: "distinct many_peers" "list_all (\<lambda>q. determine_handshake_role ''75877bb41d393b5f'' (bytes_hex q) = Inr RESPONDER \<and>
    bytes_hex q \<noteq> ''75877bb41d393b5f'') many_peers"
  "length many_peers = 65"
  by code_simp+

lemma handshake_limit_bypassed_witness:
  "pending_handshakes_count (flood (sample_env 3) None NoiseHandshakeResp (sample_key 4) many_peers
    (flood (sample_env 3) None HandshakeRequest [] many_peers bob)) \<ge> length many_peers \<and> length many_peers > MAX_PENDING_HANDSHAKES"
proof -
  have "\<forall>q \<in> set many_peers. determine_handshake_role (peer_id_hex (sample_identity 2)) (bytes_hex q) = Inr RESPONDER \<and> q \<noteq> id_peer_id (sample_identity 2)"
    unfolding sample_ids using many_peers(2) sample_ids(2) [unfolded peer_id_hex_def] by (auto simp: list_all_iff)
  from handshake_limit_bypassed [OF sample_x25519 sample_chacha_ok _ _ sample_identity _ sample_key_pair sample_key_pair sample_dh sample_dh many_peers(1) this,
      of "sample_env 3"]
  show ?thesis by (simp add: sample_env_def sample_key_pair many_peers(3) MAX_PENDING_HANDSHAKES_def)
qed

end
