(* ===== verification/Nicknames.thy ===== *)
theory Nicknames
  imports Coordinator_Props
begin

text \<open>
  The nicknames a coordinator shows: no two peers hold the same, and none holds ours, compared the
  way \<open>_is_nickname_spoofed\<close> compares them.
\<close>

definition names_ok :: "coordinator \<Rightarrow> bool" where
  "names_ok c \<longleftrightarrow>
     (\<forall>k n. dict_get (co_nicknames c) k = Some n \<longrightarrow> clean n \<noteq> [] \<and> (co_nickname c \<noteq> [] \<longrightarrow> clean n \<noteq> clean (co_nickname c))) \<and>
     (\<forall>k n k' n'. dict_get (co_nicknames c) k = Some n \<longrightarrow> dict_get (co_nicknames c) k' = Some n' \<longrightarrow> clean n = clean n' \<longrightarrow>
        clean k = clean k')"

lemma names_okI:
  assumes "\<And>k n. dict_get (co_nicknames c) k = Some n \<Longrightarrow> clean n \<noteq> [] \<and> (co_nickname c \<noteq> [] \<longrightarrow> clean n \<noteq> clean (co_nickname c))"
    and "\<And>k n k' n'. dict_get (co_nicknames c) k = Some n \<Longrightarrow> dict_get (co_nicknames c) k' = Some n' \<Longrightarrow> clean n = clean n' \<Longrightarrow> clean k = clean k'"
  shows "names_ok c"
  unfolding names_ok_def using assms by blast

lemma names_okD:
  assumes "names_ok c" "dict_get (co_nicknames c) k = Some n"
  shows "clean n \<noteq> [] \<and> (co_nickname c \<noteq> [] \<longrightarrow> clean n \<noteq> clean (co_nickname c))"
    "dict_get (co_nicknames c) k' = Some n' \<Longrightarrow> clean n = clean n' \<Longrightarrow> clean k = clean k'"
  using assms unfolding names_ok_def by blast+

text \<open>The fields the nicknames depend on, with the flag that tells whether the coordinator runs.\<close>

definition names :: "coordinator \<Rightarrow> (string, string) dict \<times> string \<times> bool" where
  "names c = (co_nicknames c, co_nickname c, co_running c)"

lemma names_ok_cong: "names c = names c' \<Longrightarrow> names_ok c \<Longrightarrow> names_ok c'"
  by (simp only: names_ok_def names_def prod.inject)

text \<open>An accepted nickname.\<close>

lemma lower_clean: "py_lower k = clean p \<Longrightarrow> clean k = clean p"
proof -
  assume "py_lower k = clean p"
  then have "clean (py_lower k) = clean p" by simp
  then show ?thesis by (simp add: clean_def py_strip_lower)
qed

lemma names_ok_set:
  assumes "names_ok c" "\<not> is_nickname_spoofed k n c"
  shows "names_ok (c\<lparr>co_nicknames := dict_set k n (co_nicknames c)\<rparr>)"
proof -
  have n: "clean n \<noteq> []" "co_nickname c \<noteq> [] \<Longrightarrow> clean n \<noteq> clean (co_nickname c)"
    using assms(2) by (auto simp: is_nickname_spoofed_def clean_def Let_def split: if_splits)
  have other: "clean k' = clean k" if "dict_get (co_nicknames c) k' = Some n'" "clean n' = clean n" for k' n'
  proof -
    have "(k', n') \<in> set (co_nicknames c)" using that(1) by (rule map_of_SomeD)
    then have "py_lower k' = clean k"
      using assms(2) that(2) by (auto simp: is_nickname_spoofed_def clean_def Let_def list_ex_iff split: if_splits)
    then show ?thesis by (rule lower_clean)
  qed
  show ?thesis
  proof -
    let ?d = "dict_set k n (co_nicknames c)"
    have get: "dict_get ?d k' = (if k' = k then Some n else dict_get (co_nicknames c) k')" for k' by (simp add: dict_simps)
    have A: "clean v \<noteq> [] \<and> (co_nickname c \<noteq> [] \<longrightarrow> clean v \<noteq> clean (co_nickname c))" if "dict_get ?d k' = Some v" for k' v
    proof (cases "k' = k")
      case True
      with that n show ?thesis by (simp add: get)
    next
      case False
      with that have "dict_get (co_nicknames c) k' = Some v" by (simp add: get)
      from names_okD(1) [OF assms(1) this] show ?thesis .
    qed
    have B: "clean k1 = clean k2" if "dict_get ?d k1 = Some v1" "dict_get ?d k2 = Some v2" "clean v1 = clean v2" for k1 v1 k2 v2
    proof (cases "k1 = k \<or> k2 = k")
      case True
      with that other [of k1 v1] other [of k2 v2] show ?thesis unfolding get by (simp split: if_splits)
    next
      case False
      with that(1,2) have "dict_get (co_nicknames c) k1 = Some v1" "dict_get (co_nicknames c) k2 = Some v2" by (simp_all add: get)
      from names_okD(2) [OF assms(1) this that(3)] show ?thesis .
    qed
    have sel: "co_nicknames (c\<lparr>co_nicknames := ?d\<rparr>) = ?d" "co_nickname (c\<lparr>co_nicknames := ?d\<rparr>) = co_nickname c" by simp_all
    show ?thesis by (rule names_okI; unfold sel) (rule A, assumption, rule B, assumption+)
  qed
qed

lemma names_ok_pop:
  assumes "names_ok c" "co_nicknames c' = dict_pop k (co_nicknames c)" "co_nickname c' = co_nickname c"
  shows "names_ok c'"
proof -
  have less: "dict_get (co_nicknames c) k' = Some v" if "dict_get (co_nicknames c') k' = Some v" for k' v
    using that unfolding assms(2) by (simp add: dict_simps del: map_of_eq_Some_iff split: if_splits)
  show ?thesis using assms(1) less unfolding names_ok_def assms(3) by blast
qed

subsection \<open>What every other operation leaves alone\<close>

named_theorems names_simps \<open>operations that leave the nicknames alone\<close>

lemma names_effects [names_simps]:
  "names (notify n c) = names c" "names (transmit x c) = names c" "names (spawn t c) = names c" "names (spawn_all ts c) = names c"
  "names (c\<lparr>co_router := r\<rparr>) = names c" "names (c\<lparr>co_reassembler := ra\<rparr>) = names c" "names (c\<lparr>co_pending := pd\<rparr>) = names c"
  "names (c\<lparr>co_storage := st\<rparr>) = names c" "names (c\<lparr>co_announced := as\<rparr>) = names c" "names (c\<lparr>co_heap := h\<rparr>) = names c"
  "names (c\<lparr>co_sessions := tab\<rparr>) = names c" "names (c\<lparr>co_timers := tab\<rparr>) = names c" "names (c\<lparr>co_tasks := ts\<rparr>) = names c"
  "names (c\<lparr>co_peer_addresses := d\<rparr>) = names c" "names (c\<lparr>co_address_to_peer := d\<rparr>) = names c"
  "names (put_session i s c) = names c" "names (schedule_handshake_timeout k i c) = names c"
  "names (cancel_handshake_timeout k c) = names c" "names (take_task m c) = names c" "names (queue_text k txt c) = names c"
  by (simp_all add: names_def notify_def transmit_def spawn_def spawn_all_def put_session_def schedule_handshake_timeout_def
      cancel_handshake_timeout_def take_task_def queue_text_def)

lemma names_sending [names_simps]:
  "names (record_sent now p c) = names c" "names (broadcast_packet env p x c) = names c"
  "names (fst (route_address env k c)) = names c" "names (send_packet_to env k p c) = names c"
  "names (fst (send_own env k mt pl c)) = names c" "names (fst (send_announce env nick c)) = names c"
  "names (fst (send_broadcast_message env txt c)) = names c"
proof -
  show rec: "names (record_sent now p c) = names c" for now p c by (simp add: record_sent_def names_simps)
  show route: "names (fst (route_address env k c)) = names c" for k c
    by (simp add: route_address_def names_simps split: option.split prod.split)
  show bc: "names (broadcast_packet env p x c) = names c" for p x by (simp add: broadcast_packet_def rec names_simps)
  show send: "names (send_packet_to env k p c) = names c" for p
    using route [of k "record_sent (en_now env) p c"] rec [of "en_now env" p c]
    by (auto simp: send_packet_to_def Let_def names_simps split: prod.split option.split)
  show "names (fst (send_own env k mt pl c)) = names c" by (simp add: send_own_def send split: option.split sum.split)
  show "names (fst (send_announce env nick c)) = names c" "names (fst (send_broadcast_message env txt c)) = names c"
    by (simp_all add: send_announce_def send_broadcast_message_def bc Let_def split: sum.split)
qed

lemma names_sessions [names_simps]:
  "names (discard_failed_session k i force c) = names c" "names (timer_fires k c) = names c" "names (expire_handshake k c) = names c"
  "names (fst (get_or_create_session k c)) = names c" "names (fst (check_contact k f c)) = names c"
  "names (on_handshake_established k i c) = names c" "names (after_reply k i c) = names c"
proof -
  show d: "names (discard_failed_session k i force c) = names c" for k i force c
    by (simp add: discard_failed_session_def Let_def names_simps)
  show "names (timer_fires k c) = names c" "names (expire_handshake k c) = names c"
    by (simp_all add: timer_fires_def expire_handshake_def d names_simps split: option.split)
  show "names (fst (get_or_create_session k c)) = names c"
    by (simp add: get_or_create_session_def names_simps split: option.split sum.split)
  show cc: "names (fst (check_contact k f c)) = names c" for k f c
    by (simp add: check_contact_def names_simps split: option.split sum.split prod.split bool.split)
  have "check_contact k f c = (c', b) \<Longrightarrow> names c' = names c" for k f c c' b using cc [of k f c] by simp
  then show e: "names (on_handshake_established k i c) = names c" for k i c
    by (auto simp: on_handshake_established_def Let_def d names_simps split: prod.split bool.split)
  show "names (after_reply k i c) = names c" by (simp add: after_reply_def e)
qed

lemma names_handshakes [names_simps]:
  "names (advance_handshake env p i c) = names c" "names (on_handshake_request env p c) = names c"
  "names (on_handshake_init env p c) = names c" "names (on_handshake_resp env p c) = names c"
  "names (deliver_encrypted env k i p c) = names c" "names (on_encrypted env p c) = names c" "names (await_session env k i p m c) = names c"
  "names (fst (send_direct_message env k txt c)) = names c"
proof -
  have g: "get_or_create_session k c = (c1, r) \<Longrightarrow> names c1 = names c" for k c c1 r using names_sessions(4) [of k c] by simp
  show adv: "names (advance_handshake env p i c) = names c" for i c
    by (simp add: advance_handshake_def Let_def names_simps split: prod.split sum.split option.split)
  show "names (on_handshake_request env p c) = names c"
    by (auto simp: on_handshake_request_def Let_def names_simps split: prod.split sum.split option.split dest: g)
  show "names (on_handshake_init env p c) = names c" "names (on_handshake_resp env p c) = names c"
    by (auto simp: on_handshake_init_def on_handshake_resp_def adv split: prod.split sum.split option.split dest: g)
  show dl: "names (deliver_encrypted env k i p c) = names c" for k i p c
    by (simp add: deliver_encrypted_def names_simps split: prod.split sum.split)
  show "names (on_encrypted env p c) = names c" "names (await_session env k i p m c) = names c"
    by (simp_all add: on_encrypted_def await_session_def dl names_simps split: option.split)
  have o: "names (fst (open_handshake env k i c)) = names c" for i c
    by (simp add: open_handshake_def names_simps split: prod.split sum.split option.split)
  show "names (fst (send_direct_message env k txt c)) = names c"
    by (auto simp: send_direct_message_def Let_def names_simps o split: prod.split sum.split dest: g)
qed

lemma names_traffic [names_simps]:
  "names (flush_stored env k send c) = names c" "names (learn_sender env p pa c) = names c" "names (handle_peer_connected env a c) = names c"
  "names (prune_caches now c) = names c" "names (on_message env p c) = names c" "names (fst (keep_discovered env k c)) = names c"
  "names (drop_peer_session k c) = names c" "names (handle_peer_disconnected env a c) = names c"
proof -
  show f: "names (flush_stored env k send c) = names c" for k send c by (simp add: flush_stored_def names_simps split: prod.split)
  show "names (learn_sender env p pa c) = names c" by (simp add: learn_sender_def Let_def names_simps split: option.split)
  show "names (handle_peer_connected env a c) = names c" "names (prune_caches now c) = names c" "names (on_message env p c) = names c"
    by (simp_all add: handle_peer_connected_def prune_caches_def on_message_def Let_def names_simps f split: option.split)
  show k: "names (fst (keep_discovered env k c)) = names c" for k c by (simp add: keep_discovered_def names_simps split: option.split)
  show d: "names (drop_peer_session k c) = names c" for k c by (simp add: drop_peer_session_def Let_def names_simps split: option.split)
  have "keep_discovered env k c = (c1, b) \<Longrightarrow> names c1 = names c" for k c c1 b using k [of k c] by simp
  then show "names (handle_peer_disconnected env a c) = names c"
    by (auto simp: handle_peer_disconnected_def Let_def names_simps d split: option.split prod.split)
qed

lemma names_stored: "store_packet env k p c = Some (c', r) \<Longrightarrow> names c' = names c"
  by (auto simp: store_packet_def names_simps split: option.splits prod.splits)

lemma names_incoming: "handle_incoming_packet env p a c = Some (c', r) \<Longrightarrow> names c' = names c"
  by (auto simp: handle_incoming_packet_def Let_def names_simps dest!: names_stored
      split: prod.splits sum.splits option.splits if_splits)

lemma names_server_data: "handle_server_data_received env raw client c = Some (c', r) \<Longrightarrow> names c' = names c"
  by (auto simp: handle_server_data_received_def names_simps dest!: names_incoming
      split: prod.splits sum.splits option.splits if_splits)

lemma names_relay:
  "relay_fallback env p t x c = Some c' \<Longrightarrow> names c' = names c" "relay_now env p u x c = Some c' \<Longrightarrow> names c' = names c"
  "relay_packet_async env p u x c = Some c' \<Longrightarrow> names c' = names c"
proof -
  show fb: "relay_fallback env p t x c = Some c' \<Longrightarrow> names c' = names c" for t x c c'
    by (auto simp: relay_fallback_def names_simps dest!: names_stored split: if_splits)
  have r: "route_address env k c = (c1, z) \<Longrightarrow> names c1 = names c" for k c1 z using names_sending(3) [of env k c] by simp
  show now: "relay_now env p u x c = Some c' \<Longrightarrow> names c' = names c" for u
    by (auto simp: relay_now_def names_simps dest!: fb r split: if_splits option.splits prod.splits)
  show "relay_packet_async env p u x c = Some c' \<Longrightarrow> names c' = names c"
    by (auto simp: relay_packet_async_def names_simps dest!: now split: if_splits)
qed


subsection \<open>What changes them\<close>

lemma names_ok_updates:
  "names_ok (c\<lparr>co_announced := as\<rparr>) = names_ok c" "names_ok (notify n c) = names_ok c" "names_ok (spawn_all ts c) = names_ok c"
  "names_ok (c\<lparr>co_peer_addresses := d\<rparr>) = names_ok c" "names_ok (c\<lparr>co_address_to_peer := d\<rparr>) = names_ok c"
  "names_ok (flush_stored env k send c) = names_ok c"
  by (rule iffI; erule names_ok_cong [rotated]; simp add: names_simps)+

lemma names_announce: "names_ok c \<Longrightarrow> names_ok (on_announce env p c)"
  by (simp add: on_announce_def Let_def names_ok_updates names_ok_set)

lemma names_learn: "names_ok c \<Longrightarrow> names_ok (learn_name k n c)"
  by (simp add: learn_name_def names_ok_set)

lemma names_rebind: "names_ok c \<Longrightarrow> names_ok (rebind_address env p c)"
  by (auto simp: rebind_address_def Let_def names_ok_updates intro: names_ok_pop split: option.split)

lemma names_discovered: "names_ok c \<Longrightarrow> names_ok (handle_peer_discovered env p c)"
  by (simp add: handle_peer_discovered_def Let_def names_ok_updates names_learn names_rebind)

lemma names_process: "names_ok c \<Longrightarrow> names_ok (process_packet_async env p a c)"
proof -
  assume ok: "names_ok c"
  have l: "names_ok (learn_sender env p a c)" by (rule names_ok_cong [OF _ ok]) (simp add: names_simps)
  then have "names_ok (dispatch_packet env p (learn_sender env p a c))"
    by (cases "message_type p") (auto simp: dispatch_packet_def names_announce names_simps intro: names_ok_cong [OF _ l])
  with ok show ?thesis by (simp add: process_packet_async_def)
qed

lemma names_task:
  assumes "names_ok c" "run_task env t c = Some c'"
  shows "names_ok c'"
proof (cases t)
  case (Process p a)
  with assms show ?thesis by (auto simp: names_process)
qed (use assms(2) in \<open>auto simp: names_simps dest!: names_relay intro: names_ok_cong [OF _ assms(1)]\<close>)

definition tidy :: "coordinator option \<Rightarrow> bool" where
  "tidy x \<longleftrightarrow> (case x of None \<Rightarrow> True | Some c \<Rightarrow> names_ok c)"

lemma tidy_step: "tidy x \<Longrightarrow> tidy (fst (coordinator_step x e))"
proof (cases x)
  case (Some c)
  assume "tidy x"
  then have ok: "names_ok c" using Some by (simp add: tidy_def)
  obtain env ev where e: "e = (env, ev)" by (cases e)
  note keep = names_ok_cong [OF _ ok]
  have taken: "names_ok (take_task n c)" for n by (rule keep) (simp add: names_simps)
  show ?thesis
  proof (cases ev)
    case (Run_Task n)
    with names_task [OF taken] ok show ?thesis unfolding Some e Run_Task by (auto simp: tidy_def split: option.split)
  next
    case (Fail_Task n)
    have "fail_task env t (take_task n c) = Some c' \<Longrightarrow> names_ok c'" for t c'
      by (cases t) (auto simp: names_simps dest!: names_relay intro: keep)
    with Fail_Task ok show ?thesis unfolding Some e by (auto simp: tidy_def split: option.split)
  next
    case (Packet_Arrives p a)
    then show ?thesis unfolding Some e by (auto simp: tidy_def dest!: names_incoming intro: keep split: option.split)
  next
    case (Server_Data raw client)
    then show ?thesis unfolding Some e by (auto simp: tidy_def dest!: names_server_data intro: keep split: option.split)
  qed (use ok in \<open>auto simp: Some e tidy_def names_simps names_discovered intro: keep\<close>)
qed (simp add: tidy_def)

interpretation nicknames: machine coordinator_step tidy
  by unfold_locales (rule tidy_step)

text \<open>
  C15. Nobody shares a nickname: whatever announcements and discoveries came before, two entries of
  the table of nicknames that agree up to case and surrounding white space belong to one peer, no
  entry is blank, and none is our own nickname.
\<close>
theorem nicknames_unique:
  assumes "fst (run coordinator_step (Some (SessionCoordinator ident storage nick rt)) evs) = Some c"
    and "dict_get (co_nicknames c) k = Some n"
  shows "clean n \<noteq> [] \<and> (co_nickname c = [] \<or> clean n \<noteq> clean (co_nickname c)) \<and>
    (dict_get (co_nicknames c) k' = Some n' \<and> clean n' = clean n \<longrightarrow> clean k' = clean k)"
proof -
  have "names_ok (SessionCoordinator ident storage nick rt)" by (simp add: names_ok_def SessionCoordinator_def)
  then have "names_ok c"
    using nicknames.run_inv [of "Some (SessionCoordinator ident storage nick rt)" evs] assms(1) by (simp add: tidy_def)
  from names_okD [OF this assms(2)] show ?thesis by metis
qed

text \<open>A peer that is found under the name of another keeps its place in the tables but not the name.\<close>

definition named_peer :: "string \<Rightarrow> string \<Rightarrow> string \<Rightarrow> found_peer" where
  "named_peer a pid name = \<lparr>fp_address = a, fp_peer_id = pid, fp_name = name, fp_nickname = [], fp_rssi = None\<rparr>"

lemma nicknames_unique_witness:
  "\<exists>c. fst (run coordinator_step (Some alice) [(sample_env 3, Peer_Found (named_peer ''x'' ''aa'' ''Carol'')),
       (sample_env 3, Peer_Found (named_peer ''y'' ''bb'' ''carol ''))]) = Some c \<and>
     clean ''Carol'' \<noteq> [] \<and> clean ''Carol'' \<noteq> clean (co_nickname c) \<and> dict_get (co_nicknames c) ''bb'' = None"
proof -
  let ?c = "handle_peer_discovered (sample_env 3) (named_peer ''y'' ''bb'' ''carol '') (handle_peer_discovered (sample_env 3) (named_peer ''x'' ''aa'' ''Carol'') alice)"
  have run: "fst (run coordinator_step (Some alice) [(sample_env 3, Peer_Found (named_peer ''x'' ''aa'' ''Carol'')),
       (sample_env 3, Peer_Found (named_peer ''y'' ''bb'' ''carol ''))]) = Some ?c"
    unfolding run_Cons coordinator_step.simps fst_conv run.simps(1) ..
  have strings: "py_lower ''aa'' = ''aa''" "py_lower ''bb'' = ''bb''" "py_lower ''alice'' = ''alice''" "py_lower ''Carol'' = ''carol''"
    "py_lower ''carol'' = ''carol''" "py_lower ''72cd6e8422c407fb'' = ''72cd6e8422c407fb''" "py_strip ''aa'' = ''aa''" "py_strip ''bb'' = ''bb''"
    "py_strip ''alice'' = ''alice''" "py_strip ''Carol'' = ''Carol''" "py_strip ''carol '' = ''carol''" by code_simp+
  have "co_nicknames ?c = [(''aa'', ''Carol'')] \<and> co_nickname ?c = ''alice''"
    by (simp add: handle_peer_discovered_def SessionCoordinator_def sample_ids named_peer_def found_name_def learn_name_def
        rebind_address_def is_nickname_spoofed_def truthy_def notify_def strings Let_def)
  then have "dict_get (co_nicknames ?c) ''aa'' = Some ''Carol''" "co_nickname ?c \<noteq> []" "dict_get (co_nicknames ?c) ''bb'' = None" by simp_all
  with nicknames_unique [OF run this(1)] run show ?thesis by blast
qed

end
