(* ===== verification/Lan_Transport.thy ===== *)
theory Lan_Transport
  imports Framing Discovery
begin

text \<open>
  \<open>LANTransport\<close> of \<open>network/transport.py\<close>, \<open>LANServer\<close> of \<open>network/server.py\<close> and the state of
  \<open>NetworkAdapterManager\<close> of \<open>network/adapter.py\<close>: the registry of TCP connections, how two
  connections with one peer are reduced to one, and the life of the services. A connection is an
  object that tables, tasks and callbacks share, so connections live in a heap and the tables hold
  indices into it. What the transport tells its user is recorded in the order in which it happens.
\<close>

definition MAX_CONCURRENT_CONNECTIONS :: nat where "MAX_CONCURRENT_CONNECTIONS = 32"

datatype TransportState =
    OFFLINE | CHECKING | READY | SCANNING | PEER_FOUND | CONNECTING | CONNECTED | ERROR | UNAVAILABLE | DISABLED

text \<open>A connection with what the transport attached to it: its own callbacks, and the peer's identifier.\<close>

record lan_link =
  ln_conn :: connection
  ln_wired :: bool
  ln_peer_id :: "string option"

text \<open>The callbacks of \<open>BaseTransport\<close>.\<close>

datatype lan_call =
    State_Changed TransportState | Found_Peer lan_peer | Link_Up string | Link_Down string
  | Packet_In packet string | Lan_Error string

text \<open>
  A background task: \<open>close()\<close> of a connection, or the pause and the return of the services. A
  \<open>close()\<close> waits for its socket before it calls \<open>on_disconnected\<close>; the flag of the rest of it tells
  whether it runs in a background task, which \<open>stop\<close> cancels, or in the read loop.
\<close>

datatype lan_task = Close_Link nat | Closed_Link nat bool | Pause_Services | Resume_Services

record lan =
  la_peer_id :: string
  la_nickname :: string
  la_max :: nat
  la_info :: network_info
  la_discovery :: discovery
  la_heap :: "lan_link list"
  la_connections :: "(string, nat) dict"
  la_peer_connections :: "(string, nat) dict"
  la_address_key :: "(string, string) dict"
  la_accepted :: "(string, nat) dict"
  la_listening :: bool
  la_bound_port :: int
  la_running :: bool
  la_state :: TransportState
  la_error :: "string option"
  la_tasks :: "lan_task list"
  la_calls :: "lan_call list"

definition LANTransport :: "string \<Rightarrow> string \<Rightarrow> nat \<Rightarrow> network_info \<Rightarrow> discovery \<Rightarrow> lan" where
  "LANTransport peer_id nick max_connections info d =
     \<lparr>la_peer_id = peer_id, la_nickname = nick, la_max = max_connections, la_info = info, la_discovery = d, la_heap = [],
      la_connections = [], la_peer_connections = [], la_address_key = [], la_accepted = [], la_listening = False,
      la_bound_port = 0, la_running = False, la_state = OFFLINE, la_error = None, la_tasks = [], la_calls = []\<rparr>"

definition link_at :: "lan \<Rightarrow> nat \<Rightarrow> connection" where
  "link_at t i = ln_conn (la_heap t ! i)"

definition link_ready :: "lan \<Rightarrow> nat \<Rightarrow> bool" where
  "link_ready t i = conn_is_ready (link_at t i)"

definition put_link :: "nat \<Rightarrow> connection \<Rightarrow> lan \<Rightarrow> lan" where
  "put_link i conn t = t\<lparr>la_heap := (la_heap t)[i := (la_heap t ! i)\<lparr>ln_conn := conn\<rparr>]\<rparr>"

definition lan_call :: "lan_call \<Rightarrow> lan \<Rightarrow> lan" where
  "lan_call x t = t\<lparr>la_calls := la_calls t @ [x]\<rparr>"

definition lan_spawn :: "lan_task \<Rightarrow> lan \<Rightarrow> lan" where
  "lan_spawn x t = t\<lparr>la_tasks := la_tasks t @ [x]\<rparr>"

definition lan_set_state :: "TransportState \<Rightarrow> lan \<Rightarrow> lan" where
  "lan_set_state s t = (if la_state t = s then t else lan_call (State_Changed s) (t\<lparr>la_state := s\<rparr>))"

text \<open>\<open>connected_peers\<close>: one address for each connection that is ready.\<close>

fun ready_addresses :: "lan \<Rightarrow> nat list \<Rightarrow> (string \<times> nat) list \<Rightarrow> string list" where
  "ready_addresses t seen [] = []"
| "ready_addresses t seen ((a, i) # es) =
     (if link_ready t i \<and> i \<notin> set seen then a # ready_addresses t (i # seen) es else ready_addresses t seen es)"

definition connected_peers :: "lan \<Rightarrow> string list" where
  "connected_peers t = ready_addresses t [] (la_connections t)"

definition discovered_peers :: "lan \<Rightarrow> (string, lan_peer) dict" where
  "discovered_peers t = di_peers (la_discovery t)"

definition is_scanning :: "lan \<Rightarrow> bool" where
  "is_scanning t = (di_running (la_discovery t) \<and> is_listening (la_discovery t))"

definition lan_peer_discovered :: "lan_peer \<Rightarrow> lan \<Rightarrow> lan" where
  "lan_peer_discovered p t = lan_call (Found_Peer p) (if la_state t = SCANNING then lan_set_state PEER_FOUND t else t)"

subsection \<open>Keys\<close>

text \<open>The part of an address before its port.\<close>

definition address_ip :: "string \<Rightarrow> string" where
  "address_ip a = py_before (CHR '':'') a"

definition get_peer_key :: "string \<Rightarrow> string option \<Rightarrow> lan \<Rightarrow> string" where
  "get_peer_key address peer_id t =
     (case peer_id of
        Some (x # xs) \<Rightarrow> ''peer:'' @ py_lower (x # xs)
      | _ \<Rightarrow>
          (case Option.bind (dict_get (discovered_peers t) address) (\<lambda>p. if lp_peer_id p = [] then None else Some p) of
             Some p \<Rightarrow> ''peer:'' @ py_lower (lp_peer_id p)
           | None \<Rightarrow>
               if \<not> py_startswith (address_ip address) ''127.''
               then (case List.find (\<lambda>e. lp_ip (snd e) = address_ip address \<and> lp_peer_id (snd e) \<noteq> []) (discovered_peers t) of
                       Some e \<Rightarrow> ''peer:'' @ py_lower (lp_peer_id (snd e))
                     | None \<Rightarrow> ''ip:'' @ address_ip address)
               else ''addr:'' @ address))"

definition get_remote_id :: "string \<Rightarrow> string \<Rightarrow> string" where
  "get_remote_id peer_key address = (if py_startswith peer_key ''peer:'' then drop 5 peer_key else address)"

text \<open>Which of two connections with one peer stays: the peer with the lower identifier keeps the one it opened.\<close>

definition should_keep_outbound :: "string \<Rightarrow> string \<Rightarrow> lan \<Rightarrow> bool" where
  "should_keep_outbound remote_id remote_addr t =
     (let local_id = py_lower (la_peer_id t) in
      if local_id \<noteq> [] \<and> remote_id \<noteq> [] \<and> local_id \<noteq> remote_id then local_id < py_lower remote_id
      else endpoint_of (if ni_local_ip (la_info t) = [] then ''0.0.0.0'' else ni_local_ip (la_info t)) (la_bound_port t) < remote_addr)"

definition find_existing_connection :: "string \<Rightarrow> lan \<Rightarrow> nat option" where
  "find_existing_connection address t =
     (let live = (\<lambda>x. Option.bind x (\<lambda>i. if link_ready t i then Some i else None)) in
      case live (dict_get (la_connections t) address) of
        Some i \<Rightarrow> Some i
      | None \<Rightarrow>
          (case live (dict_get (la_peer_connections t) (get_peer_key address None t)) of
             Some i \<Rightarrow> Some i
           | None \<Rightarrow>
               if py_startswith (address_ip address) ''127.'' then None
               else map_option snd (List.find (\<lambda>e. link_ready t (snd e) \<and>
                      address_ip (peer_address (link_at t (snd e))) = address_ip address) (la_connections t))))"

subsection \<open>The registry\<close>

definition remove_connection_references :: "nat \<Rightarrow> lan \<Rightarrow> lan" where
  "remove_connection_references i t =
     (let keys = map fst (filter (\<lambda>e. snd e = i) (la_connections t))
      in t\<lparr>la_connections := dict_pop_all keys (la_connections t), la_address_key := dict_pop_all keys (la_address_key t),
           la_peer_connections := filter (\<lambda>e. snd e \<noteq> i) (la_peer_connections t)\<rparr>)"

text \<open>\<open>SCANNING\<close> or \<open>READY\<close>, as discovery runs or not.\<close>

definition rest_state :: "lan \<Rightarrow> TransportState" where
  "rest_state t = (if di_running (la_discovery t) then SCANNING else READY)"

definition register_link :: "string \<Rightarrow> string \<Rightarrow> nat \<Rightarrow> lan \<Rightarrow> lan" where
  "register_link address peer_key i t =
     t\<lparr>la_connections := dict_set address i (la_connections t), la_peer_connections := dict_set peer_key i (la_peer_connections t),
       la_address_key := dict_set address peer_key (la_address_key t)\<rparr>"

definition lan_inbound_connection :: "nat \<Rightarrow> lan \<Rightarrow> lan" where
  "lan_inbound_connection i t =
     (let address = peer_address (link_at t i); peer_key = get_peer_key address None t;
          refused = lan_spawn (Close_Link i) t;
          accept = (\<lambda>t. lan_call (Link_Up address) (lan_set_state CONNECTED (register_link address peer_key i
                       (t\<lparr>la_heap := (la_heap t)[i := (la_heap t ! i)\<lparr>ln_wired := True\<rparr>]\<rparr>))))
      in if length (la_connections t) \<ge> la_max t then refused
         else case find_existing_connection address t of
                None \<Rightarrow> accept t
              | Some j \<Rightarrow>
                  if j = i then accept t
                  else if is_inbound (link_at t j) then refused
                  else if should_keep_outbound (get_remote_id peer_key address) address t then refused
                  else accept (remove_connection_references j (lan_spawn (Close_Link j) t)))"

definition is_inbound_connection :: "string \<Rightarrow> lan \<Rightarrow> bool" where
  "is_inbound_connection address t =
     (case dict_get (la_connections t) address of None \<Rightarrow> False | Some i \<Rightarrow> is_inbound (link_at t i))"

definition lan_peer_disconnected :: "string \<Rightarrow> lan \<Rightarrow> lan" where
  "lan_peer_disconnected address t =
     (let t1 = (case dict_get (la_connections t) address of
                  Some i \<Rightarrow> remove_connection_references i t
                | None \<Rightarrow> t\<lparr>la_address_key := dict_pop address (la_address_key t)\<rparr>);
          t2 = (if connected_peers t1 = [] then lan_set_state (rest_state t1) t1 else t1)
      in lan_call (Link_Down address) t2)"

definition lan_packet_received :: "packet \<Rightarrow> string \<Rightarrow> lan \<Rightarrow> lan" where
  "lan_packet_received p address t =
     (let sender = sender_id_hex p; peer_key = ''peer:'' @ py_lower sender;
          conn = dict_get (la_connections t) address;
          t1 = (case conn of
                  None \<Rightarrow> t
                | Some i \<Rightarrow> t\<lparr>la_heap := (la_heap t)[i := (la_heap t ! i)\<lparr>ln_peer_id := Some sender\<rparr>]\<rparr>);
          t2 = t1\<lparr>la_address_key := dict_set address peer_key (la_address_key t1)\<rparr>;
          t3 = (case conn of
                  None \<Rightarrow> t2
                | Some i \<Rightarrow>
                    (case Option.bind (dict_get (la_peer_connections t2) peer_key)
                            (\<lambda>e. if e \<noteq> i \<and> link_ready t2 e \<and> link_ready t2 i then Some e else None) of
                       Some e \<Rightarrow>
                         let stays = (is_inbound (link_at t2 e) \<noteq> should_keep_outbound sender address t2);
                             to_keep = (if stays then e else i); to_drop = (if stays then i else e);
                             t' = remove_connection_references to_drop (lan_spawn (Close_Link to_drop) t2)
                         in t'\<lparr>la_peer_connections := dict_set peer_key to_keep (la_peer_connections t')\<rparr>
                     | None \<Rightarrow>
                         if link_ready t2 i then t2\<lparr>la_peer_connections := dict_set peer_key i (la_peer_connections t2)\<rparr> else t2))
      in lan_call (Packet_In p address) t3)"


text \<open>The end of \<open>close()\<close>: the callback of the server's table first, then ours.\<close>

definition closed_callback :: "nat \<Rightarrow> lan \<Rightarrow> lan" where
  "closed_callback i t =
     (let address = peer_address (link_at t i);
          t1 = (if is_inbound (link_at t i) then t\<lparr>la_accepted := dict_pop address (la_accepted t)\<rparr> else t)
      in if ln_wired (la_heap t1 ! i) then lan_peer_disconnected address t1 else t1)"

text \<open>\<open>close()\<close> that runs to its end, and one that waits for the socket before the callback.\<close>

definition close_now :: "nat \<Rightarrow> lan \<Rightarrow> lan" where
  "close_now i t = (if is_connected (link_at t i) then closed_callback i (put_link i (conn_close (link_at t i)) t) else t)"

definition close_begins :: "bool \<Rightarrow> nat \<Rightarrow> lan \<Rightarrow> lan" where
  "close_begins background i t =
     (if is_connected (link_at t i) then lan_spawn (Closed_Link i background) (put_link i (conn_close (link_at t i)) t) else t)"

text \<open>A chunk for the read loop of a connection; a loop that ends closes the connection.\<close>

definition lan_read :: "nat \<Rightarrow> read_result \<Rightarrow> lan \<Rightarrow> lan" where
  "lan_read i res t =
     (let old = link_at t i; new = read_iteration old res in
      if \<not> is_connected new then close_begins False i t
      else if ln_wired (la_heap t ! i)
      then fold (\<lambda>p. lan_packet_received p (peer_address old)) (drop (length (received old)) (received new)) (put_link i new t)
      else put_link i new t)"

subsection \<open>The TCP server\<close>

text \<open>\<open>_handle_client\<close>; a socket without a remote address is dropped.\<close>

definition server_accepts :: "(string \<times> int) option \<Rightarrow> lan \<Rightarrow> lan" where
  "server_accepts peername t =
     (case peername of
        None \<Rightarrow> t
      | Some (host, port) \<Rightarrow>
          if length (la_accepted t) \<ge> la_max t then t
          else let address = endpoint_of host port; i = length (la_heap t)
            in lan_inbound_connection i
                 (t\<lparr>la_heap := la_heap t @ [\<lparr>ln_conn = LANConnection address True True, ln_wired = False, ln_peer_id = None\<rparr>],
                    la_accepted := dict_set address i (la_accepted t)\<rparr>))"

text \<open>\<open>bound\<close>: the port the socket got, or the exception of the second attempt.\<close>

definition server_start :: "exn + int \<Rightarrow> lan \<Rightarrow> lan \<times> (exn + unit)" where
  "server_start bound t =
     (if la_listening t then (t, Inr ())
      else case bound of
             Inl e \<Rightarrow> (t, Inl e)
           | Inr port \<Rightarrow> (t\<lparr>la_bound_port := port, la_listening := True\<rparr>, Inr ()))"

definition server_stop :: "lan \<Rightarrow> lan" where
  "server_stop t =
     (if \<not> la_listening t then t
      else fold close_now (map snd (la_accepted t)) (t\<lparr>la_listening := False, la_accepted := []\<rparr>))"

subsection \<open>The network adapter\<close>

definition detect_network_info :: "string \<Rightarrow> string option \<Rightarrow> string option \<Rightarrow> int \<Rightarrow> bool \<Rightarrow> network_info" where
  "detect_network_info local_ip ssid wifi_state port active =
     (let usable = \<not> (py_startswith local_ip ''127.'' \<or> local_ip \<in> {''0.0.0.0'', []});
          wifi = (usable \<and> wifi_state = Some ''connected'' \<and> ssid \<noteq> None \<and> ssid \<noteq> Some [])
      in \<lparr>ni_status = (if usable then ''Connected'' else ''Disconnected''),
          ni_interface = (if wifi then ''Wi-Fi'' else if usable then ''Ethernet'' else ''Unavailable''),
          ni_ssid = (case (wifi, ssid) of (True, Some s) \<Rightarrow> s | _ \<Rightarrow> ''unavailable''),
          ni_local_ip = local_ip, ni_listening_address = ''0.0.0.0'', ni_listening_port = port, ni_discovery_active = active\<rparr>)"

definition advertised_ssid :: "network_info \<Rightarrow> string" where
  "advertised_ssid info = (if ni_ssid info \<noteq> [] \<and> py_lower (ni_ssid info) \<noteq> ''unavailable'' then ni_ssid info else [])"

definition lan_fails :: "string \<Rightarrow> TransportState \<Rightarrow> lan \<Rightarrow> lan" where
  "lan_fails message s t =
     (let t1 = lan_set_state s t in lan_call (Lan_Error message) (t1\<lparr>la_error := Some message\<rparr>))"

definition lan_network_changed :: "network_info \<Rightarrow> lan \<Rightarrow> lan" where
  "lan_network_changed info t =
     (if \<not> la_running t \<and> la_state t = OFFLINE then t
      else let t1 = t\<lparr>la_discovery := (la_discovery t)\<lparr>di_ssid := advertised_ssid info\<rparr>\<rparr> in
        if \<not> network_is_connected info then lan_spawn Pause_Services (lan_fails ''Local network is disconnected.'' UNAVAILABLE t1)
        else if la_state t1 \<in> {UNAVAILABLE, ERROR} then lan_spawn Resume_Services t1
        else lan_call (State_Changed (la_state t1)) t1)"

text \<open>One round of the monitor: \<open>seen\<close> is what the host reports now.\<close>

definition adapter_poll :: "network_info \<Rightarrow> lan \<Rightarrow> lan" where
  "adapter_poll seen t =
     (if ni_local_ip seen \<noteq> ni_local_ip (la_info t) \<or> ni_status seen \<noteq> ni_status (la_info t)
         \<or> ni_interface seen \<noteq> ni_interface (la_info t) \<or> ni_ssid seen \<noteq> ni_ssid (la_info t)
      then lan_network_changed seen (t\<lparr>la_info := seen\<rparr>) else t)"

definition lan_is_available :: "lan \<Rightarrow> bool" where
  "lan_is_available t = network_is_connected (la_info t)"

subsection \<open>The life of the services\<close>

definition stop_lan_discovery :: "lan \<Rightarrow> lan" where
  "stop_lan_discovery t = t\<lparr>la_discovery := discovery_stop (la_discovery t)\<rparr>"

definition pause_lan_services :: "lan \<Rightarrow> lan" where
  "pause_lan_services t = server_stop (stop_lan_discovery t)"

definition start_lan_discovery :: "bool \<Rightarrow> bool \<Rightarrow> lan \<Rightarrow> lan \<times> (exn + unit)" where
  "start_lan_discovery send_ok listen_ok t =
     (case discovery_start send_ok listen_ok (la_discovery t) of (d, r) \<Rightarrow> (t\<lparr>la_discovery := d\<rparr>, r))"

definition announce_port :: "lan \<Rightarrow> lan" where
  "announce_port t = t\<lparr>la_discovery := update_listening_port (la_bound_port t) (la_discovery t)\<rparr>"

definition resume_lan_services :: "exn + int \<Rightarrow> bool \<Rightarrow> bool \<Rightarrow> lan \<Rightarrow> lan" where
  "resume_lan_services bound send_ok listen_ok t =
     (case (if la_listening t then (t, Inr ()) else server_start bound t) of
        (t1, Inl e) \<Rightarrow> lan_fails ''LAN recovery failed'' ERROR t1
      | (t1, Inr _) \<Rightarrow>
          let t2 = (if la_listening t then t1 else announce_port t1) in
          (case (if di_running (la_discovery t2) then (t2, Inr ()) else start_lan_discovery send_ok listen_ok t2) of
             (t3, Inl e) \<Rightarrow> lan_fails ''LAN recovery failed'' ERROR t3
           | (t3, Inr _) \<Rightarrow> lan_set_state SCANNING (t3\<lparr>la_running := True, la_error := None\<rparr>)))"

definition release_partial_start :: "lan \<Rightarrow> lan" where
  "release_partial_start t = server_stop (stop_lan_discovery t)"

definition lan_start :: "network_info \<Rightarrow> exn + int \<Rightarrow> bool \<Rightarrow> bool \<Rightarrow> lan \<Rightarrow> lan \<times> (exn + unit)" where
  "lan_start info bound send_ok listen_ok t =
     (if la_running t then (t, Inr ())
      else
        let t1 = (lan_set_state CHECKING (t\<lparr>la_running := True\<rparr>))\<lparr>la_error := None, la_info := info\<rparr>;
            t2 = t1\<lparr>la_discovery := (la_discovery t1)\<lparr>di_ssid := advertised_ssid info\<rparr>\<rparr>
        in if \<not> network_is_connected info
           then (lan_fails ''Local network is disconnected.'' UNAVAILABLE (t2\<lparr>la_running := False\<rparr>), Inl RuntimeError)
           else case server_start bound t2 of
                  (t3, Inl e) \<Rightarrow> (lan_fails ''LAN server failed'' ERROR (release_partial_start (t3\<lparr>la_running := False\<rparr>)), Inl RuntimeError)
                | (t3, Inr _) \<Rightarrow>
                    (case start_lan_discovery send_ok listen_ok (announce_port t3) of
                       (t4, Inl e) \<Rightarrow>
                         (lan_fails ''LAN discovery failed'' ERROR (release_partial_start (t4\<lparr>la_running := False\<rparr>)), Inl RuntimeError)
                     | (t4, Inr _) \<Rightarrow> (lan_set_state SCANNING t4, Inr ())))"

text \<open>The set of connections is closed in the order of the table; its order in Python is not fixed.\<close>

definition lan_stop :: "lan \<Rightarrow> lan" where
  "lan_stop t =
     (let t1 = (lan_set_state OFFLINE (t\<lparr>la_running := False\<rparr>))\<lparr>la_error := None,
                  la_tasks := filter (\<lambda>x. case x of Closed_Link i background \<Rightarrow> \<not> background | _ \<Rightarrow> False) (la_tasks t)\<rparr>;
          t2 = server_stop (stop_lan_discovery t1);
          conns = rev (remdups (rev (map snd (la_connections t2))))
      in fold close_now conns (t2\<lparr>la_connections := [], la_peer_connections := [], la_address_key := []\<rparr>))"

definition lan_start_discovery :: "bool \<Rightarrow> bool \<Rightarrow> lan \<Rightarrow> lan \<times> (exn + unit)" where
  "lan_start_discovery send_ok listen_ok t =
     (case start_lan_discovery send_ok listen_ok t of
        (t1, Inl e) \<Rightarrow> (t1, Inl e)
      | (t1, Inr _) \<Rightarrow> (lan_set_state SCANNING t1, Inr ()))"

definition lan_stop_discovery :: "lan \<Rightarrow> lan" where
  "lan_stop_discovery t =
     (let t1 = stop_lan_discovery t in if la_state t1 \<in> {SCANNING, PEER_FOUND} then lan_set_state READY t1 else t1)"


subsection \<open>Connecting, sending and closing\<close>

text \<open>The host and the port of an address; without a port the server's own is meant.\<close>

definition address_port :: "string \<Rightarrow> exn + int option" where
  "address_port address =
     (if CHR '':'' \<notin> set address then Inr None
      else case py_int_str (drop (Suc (length (address_ip address))) address) of
             None \<Rightarrow> Inl ValueError
           | Some port \<Rightarrow> Inr (Some port))"

definition own_endpoint :: "string list \<Rightarrow> string \<Rightarrow> lan \<Rightarrow> bool" where
  "own_endpoint local_ips address t \<longleftrightarrow>
     (case address_port address of
        Inl e \<Rightarrow> True
      | Inr port \<Rightarrow>
          la_bound_port t \<noteq> 0 \<and> (port = None \<or> port = Some (la_bound_port t)) \<and> is_local_ip local_ips (py_strip (address_ip address)))"

text \<open>
  \<open>connect_peer\<close> up to the opening of the socket: an existing connection, or the new one that is to
  be opened.
\<close>

datatype dial = Have nat | Opening nat

definition connect_begin :: "string list \<Rightarrow> string \<Rightarrow> lan \<Rightarrow> lan \<times> (exn + dial)" where
  "connect_begin local_ips address t =
     (if own_endpoint local_ips address t then (t, Inl ValueError)
      else if la_state t \<in> {UNAVAILABLE, DISABLED, OFFLINE, ERROR} then (t, Inl RuntimeError)
      else let t1 = lan_set_state CONNECTING t in
        case find_existing_connection address t1 of
          Some i \<Rightarrow>
            let t2 = lan_set_state CONNECTED t1
            in (register_link address (get_peer_key address None t2) i t2, Inr (Have i))
        | None \<Rightarrow>
            if length (la_connections t1) \<ge> la_max t1
            then (lan_set_state (if la_connections t1 \<noteq> [] then CONNECTED else READY) t1, Inl RuntimeError)
            else let i = length (la_heap t1);
                     t2 = t1\<lparr>la_heap := la_heap t1 @ [\<lparr>ln_conn = LANConnection address False False, ln_wired = True, ln_peer_id = None\<rparr>]\<rparr>
                 in (register_link address (get_peer_key address None t2) i t2, Inr (Opening i)))"

text \<open>The rest, once the socket was opened or failed with \<open>opened\<close>.\<close>

definition connect_ends :: "exn option \<Rightarrow> string \<Rightarrow> nat \<Rightarrow> lan \<Rightarrow> lan \<times> (exn + nat)" where
  "connect_ends opened address i t =
     (case conn_connect (\<exists>port. address_port address = Inr (Some port)) opened (link_at t i) of
        (conn, Inr _) \<Rightarrow> (lan_call (Link_Up address) (lan_set_state CONNECTED (put_link i conn t)), Inr i)
      | (conn, Inl e) \<Rightarrow>
          let t1 = remove_connection_references i (put_link i conn t) in (lan_set_state (rest_state t1) t1, Inl RuntimeError))"

definition disconnect_peer :: "string \<Rightarrow> lan \<Rightarrow> lan" where
  "disconnect_peer address t =
     (let t1 = (case dict_get (la_connections t) address of
                  None \<Rightarrow> t
                | Some i \<Rightarrow> close_now i (remove_connection_references i t))
      in if connected_peers t1 = [] then lan_set_state (rest_state t1) t1 else t1)"

text \<open>Sending over one connection; a failure closes it.\<close>

definition link_send :: "(nat \<Rightarrow> bytes) \<Rightarrow> exn option \<Rightarrow> packet \<Rightarrow> nat \<Rightarrow> lan \<Rightarrow> lan \<times> (exn + unit)" where
  "link_send urandom drained p i t =
     (case send_packet urandom drained p (link_at t i) of
        (conn, r) \<Rightarrow>
          (if is_connected (link_at t i) \<and> \<not> is_connected conn then closed_callback i (put_link i conn t) else put_link i conn t, r))"

definition send_to_link :: "string \<Rightarrow> lan \<Rightarrow> nat option" where
  "send_to_link address t =
     (case dict_get (la_connections t) address of Some i \<Rightarrow> if link_ready t i then Some i else None | None \<Rightarrow> None)"

definition lan_send_to_peer ::
  "string list \<Rightarrow> (nat \<Rightarrow> bytes) \<Rightarrow> exn option \<Rightarrow> exn option \<Rightarrow> string \<Rightarrow> packet \<Rightarrow> lan \<Rightarrow> lan \<times> (exn + unit)" where
  "lan_send_to_peer local_ips urandom opened drained address p t =
     (case send_to_link address t of
        Some i \<Rightarrow> link_send urandom drained p i t
      | None \<Rightarrow>
          (case connect_begin local_ips address t of
             (t1, Inl e) \<Rightarrow> (t1, Inl e)
           | (t1, Inr (Have i)) \<Rightarrow> link_send urandom drained p i t1
           | (t1, Inr (Opening i)) \<Rightarrow>
               (case connect_ends opened address i t1 of
                  (t2, Inl e) \<Rightarrow> (t2, Inl e)
                | (t2, Inr _) \<Rightarrow> link_send urandom drained p i t2)))"

text \<open>The connections a broadcast goes to, each with the key of its peer.\<close>

definition address_key :: "lan \<Rightarrow> string \<Rightarrow> nat \<Rightarrow> string" where
  "address_key t address i =
     (case dict_get (la_address_key t) address of
        Some (x # xs) \<Rightarrow> x # xs
      | _ \<Rightarrow> get_peer_key (peer_address (link_at t i)) None t)"

fun broadcast_links :: "lan \<Rightarrow> string option \<Rightarrow> nat list \<Rightarrow> string list \<Rightarrow> (string \<times> nat) list \<Rightarrow> nat list" where
  "broadcast_links t exclude sent keys [] = []"
| "broadcast_links t exclude sent keys ((address, i) # es) =
     (if \<not> link_ready t i \<or> i \<in> set sent then broadcast_links t exclude sent keys es
      else if exclude \<noteq> None \<and> (Some address = exclude \<or> Some (peer_address (link_at t i)) = exclude)
      then broadcast_links t exclude sent keys es
      else let key = address_key t address i in
        if key \<in> set keys then broadcast_links t exclude sent keys es
        else i # broadcast_links t exclude (i # sent) (key # keys) es)"

text \<open>The sends run concurrently and their exceptions are dropped; \<open>drained\<close> is given per connection.\<close>

definition lan_broadcast_packet :: "(nat \<Rightarrow> bytes) \<Rightarrow> (nat \<Rightarrow> exn option) \<Rightarrow> packet \<Rightarrow> string option \<Rightarrow> lan \<Rightarrow> lan" where
  "lan_broadcast_packet urandom drained p exclude t =
     fold (\<lambda>i t. fst (link_send urandom (drained i) p i t)) (broadcast_links t exclude [] [] (la_connections t)) t"

definition lan_update_identity :: "string \<Rightarrow> string \<Rightarrow> lan \<Rightarrow> lan" where
  "lan_update_identity peer_id nick t =
     t\<lparr>la_peer_id := peer_id, la_nickname := nick, la_discovery := update_identity peer_id nick [] (la_discovery t)\<rparr>"

text \<open>\<open>str.isdigit\<close> of code points below 256.\<close>

definition py_isdigit :: "string \<Rightarrow> bool" where
  "py_isdigit s \<longleftrightarrow> s \<noteq> [] \<and> list_all (\<lambda>c. let n = of_char c :: nat in (48 \<le> n \<and> n \<le> 57) \<or> n \<in> {178, 179, 185}) s"

definition lan_peer_matches :: "string \<Rightarrow> lan_peer \<Rightarrow> bool" where
  "lan_peer_matches cl p \<longleftrightarrow>
     (lp_peer_id p \<noteq> [] \<and> (py_lower (lp_peer_id p) = cl \<or> py_startswith (py_lower (lp_peer_id p)) cl)) \<or>
     (lp_nickname p \<noteq> [] \<and> (py_lower (lp_nickname p) = cl \<or> py_in cl (py_lower (lp_nickname p))))"

definition lan_resolve :: "string \<Rightarrow> lan \<Rightarrow> string option" where
  "lan_resolve target t =
     (let cl = py_lower (dropWhile (\<lambda>c. c = CHR ''@'') (py_strip target)) in
      if (case py_split_char (CHR '':'') cl of [host, port] \<Rightarrow> py_isdigit port | _ \<Rightarrow> False) then Some cl
      else map_option fst (List.find (\<lambda>e. lan_peer_matches cl (snd e)) (discovered_peers t)))"

subsection \<open>Tasks and steps\<close>

fun lan_run_task :: "exn + int \<Rightarrow> bool \<Rightarrow> bool \<Rightarrow> lan_task \<Rightarrow> lan \<Rightarrow> lan" where
  "lan_run_task bound send_ok listen_ok (Close_Link i) t = close_begins True i t"
| "lan_run_task bound send_ok listen_ok (Closed_Link i background) t = closed_callback i t"
| "lan_run_task bound send_ok listen_ok Pause_Services t = pause_lan_services t"
| "lan_run_task bound send_ok listen_ok Resume_Services t = resume_lan_services bound send_ok listen_ok t"


datatype lan_event =
    Lan_Task nat "exn + int" bool bool | Accept "(string \<times> int) option" | Read nat read_result | Found lan_peer
  | Beacons discovery | Dial "string list" string | Dialled "exn option" string nat | Drop_Peer string
  | Send_Lan "string list" "nat \<Rightarrow> bytes" "exn option" "exn option" string packet
  | Broadcast_Lan "nat \<Rightarrow> bytes" "nat \<Rightarrow> exn option" packet "string option" | Poll network_info
  | Start_Lan network_info "exn + int" bool bool | Stop_Lan | Start_Discovering bool bool | Stop_Discovering | Rename string string

fun lan_step :: "lan \<Rightarrow> lan_event \<Rightarrow> lan \<times> unit" where
  "lan_step t (Lan_Task n bound a b) =
     (if n < length (la_tasks t)
      then lan_run_task bound a b (la_tasks t ! n) (t\<lparr>la_tasks := take n (la_tasks t) @ drop (Suc n) (la_tasks t)\<rparr>) else t, ())"
| "lan_step t (Accept peername) = (server_accepts peername t, ())"
| "lan_step t (Read i res) = (if i < length (la_heap t) then lan_read i res t else t, ())"
| "lan_step t (Found p) = (lan_peer_discovered p t, ())"
| "lan_step t (Beacons d) = (t\<lparr>la_discovery := d\<rparr>, ())"
| "lan_step t (Dial ips a) = (fst (connect_begin ips a t), ())"
| "lan_step t (Dialled opened a i) = (if i < length (la_heap t) then fst (connect_ends opened a i t) else t, ())"
| "lan_step t (Drop_Peer a) = (disconnect_peer a t, ())"
| "lan_step t (Send_Lan ips rnd opened drained a p) = (fst (lan_send_to_peer ips rnd opened drained a p t), ())"
| "lan_step t (Broadcast_Lan rnd drained p x) = (lan_broadcast_packet rnd drained p x t, ())"
| "lan_step t (Poll seen) = (adapter_poll seen t, ())"
| "lan_step t (Start_Lan info bound a b) = (fst (lan_start info bound a b t), ())"
| "lan_step t Stop_Lan = (lan_stop t, ())"
| "lan_step t (Start_Discovering a b) = (fst (lan_start_discovery a b t), ())"
| "lan_step t Stop_Discovering = (lan_stop_discovery t, ())"
| "lan_step t (Rename pid nick) = (lan_update_identity pid nick t, ())"

end
