(* ===== verification/Lan_Props.thy ===== *)
theory Lan_Props
  imports Lan_Transport Interfaces
begin

text \<open>
  The registry of the LAN transport: its invariant and the bound on connections, to whom a broadcast
  goes, how the two ends of two crossing connections agree on the one to keep, and three situations in
  which the transport loses what it should keep.
\<close>

subsection \<open>The invariant of the registry\<close>

text \<open>The connections that are registered, each once.\<close>

definition links :: "lan \<Rightarrow> nat set" where
  "links t = snd ` set (la_connections t)"

fun task_index :: "lan_task \<Rightarrow> nat option" where
  "task_index (Close_Link i) = Some i"
| "task_index (Closed_Link i b) = Some i"
| "task_index x = None"

text \<open>
  The tables have each key once; they, the table of the server and the tasks refer to connections
  that exist; those in the registry have the transport's callbacks; and those of the server are inbound.
\<close>

definition lan_ok :: "lan \<Rightarrow> bool" where
  "lan_ok t \<longleftrightarrow> dict_ok (la_connections t) \<and> dict_ok (la_peer_connections t) \<and> dict_ok (la_address_key t) \<and> dict_ok (la_accepted t) \<and>
     (\<forall>i \<in> links t. i < length (la_heap t) \<and> ln_wired (la_heap t ! i)) \<and>
     (\<forall>i \<in> snd ` set (la_peer_connections t). i < length (la_heap t) \<and> ln_wired (la_heap t ! i)) \<and>
     (\<forall>i \<in> snd ` set (la_accepted t). i < length (la_heap t) \<and> is_inbound (link_at t i)) \<and>
     (\<forall>x \<in> set (la_tasks t). \<forall>i. task_index x = Some i \<longrightarrow> i < length (la_heap t))"

text \<open>The part of the state the invariant is about.\<close>

definition tables :: "lan \<Rightarrow> _" where
  "tables t = (la_connections t, la_peer_connections t, la_address_key t, la_accepted t, la_heap t, la_tasks t)"

lemma lan_ok_cong: "tables t' = tables t \<Longrightarrow> lan_ok t \<Longrightarrow> lan_ok t'"
  unfolding lan_ok_def links_def link_at_def by (simp add: tables_def)

named_theorems tables_simps \<open>operations that leave the tables alone\<close>

lemma tables_effects [tables_simps]:
  "tables (lan_call x t) = tables t" "tables (t\<lparr>la_state := s\<rparr>) = tables t" "tables (t\<lparr>la_error := e\<rparr>) = tables t"
  "tables (t\<lparr>la_discovery := d\<rparr>) = tables t" "tables (t\<lparr>la_info := info\<rparr>) = tables t" "tables (t\<lparr>la_running := b\<rparr>) = tables t"
  "tables (t\<lparr>la_listening := b\<rparr>) = tables t" "tables (t\<lparr>la_bound_port := p\<rparr>) = tables t" "tables (t\<lparr>la_peer_id := pid\<rparr>) = tables t"
  "tables (t\<lparr>la_nickname := nick\<rparr>) = tables t"
  by (simp_all add: tables_def lan_call_def)

lemma tables_state [tables_simps]: "tables (lan_set_state s t) = tables t" "tables (lan_fails m s t) = tables t"
  "tables (stop_lan_discovery t) = tables t" "tables (announce_port t) = tables t" "tables (lan_peer_discovered p t) = tables t"
  "tables (lan_update_identity pid nick t) = tables t" "tables (lan_stop_discovery t) = tables t"
proof -
  show st: "tables (lan_set_state s t) = tables t" for s t by (simp add: lan_set_state_def tables_simps)
  show "tables (lan_fails m s t) = tables t" "tables (stop_lan_discovery t) = tables t" "tables (announce_port t) = tables t"
    "tables (lan_peer_discovered p t) = tables t" "tables (lan_update_identity pid nick t) = tables t" "tables (lan_stop_discovery t) = tables t"
    by (simp_all add: lan_fails_def stop_lan_discovery_def announce_port_def lan_peer_discovered_def lan_update_identity_def
        lan_stop_discovery_def Let_def st tables_simps)
qed

lemma tables_start [tables_simps]: "tables (fst (server_start bound t)) = tables t"
  "tables (fst (start_lan_discovery a b t)) = tables t" "tables (fst (lan_start_discovery a b t)) = tables t"
proof -
  show "tables (fst (server_start bound t)) = tables t" by (simp add: server_start_def tables_simps split: sum.split)
  show d: "tables (fst (start_lan_discovery a b t)) = tables t" by (simp add: start_lan_discovery_def tables_simps split: prod.split)
  then show "tables (fst (lan_start_discovery a b t)) = tables t"
    by (auto simp: lan_start_discovery_def tables_simps split: prod.split sum.split)
qed

lemma lan_ok_quiet: "lan_ok t \<Longrightarrow> tables t' = tables t \<Longrightarrow> lan_ok t'"
  by (rule lan_ok_cong)

text \<open>Changing a connection object.\<close>

lemma lan_ok_grow:
  assumes "lan_ok t" "length (la_heap t) \<le> length h"
    "\<And>j. j < length (la_heap t) \<Longrightarrow> (ln_wired (la_heap t ! j) \<longrightarrow> ln_wired (h ! j)) \<and> is_inbound (ln_conn (h ! j)) = is_inbound (link_at t j)"
  shows "lan_ok (t\<lparr>la_heap := h\<rparr>)"
proof -
  have "j < length h \<and> ln_wired (h ! j)" if "j < length (la_heap t) \<and> ln_wired (la_heap t ! j)" for j
    using that assms(2) assms(3) [of j] by simp
  moreover have "j < length h \<and> is_inbound (ln_conn (h ! j))" if "j < length (la_heap t) \<and> is_inbound (link_at t j)" for j
    using that assms(2) assms(3) [of j] by simp
  moreover have "j < length h" if "j < length (la_heap t)" for j using that assms(2) by simp
  ultimately show ?thesis using assms(1) unfolding lan_ok_def links_def link_at_def by (auto 0 3)
qed

lemma lan_ok_heap:
  assumes "lan_ok t" "ln_wired (la_heap t ! i) \<Longrightarrow> ln_wired x" "is_inbound (ln_conn x) = is_inbound (link_at t i)"
  shows "lan_ok (t\<lparr>la_heap := (la_heap t)[i := x]\<rparr>)"
proof (rule lan_ok_grow [OF assms(1)])
  fix j assume "j < length (la_heap t)"
  then show "(ln_wired (la_heap t ! j) \<longrightarrow> ln_wired ((la_heap t)[i := x] ! j)) \<and> is_inbound (ln_conn ((la_heap t)[i := x] ! j)) = is_inbound (link_at t j)"
    using assms(2,3) by (cases "j = i") (simp_all add: link_at_def)
qed simp

lemma lan_ok_new: "lan_ok t \<Longrightarrow> lan_ok (t\<lparr>la_heap := la_heap t @ [x]\<rparr>)"
  by (rule lan_ok_grow) (simp_all add: nth_append link_at_def)

lemma lan_ok_put: "lan_ok t \<Longrightarrow> is_inbound conn = is_inbound (link_at t i) \<Longrightarrow> lan_ok (put_link i conn t)"
  unfolding put_link_def by (rule lan_ok_heap) simp_all

lemma lan_ok_spawn: "lan_ok t \<Longrightarrow> (\<And>i. task_index x = Some i \<Longrightarrow> i < length (la_heap t)) \<Longrightarrow> lan_ok (lan_spawn x t)"
  by (auto simp: lan_ok_def links_def link_at_def lan_spawn_def)

lemma lan_ok_remove: "lan_ok t \<Longrightarrow> lan_ok (remove_connection_references i t)"
proof -
  assume ok: "lan_ok t"
  let ?t = "remove_connection_references i t"
  have sub: "links ?t \<subseteq> links t" "snd ` set (la_peer_connections ?t) \<subseteq> snd ` set (la_peer_connections t)"
    by (auto simp: remove_connection_references_def links_def Let_def dict_pop_all_filter)
  with ok sub show ?thesis
    by (auto simp: lan_ok_def link_at_def remove_connection_references_def Let_def dict_ok_filter dict_pop_all_filter)
qed

lemma lan_ok_register:
  assumes "lan_ok t" "i < length (la_heap t)" "ln_wired (la_heap t ! i)"
  shows "lan_ok (register_link a k i t)"
proof -
  have "links (register_link a k i t) \<subseteq> insert i (links t)"
    using dict_set_subset [of a i "la_connections t"] by (auto simp: links_def register_link_def)
  then have "j < length (la_heap t) \<and> ln_wired (la_heap t ! j)" if "j \<in> links (register_link a k i t)" for j
    using that assms by (auto simp: lan_ok_def)
  moreover have "j < length (la_heap t) \<and> ln_wired (la_heap t ! j)" if "j \<in> snd ` set (dict_set k i (la_peer_connections t))" for j
    using that dict_set_subset [of k i "la_peer_connections t"] assms by (auto simp: lan_ok_def)
  ultimately show ?thesis using assms(1)
    by (simp add: lan_ok_def link_at_def register_link_def distinct_update)
qed

lemma lan_ok_tasks: "lan_ok t \<Longrightarrow> set ts \<subseteq> set (la_tasks t) \<Longrightarrow> lan_ok (t\<lparr>la_tasks := ts\<rparr>)"
  by (auto simp: lan_ok_def links_def link_at_def)

lemma lan_ok_less:
  assumes "lan_ok t" "links t' \<subseteq> links t" "set (la_peer_connections t') \<subseteq> set (la_peer_connections t)" "set (la_accepted t') \<subseteq> set (la_accepted t)"
    "dict_ok (la_connections t')" "dict_ok (la_peer_connections t')" "dict_ok (la_address_key t')" "dict_ok (la_accepted t')"
    "la_heap t' = la_heap t" "la_tasks t' = la_tasks t"
  shows "lan_ok t'"
  using assms by (auto simp: lan_ok_def link_at_def)

text \<open>A connection of the registry exists.\<close>

lemma link_entry: "lan_ok t \<Longrightarrow> e \<in> set (la_connections t) \<Longrightarrow> snd e < length (la_heap t) \<and> ln_wired (la_heap t ! snd e) \<and> snd e \<in> links t"
  unfolding lan_ok_def links_def by blast

lemma find_SomeD: "List.find P xs = Some e \<Longrightarrow> e \<in> set xs \<and> P e"
  by (auto simp: find_Some_iff)

lemma links_exist:
  assumes "lan_ok t"
  shows "dict_get (la_connections t) a = Some i \<Longrightarrow> i < length (la_heap t) \<and> ln_wired (la_heap t ! i) \<and> i \<in> links t"
    "dict_get (la_peer_connections t) k = Some i \<Longrightarrow> i < length (la_heap t) \<and> ln_wired (la_heap t ! i)"
proof -
  assume "dict_get (la_connections t) a = Some i"
  from link_entry [OF assms map_of_SomeD [OF this]] show "i < length (la_heap t) \<and> ln_wired (la_heap t ! i) \<and> i \<in> links t" by simp
next
  assume "dict_get (la_peer_connections t) k = Some i"
  then have "i \<in> snd ` set (la_peer_connections t)" using map_of_SomeD by force
  then show "i < length (la_heap t) \<and> ln_wired (la_heap t ! i)" using assms unfolding lan_ok_def by blast
qed

text \<open>What \<open>find_existing_connection\<close> finds is a live connection of one of the tables.\<close>

lemma found_cases:
  assumes "find_existing_connection a t = Some i"
  shows "link_ready t i \<and> (dict_get (la_connections t) a = Some i \<or> dict_get (la_peer_connections t) (get_peer_key a None t) = Some i \<or>
           i \<in> links t)"
proof -
  have found: "link_ready t i \<and> i \<in> links t"
    if "map_option snd (List.find (\<lambda>e. link_ready t (snd e) \<and> P e) (la_connections t)) = Some i" for P
  proof -
    from that obtain e where e: "List.find (\<lambda>e. link_ready t (snd e) \<and> P e) (la_connections t) = Some e" "snd e = i" by auto
    from find_SomeD [OF e(1)] e(2) show ?thesis unfolding links_def by auto
  qed
  define live where "live = (\<lambda>x. Option.bind x (\<lambda>i. if link_ready t i then Some i else None))"
  have live: "live x = Some j \<Longrightarrow> x = Some j \<and> link_ready t j" for x j
    by (cases x) (auto simp: live_def split: if_splits)
  consider "live (dict_get (la_connections t) a) = Some i" | "live (dict_get (la_peer_connections t) (get_peer_key a None t)) = Some i"
    | "map_option snd (List.find (\<lambda>e. link_ready t (snd e) \<and> address_ip (peer_address (link_at t (snd e))) = address_ip a) (la_connections t)) = Some i"
    using assms unfolding find_existing_connection_def Let_def live_def [symmetric] by (simp split: option.splits if_splits)
  then show ?thesis
  proof cases
    case 1 with live show ?thesis by blast
  next
    case 2 with live show ?thesis by blast
  next
    case 3 from found [OF 3] show ?thesis by blast
  qed
qed

lemma found_exists:
  assumes "lan_ok t" "find_existing_connection a t = Some i"
  shows "i < length (la_heap t)" "ln_wired (la_heap t ! i)"
proof -
  have "i \<in> links t \<Longrightarrow> i < length (la_heap t) \<and> ln_wired (la_heap t ! i)" using assms(1) by (simp add: lan_ok_def)
  then have "i < length (la_heap t) \<and> ln_wired (la_heap t ! i)" using found_cases [OF assms(2)] links_exist [OF assms(1)] by blast
  then show "i < length (la_heap t)" "ln_wired (la_heap t ! i)" by auto
qed

subsection \<open>Every operation keeps it\<close>

named_theorems lan_oks \<open>operations that keep the invariant of the registry\<close>

lemma ok_quiet [lan_oks]:
  "lan_ok t \<Longrightarrow> lan_ok (lan_call x t)" "lan_ok t \<Longrightarrow> lan_ok (lan_set_state s t)" "lan_ok t \<Longrightarrow> lan_ok (lan_fails m s t)"
  "lan_ok t \<Longrightarrow> lan_ok (stop_lan_discovery t)" "lan_ok t \<Longrightarrow> lan_ok (announce_port t)" "lan_ok t \<Longrightarrow> lan_ok (lan_peer_discovered p t)"
  "lan_ok t \<Longrightarrow> lan_ok (lan_update_identity pid nick t)" "lan_ok t \<Longrightarrow> lan_ok (lan_stop_discovery t)"
  "lan_ok t \<Longrightarrow> lan_ok (fst (server_start bound t))" "lan_ok t \<Longrightarrow> lan_ok (fst (start_lan_discovery a b t))"
  "lan_ok t \<Longrightarrow> lan_ok (fst (lan_start_discovery a b t))"
  "lan_ok t \<Longrightarrow> lan_ok (t\<lparr>la_info := info\<rparr>)" "lan_ok t \<Longrightarrow> lan_ok (t\<lparr>la_discovery := d\<rparr>)" "lan_ok t \<Longrightarrow> lan_ok (t\<lparr>la_error := e\<rparr>)"
  "lan_ok t \<Longrightarrow> lan_ok (t\<lparr>la_running := r\<rparr>)"
  by (erule lan_ok_quiet, simp add: tables_simps)+

lemma ok_disconnected [lan_oks]: "lan_ok t \<Longrightarrow> lan_ok (lan_peer_disconnected a t)"
proof -
  assume ok: "lan_ok t"
  have "lan_ok (t\<lparr>la_address_key := dict_pop a (la_address_key t)\<rparr>)"
    by (rule lan_ok_less [OF ok]) (use ok in \<open>auto simp: lan_ok_def links_def\<close>)
  then show ?thesis using ok lan_ok_remove by (auto simp: lan_peer_disconnected_def Let_def intro!: lan_oks split: option.split)
qed

lemma ok_callback [lan_oks]: "lan_ok t \<Longrightarrow> lan_ok (closed_callback i t)"
proof -
  assume ok: "lan_ok t"
  have "lan_ok (t\<lparr>la_accepted := dict_pop a (la_accepted t)\<rparr>)" for a
    by (rule lan_ok_less [OF ok]) (use ok in \<open>auto simp: lan_ok_def links_def set_dict_pop\<close>)
  then show ?thesis using ok by (auto simp: closed_callback_def Let_def intro: lan_oks)
qed

lemma close_inbound: "is_inbound (conn_close c) = is_inbound c"
  by (simp add: conn_close_def)

lemma ok_close [lan_oks]: "lan_ok t \<Longrightarrow> lan_ok (close_now i t)" "lan_ok t \<Longrightarrow> i < length (la_heap t) \<Longrightarrow> lan_ok (close_begins b i t)"
proof -
  assume ok: "lan_ok t"
  have put: "lan_ok (put_link i (conn_close (link_at t i)) t)" by (rule lan_ok_put [OF ok]) (simp add: close_inbound)
  then show "lan_ok (close_now i t)" using ok by (auto simp: close_now_def intro: lan_oks)
  show "i < length (la_heap t) \<Longrightarrow> lan_ok (close_begins b i t)"
    using put ok by (auto simp: close_begins_def put_link_def intro: lan_ok_spawn)
qed

lemma ok_fold: "(\<And>x t. lan_ok t \<Longrightarrow> lan_ok (f x t)) \<Longrightarrow> lan_ok t \<Longrightarrow> lan_ok (fold f xs t)"
  by (induction xs arbitrary: t) auto

lemma ok_server_stop [lan_oks]: "lan_ok t \<Longrightarrow> lan_ok (server_stop t)"
proof -
  assume ok: "lan_ok t"
  have "lan_ok (t\<lparr>la_listening := False, la_accepted := []\<rparr>)" by (rule lan_ok_less [OF ok]) (use ok in \<open>auto simp: lan_ok_def links_def\<close>)
  with ok show ?thesis by (auto simp: server_stop_def intro!: ok_fold lan_oks)
qed

lemma ok_spawn [lan_oks]: "lan_ok t \<Longrightarrow> i < length (la_heap t) \<Longrightarrow> lan_ok (lan_spawn (Close_Link i) t)"
  by (auto intro: lan_ok_spawn)

lemma ok_remove [lan_oks]: "lan_ok t \<Longrightarrow> lan_ok (remove_connection_references i t)"
  by (rule lan_ok_remove)

lemma ok_inbound [lan_oks]:
  assumes "lan_ok t" "i < length (la_heap t)"
  shows "lan_ok (lan_inbound_connection i t)"
proof -
  let ?k = "get_peer_key (peer_address (link_at t i)) None t" and ?a = "peer_address (link_at t i)"
  have accept: "lan_ok (register_link ?a ?k i (t'\<lparr>la_heap := (la_heap t')[i := (la_heap t' ! i)\<lparr>ln_wired := True\<rparr>]\<rparr>))"
    if "lan_ok t'" "i < length (la_heap t')" for t'
    by (intro lan_ok_register lan_ok_heap that(1)) (use that in \<open>simp_all add: link_at_def\<close>)
  moreover have "i < length (la_heap (remove_connection_references j (lan_spawn (Close_Link j) t)))" for j
    using assms(2) by (simp add: remove_connection_references_def lan_spawn_def Let_def)
  ultimately show ?thesis
    using assms found_exists(1) [OF assms(1)]
    by (auto simp: lan_inbound_connection_def Let_def intro!: lan_oks accept split: option.split)
qed

lemma read_inbound: "is_inbound (read_iteration c res) = is_inbound c"
  by (simp add: read_iteration_def close_inbound split: read_result.split sum.split prod.split)

lemma send_inbound: "is_inbound (fst (send_packet rnd drained p c)) = is_inbound c"
  by (simp add: send_packet_def close_inbound Let_def split: sum.split option.split)

lemma connect_inbound: "is_inbound (fst (conn_connect ok opened c)) = is_inbound c"
  by (simp add: conn_connect_def split: option.split)

lemma ok_put [lan_oks]:
  "lan_ok t \<Longrightarrow> lan_ok (put_link i (read_iteration (link_at t i) res) t)"
  "lan_ok t \<Longrightarrow> lan_ok (put_link i (fst (send_packet rnd drained p (link_at t i))) t)"
  "lan_ok t \<Longrightarrow> lan_ok (put_link i (fst (conn_connect ok opened (link_at t i))) t)"
  by (simp_all add: lan_ok_put read_inbound send_inbound connect_inbound)

lemma lan_ok_keys:
  assumes "lan_ok t"
  shows "lan_ok (t\<lparr>la_address_key := dict_set a k (la_address_key t)\<rparr>)"
  by (rule lan_ok_less [OF assms]) (use assms in \<open>simp_all add: lan_ok_def links_def distinct_update\<close>)

lemma lan_ok_peer:
  assumes "lan_ok t" "i < length (la_heap t)" "ln_wired (la_heap t ! i)"
  shows "lan_ok (t\<lparr>la_peer_connections := dict_set k i (la_peer_connections t)\<rparr>)"
proof -
  have "j < length (la_heap t) \<and> ln_wired (la_heap t ! j)" if "j \<in> snd ` set (dict_set k i (la_peer_connections t))" for j
    using that dict_set_subset [of k i "la_peer_connections t"] assms by (auto simp: lan_ok_def)
  then show ?thesis using assms(1) by (simp add: lan_ok_def links_def link_at_def distinct_update)
qed

lemma same_heap: "la_heap (remove_connection_references e (lan_spawn x t)) = la_heap t"
  by (simp add: remove_connection_references_def lan_spawn_def Let_def)

lemma ok_packet [lan_oks]:
  assumes ok: "lan_ok t"
  shows "lan_ok (lan_packet_received p a t)"
proof (cases "dict_get (la_connections t) a")
  case None
  then show ?thesis using ok by (auto simp: lan_packet_received_def Let_def intro!: lan_oks lan_ok_keys)
next
  case (Some i)
  define t1 where "t1 = t\<lparr>la_heap := (la_heap t)[i := (la_heap t ! i)\<lparr>ln_peer_id := Some (sender_id_hex p)\<rparr>]\<rparr>"
  define t2 where "t2 = t1\<lparr>la_address_key := dict_set a (''peer:'' @ py_lower (sender_id_hex p)) (la_address_key t1)\<rparr>"
  have i: "i < length (la_heap t2)" "ln_wired (la_heap t2 ! i)" using links_exist(1) [OF ok Some] by (auto simp: t2_def t1_def)
  have "lan_ok t1" unfolding t1_def by (rule lan_ok_heap [OF ok]) (simp_all add: link_at_def)
  from lan_ok_keys [OF this] have t2: "lan_ok t2" by (simp add: t2_def)
  have keep: "lan_ok (t'\<lparr>la_peer_connections := dict_set k j (la_peer_connections t')\<rparr>)"
    if "t' = remove_connection_references e (lan_spawn (Close_Link e) t2)" "e < length (la_heap t2)" "j < length (la_heap t2)" "ln_wired (la_heap t2 ! j)"
    for t' e j k
    unfolding that(1) by (rule lan_ok_peer) (use that(2-4) t2 in \<open>simp_all add: lan_oks same_heap\<close>)
  have other: "j < length (la_heap t2) \<and> ln_wired (la_heap t2 ! j)" if "dict_get (la_peer_connections t2) k = Some j" for k j
    by (rule links_exist(2) [OF t2 that])
  have bound: "e < length (la_heap t2) \<and> ln_wired (la_heap t2 ! e)"
    if "Option.bind (dict_get (la_peer_connections t2) k) (\<lambda>e. if P e then Some e else None) = Some e" for P e k
    using that other by (auto simp: bind_eq_Some_conv split: if_splits)
  have "lan_packet_received p a t = lan_call (Packet_In p a) (case Option.bind (dict_get (la_peer_connections t2) (''peer:'' @ py_lower (sender_id_hex p)))
            (\<lambda>e. if e \<noteq> i \<and> link_ready t2 e \<and> link_ready t2 i then Some e else None) of
       Some e \<Rightarrow>
         let stays = (is_inbound (link_at t2 e) \<noteq> should_keep_outbound (sender_id_hex p) a t2);
             to_keep = (if stays then e else i); to_drop = (if stays then i else e);
             t' = remove_connection_references to_drop (lan_spawn (Close_Link to_drop) t2)
         in t'\<lparr>la_peer_connections := dict_set (''peer:'' @ py_lower (sender_id_hex p)) to_keep (la_peer_connections t')\<rparr>
     | None \<Rightarrow>
         if link_ready t2 i then t2\<lparr>la_peer_connections := dict_set (''peer:'' @ py_lower (sender_id_hex p)) i (la_peer_connections t2)\<rparr> else t2)"
    by (simp only: lan_packet_received_def Let_def Some option.case t2_def t1_def)
  then show ?thesis using i t2 keep [OF refl] bound lan_ok_peer [OF t2 i]
    by (auto simp: Let_def intro!: lan_oks split: option.split)
qed

lemma ok_read [lan_oks]: "lan_ok t \<Longrightarrow> i < length (la_heap t) \<Longrightarrow> lan_ok (lan_read i res t)"
  by (auto simp: lan_read_def Let_def intro!: ok_fold lan_oks)

lemma ok_accepts [lan_oks]: "lan_ok t \<Longrightarrow> lan_ok (server_accepts peer t)"
proof -
  assume ok: "lan_ok t"
  have "lan_ok (t\<lparr>la_heap := la_heap t @ [\<lparr>ln_conn = LANConnection a True True, ln_wired = False, ln_peer_id = None\<rparr>],
      la_accepted := dict_set a (length (la_heap t)) (la_accepted t)\<rparr>)" for a
  proof -
    let ?t = "t\<lparr>la_heap := la_heap t @ [\<lparr>ln_conn = LANConnection a True True, ln_wired = False, ln_peer_id = None\<rparr>]\<rparr>"
    have "lan_ok ?t" by (rule lan_ok_new [OF ok])
    moreover have "j < length (la_heap ?t) \<and> is_inbound (link_at ?t j)" if "j \<in> snd ` set (dict_set a (length (la_heap t)) (la_accepted t))" for j
    proof -
      from that dict_set_subset [of a "length (la_heap t)" "la_accepted t"]
      consider "j = length (la_heap t)" | "j \<in> snd ` set (la_accepted t)" by fastforce
      then show ?thesis
      proof cases
        case 2
        then have "j < length (la_heap t) \<and> is_inbound (link_at t j)" using ok unfolding lan_ok_def by blast
        then show ?thesis by (simp add: link_at_def nth_append)
      qed (simp add: link_at_def LANConnection_def)
    qed
    ultimately show ?thesis by (simp add: lan_ok_def links_def link_at_def distinct_update)
  qed
  with ok show ?thesis by (auto simp: server_accepts_def Let_def intro!: lan_oks split: option.split)
qed

lemma ok_network [lan_oks]: "lan_ok t \<Longrightarrow> lan_ok (lan_network_changed info t)" "lan_ok t \<Longrightarrow> lan_ok (adapter_poll info t)"
proof -
  have *: "lan_ok (lan_network_changed info t)" if "lan_ok t" for t
    using that by (auto simp: lan_network_changed_def Let_def intro!: lan_oks lan_ok_spawn)
  then show "lan_ok t \<Longrightarrow> lan_ok (lan_network_changed info t)" .
  show "lan_ok t \<Longrightarrow> lan_ok (adapter_poll info t)" by (auto simp: adapter_poll_def intro!: * lan_oks)
qed

lemma ok_stop [lan_oks]: "lan_ok t \<Longrightarrow> lan_ok (pause_lan_services t)" "lan_ok t \<Longrightarrow> lan_ok (release_partial_start t)"
  by (simp_all add: pause_lan_services_def release_partial_start_def lan_oks)

lemma ok_resume [lan_oks]:
  assumes "lan_ok t"
  shows "lan_ok (resume_lan_services bound a b t)"
proof -
  have 1: "lan_ok t1" if "(if la_listening t then (t, Inr ()) else server_start bound t) = (t1, r)" for t1 r
    using that assms ok_quiet(9) [OF assms, of bound] by (auto split: if_splits)
  have 2: "lan_ok t3" if "(if di_running (la_discovery t2) then (t2, Inr ()) else start_lan_discovery a b t2) = (t3, r)" "lan_ok t2" for t2 t3 r
    using that ok_quiet(10) [OF that(2), of a b] by (auto split: if_splits)
  obtain t1 r1 where s: "(if la_listening t then (t, Inr ()) else server_start bound t) = (t1, r1)" by (meson surj_pair)
  define t2 where "t2 = (if la_listening t then t1 else announce_port t1)"
  obtain t3 r3 where d: "(if di_running (la_discovery t2) then (t2, Inr ()) else start_lan_discovery a b t2) = (t3, r3)" by (meson surj_pair)
  have ok1: "lan_ok t1" by (rule 1 [OF s])
  then have "lan_ok t2" by (simp add: t2_def lan_oks)
  then have "lan_ok t3" by (rule 2 [OF d])
  with ok1 show ?thesis
    unfolding resume_lan_services_def s prod.case Let_def t2_def [symmetric] d by (auto intro!: lan_oks split: sum.split)
qed

lemma ok_start [lan_oks]:
  assumes "lan_ok t"
  shows "lan_ok (fst (lan_start info bound a b t))"
proof -
  have 1: "lan_ok t1" if "server_start bound t0 = (t1, r)" "lan_ok t0" for t0 t1 r
    using that ok_quiet(9) [OF that(2), of bound] by auto
  have 2: "lan_ok t3" if "start_lan_discovery a b t2 = (t3, r)" "lan_ok t2" for t2 t3 r
    using that ok_quiet(10) [OF that(2), of a b] by auto
  show ?thesis using assms
    by (auto simp: lan_start_def Let_def intro!: lan_oks split: prod.split sum.split dest!: 1 2)
qed

lemma ok_lan_stop [lan_oks]:
  assumes "lan_ok t"
  shows "lan_ok (lan_stop t)"
proof -
  have clear: "lan_ok (t'\<lparr>la_connections := [], la_peer_connections := [], la_address_key := []\<rparr>)" if "lan_ok t'" for t'
    by (rule lan_ok_less [OF that]) (use that in \<open>simp_all add: lan_ok_def links_def\<close>)
  have tasks: "lan_ok (t'\<lparr>la_error := None, la_tasks := filter P (la_tasks t)\<rparr>)" if "lan_ok t'" "la_tasks t' = la_tasks t" for t' P
    using lan_ok_tasks [OF ok_quiet(14) [OF that(1)], of "filter P (la_tasks t)" None] that(2) by simp
  have "la_tasks (lan_set_state OFFLINE (t\<lparr>la_running := False\<rparr>)) = la_tasks t" by (simp add: lan_set_state_def lan_call_def)
  then show ?thesis using assms
    by (auto simp: lan_stop_def Let_def intro!: ok_fold clear tasks lan_oks)
qed

lemma set_state_keeps [simp]: "la_heap (lan_set_state s t) = la_heap t" "la_connections (lan_set_state s t) = la_connections t"
  "la_peer_connections (lan_set_state s t) = la_peer_connections t" "la_tasks (lan_set_state s t) = la_tasks t" "la_max (lan_set_state s t) = la_max t"
  "la_discovery (lan_set_state s t) = la_discovery t" "la_running (lan_set_state s t) = la_running t" "la_state (lan_set_state s t) = s"
  by (simp_all add: lan_set_state_def lan_call_def)

lemma task_exists: "lan_ok t \<Longrightarrow> x \<in> set (la_tasks t) \<Longrightarrow> task_index x = Some i \<Longrightarrow> i < length (la_heap t)"
  unfolding lan_ok_def by blast

lemma ok_connect [lan_oks]: "lan_ok t \<Longrightarrow> lan_ok (fst (connect_begin ips a t))"
proof -
  assume ok: "lan_ok t"
  have old: "lan_ok (register_link a k i (lan_set_state s (lan_set_state s' t)))"
    if "find_existing_connection a (lan_set_state s' t) = Some i" for k i s s'
    using found_exists [OF ok_quiet(2) [OF ok] that] ok by (auto intro!: lan_ok_register lan_oks simp: set_state_keeps)
  have new: "lan_ok (register_link a k (length h) (t'\<lparr>la_heap := h @ [\<lparr>ln_conn = c, ln_wired = True, ln_peer_id = None\<rparr>]\<rparr>))"
    if "lan_ok t'" "la_heap t' = h" for k c t' h
    by (rule lan_ok_register) (use lan_ok_new [OF that(1)] that(2) in simp_all)
  show ?thesis using ok
    by (auto simp: connect_begin_def Let_def intro!: old new lan_oks split: option.split)
qed

lemma ok_connected [lan_oks]: "lan_ok t \<Longrightarrow> lan_ok (fst (connect_ends opened a i t))"
proof -
  assume ok: "lan_ok t"
  let ?ok = "\<exists>port. address_port a = Inr (Some port)"
  obtain conn r where c: "conn_connect ?ok opened (link_at t i) = (conn, r)" by (meson surj_pair)
  then have "lan_ok (put_link i conn t)" using ok_put(3) [OF ok, of i ?ok opened] by simp
  then show ?thesis unfolding connect_ends_def c by (auto simp: Let_def intro!: lan_oks split: sum.split)
qed

lemma ok_disconnect [lan_oks]: "lan_ok t \<Longrightarrow> lan_ok (disconnect_peer a t)"
  by (auto simp: disconnect_peer_def Let_def intro!: lan_oks split: option.split)

lemma ok_send [lan_oks]: "lan_ok t \<Longrightarrow> lan_ok (fst (link_send rnd drained p i t))"
proof -
  assume ok: "lan_ok t"
  obtain conn r where c: "send_packet rnd drained p (link_at t i) = (conn, r)" by (meson surj_pair)
  then have "lan_ok (put_link i conn t)" using ok_put(2) [OF ok, of i rnd drained p] by simp
  then show ?thesis unfolding link_send_def c by (auto intro!: lan_oks)
qed

lemma ok_send_peer [lan_oks]: "lan_ok t \<Longrightarrow> lan_ok (fst (lan_send_to_peer ips rnd opened drained a p t))"
proof -
  assume ok: "lan_ok t"
  have 1: "lan_ok t1" if "connect_begin ips a t = (t1, r)" for t1 r using ok_connect [OF ok, of ips a] that by simp
  have 2: "lan_ok t2" if "connect_ends opened a i t1 = (t2, r)" "lan_ok t1" for t1 t2 i r using ok_connected [OF that(2), of opened a i] that(1) by simp
  show ?thesis using ok
    by (auto simp: lan_send_to_peer_def intro!: lan_oks split: option.split prod.split sum.split dial.split dest!: 1 2)
qed

lemma ok_broadcast [lan_oks]: "lan_ok t \<Longrightarrow> lan_ok (lan_broadcast_packet rnd drained p x t)"
  unfolding lan_broadcast_packet_def by (rule ok_fold) (auto intro: lan_oks)

lemma ok_task [lan_oks]:
  "lan_ok t \<Longrightarrow> (\<And>i. task_index x = Some i \<Longrightarrow> i < length (la_heap t)) \<Longrightarrow> lan_ok (lan_run_task bound a b x t)"
  by (cases x) (auto intro!: lan_oks)

interpretation lan_registry: machine lan_step lan_ok
proof
  fix t e assume ok: "lan_ok t"
  show "lan_ok (fst (lan_step t e))"
  proof (cases e)
    case (Lan_Task n bound a b)
    have "lan_ok (lan_run_task bound a b (la_tasks t ! n) (t\<lparr>la_tasks := take n (la_tasks t) @ drop (Suc n) (la_tasks t)\<rparr>))"
      if n: "n < length (la_tasks t)"
    proof (rule ok_task)
      show "lan_ok (t\<lparr>la_tasks := take n (la_tasks t) @ drop (Suc n) (la_tasks t)\<rparr>)"
        by (rule lan_ok_tasks [OF ok]) (auto dest: in_set_takeD in_set_dropD)
      show "task_index (la_tasks t ! n) = Some i \<Longrightarrow> i < length (la_heap (t\<lparr>la_tasks := take n (la_tasks t) @ drop (Suc n) (la_tasks t)\<rparr>))" for i
        using task_exists [OF ok nth_mem [OF n]] by simp
    qed
    with ok Lan_Task show ?thesis by simp
  qed (use ok in \<open>auto intro!: lan_oks\<close>)
qed

lemma lan_ok_init: "lan_ok (LANTransport pid nick n info d)"
  by (simp add: lan_ok_def links_def LANTransport_def)


text \<open>
  The limit on connections: with a full table the transport registers no connection that arrives,
  and \<open>connect_peer\<close> opens none.
\<close>

lemma full_spawn: "links (lan_spawn x t) = links t" by (simp add: links_def lan_spawn_def)

theorem lan_limit_refuses:
  assumes "la_max t \<le> length (la_connections t)"
  shows "links (server_accepts peername t) = links t \<and> (\<forall>i. snd (connect_begin ips a t) \<noteq> Inr (Opening i))"
proof
  show "links (server_accepts peername t) = links t"
    using assms by (auto simp: server_accepts_def lan_inbound_connection_def Let_def full_spawn links_def lan_spawn_def split: option.split)
  show "\<forall>i. snd (connect_begin ips a t) \<noteq> Inr (Opening i)"
    using assms by (auto simp: connect_begin_def Let_def split: option.split)
qed

definition sample_lan :: lan where
  "sample_lan = LANTransport ''aa'' ''alice'' 1 (detect_network_info ''10.0.0.1'' None None 4000 False)
     (LANDiscovery ''aa'' ''alice'' 4000 [] 37020 5 (Some ''i'') [])"

text \<open>A transport with one live connection it has opened.\<close>

definition one_link :: "string \<Rightarrow> string \<Rightarrow> lan" where
  "one_link pid address = sample_lan\<lparr>la_peer_id := pid, la_max := 32, la_state := CONNECTED, la_running := True,
     la_heap := [\<lparr>ln_conn = LANConnection address True False, ln_wired = True, ln_peer_id = None\<rparr>],
     la_connections := [(address, 0)], la_peer_connections := [(''ip:'' @ address_ip address, 0)], la_address_key := [(address, ''ip:'' @ address_ip address)]\<rparr>"

lemma lan_limit_refuses_witness:
  "links (server_accepts (Some (''10.0.0.9'', 7)) ((one_link ''aa'' ''10.0.0.2:5'')\<lparr>la_max := 1\<rparr>)) = links ((one_link ''aa'' ''10.0.0.2:5'')\<lparr>la_max := 1\<rparr>)"
  by (rule lan_limit_refuses [THEN conjunct1]) (simp add: one_link_def)

subsection \<open>Broadcasting\<close>

text \<open>The entries of the registry that may get a broadcast.\<close>

definition may_get :: "lan \<Rightarrow> string option \<Rightarrow> string \<times> nat \<Rightarrow> bool" where
  "may_get t exclude e \<longleftrightarrow> link_ready t (snd e) \<and>
     (exclude = None \<or> (Some (fst e) \<noteq> exclude \<and> Some (peer_address (link_at t (snd e))) \<noteq> exclude))"

definition entry_key :: "lan \<Rightarrow> string \<times> nat \<Rightarrow> string" where
  "entry_key t e = address_key t (fst e) (snd e)"

definition covers :: "lan \<Rightarrow> string option \<Rightarrow> nat list \<Rightarrow> string list \<Rightarrow> (string \<times> nat) list \<Rightarrow> (string \<times> nat) list \<Rightarrow> bool" where
  "covers t exclude sent keys es used \<longleftrightarrow>
     (let to = broadcast_links t exclude sent keys es in
      set used \<subseteq> {e \<in> set es. may_get t exclude e} \<and> map snd used = to \<and> distinct to \<and> set to \<inter> set sent = {} \<and>
      distinct (map (entry_key t) used) \<and> entry_key t ` set used \<inter> set keys = {} \<and>
      (\<forall>e \<in> set es. may_get t exclude e \<longrightarrow> snd e \<in> set sent \<union> set to \<or> entry_key t e \<in> set keys \<union> entry_key t ` set used))"

lemma broadcast_covers: "\<exists>used. covers t exclude sent keys es used"
proof (induction t exclude sent keys es rule: broadcast_links.induct)
  case (2 t exclude sent keys a i es)
  let ?k = "entry_key t (a, i)"
  consider (skip) "\<not> may_get t exclude (a, i) \<or> i \<in> set sent \<or> ?k \<in> set keys" | (take) "may_get t exclude (a, i)" "i \<notin> set sent" "?k \<notin> set keys" by blast
  then show ?case
  proof cases
    case skip
    then have eq: "broadcast_links t exclude sent keys ((a, i) # es) = broadcast_links t exclude sent keys es"
      by (auto simp: may_get_def entry_key_def Let_def)
    have "\<exists>used. covers t exclude sent keys es used"
      by (cases "\<not> link_ready t i \<or> i \<in> set sent"; cases "exclude \<noteq> None \<and> (Some a = exclude \<or> Some (peer_address (link_at t i)) = exclude)")
        (use skip 2 in \<open>auto simp: may_get_def entry_key_def\<close>)
    then obtain used where "covers t exclude sent keys es used" ..
    then have "covers t exclude sent keys ((a, i) # es) used" using skip unfolding covers_def eq Let_def by auto
    then show ?thesis ..
  next
    case take
    then have eq: "broadcast_links t exclude sent keys ((a, i) # es) = i # broadcast_links t exclude (i # sent) (?k # keys) es"
      by (auto simp: may_get_def entry_key_def Let_def)
    have "\<exists>used. covers t exclude (i # sent) (?k # keys) es used"
      using "2.IH"(4) take by (auto simp: may_get_def entry_key_def)
    then obtain used where "covers t exclude (i # sent) (?k # keys) es used" ..
    then have "covers t exclude sent keys ((a, i) # es) ((a, i) # used)" using take unfolding covers_def eq Let_def by auto
    then show ?thesis ..
  qed
qed (simp add: covers_def Let_def)



subsection \<open>Crossing connections\<close>

text \<open>
  A connection \<open>i\<close> arrives from a peer to which the transport has itself opened \<open>j\<close>; \<open>remote\<close> is what the
  transport compares its own identifier with.
\<close>

definition crossing :: "lan \<Rightarrow> nat \<Rightarrow> nat \<Rightarrow> string \<Rightarrow> bool" where
  "crossing t i j remote \<longleftrightarrow>
     (let address = peer_address (link_at t i) in
      length (la_connections t) < la_max t \<and> i \<noteq> j \<and> find_existing_connection address t = Some j \<and> \<not> is_inbound (link_at t j) \<and>
      get_remote_id (get_peer_key address None t) address = remote \<and>
      py_lower (la_peer_id t) \<noteq> [] \<and> remote \<noteq> [] \<and> py_lower (la_peer_id t) \<noteq> remote)"

text \<open>The connection the transport closes.\<close>

lemma crossing_closes:
  assumes "crossing t i j remote"
  shows "la_tasks (lan_inbound_connection i t) = la_tasks t @ [Close_Link (if py_lower (la_peer_id t) < py_lower remote then i else j)]"
  using assms
  by (simp add: crossing_def Let_def lan_inbound_connection_def should_keep_outbound_def lan_spawn_def lan_call_def register_link_def
      remove_connection_references_def)

text \<open>
  C22. Two peers that have discovered each other open a connection at the same time, and each end accepts
  the other's: \<open>a\<close> has the connection \<open>ab\<close> it opened and accepts \<open>ba\<close>, and \<open>b\<close> the other way round. Both
  ends close the same one of the two: the connection that the peer with the lower identifier opened
  stays at both.
\<close>

theorem crossing_connections_agree:
  assumes "crossing ta ba ab (py_lower (la_peer_id tb))" and "crossing tb ab' ba' (py_lower (la_peer_id ta))"
  shows "if py_lower (la_peer_id ta) < py_lower (la_peer_id tb)
     then la_tasks (lan_inbound_connection ba ta) = la_tasks ta @ [Close_Link ba] \<and>
          la_tasks (lan_inbound_connection ab' tb) = la_tasks tb @ [Close_Link ba']
     else la_tasks (lan_inbound_connection ba ta) = la_tasks ta @ [Close_Link ab] \<and>
          la_tasks (lan_inbound_connection ab' tb) = la_tasks tb @ [Close_Link ab']"
proof -
  have "py_lower (la_peer_id ta) \<noteq> py_lower (la_peer_id tb)" using assms(1) by (simp add: crossing_def Let_def)
  then have "py_lower (la_peer_id tb) < py_lower (la_peer_id ta) \<longleftrightarrow> \<not> py_lower (la_peer_id ta) < py_lower (la_peer_id tb)" by auto
  with crossing_closes [OF assms(1)] crossing_closes [OF assms(2)] show ?thesis by simp
qed

text \<open>
  C23. A defect. A peer that has not been discovered is compared by its address, where an identifier
  should be: if at both ends the own identifier is not below the other's address, each end closes the
  connection it has opened itself, so that both are lost.
\<close>

theorem crossing_both_dropped:
  assumes "crossing ta ba ab address_b" and "crossing tb ab' ba' address_a"
    and "py_lower address_b \<le> py_lower (la_peer_id ta)" and "py_lower address_a \<le> py_lower (la_peer_id tb)"
  shows "la_tasks (lan_inbound_connection ba ta) = la_tasks ta @ [Close_Link ab] \<and>
     la_tasks (lan_inbound_connection ab' tb) = la_tasks tb @ [Close_Link ba']"
  using crossing_closes [OF assms(1)] crossing_closes [OF assms(2)] assms(3,4) by (simp add: not_le [symmetric])

text \<open>A transport that opened a connection to one port of a host and now gets one from another.\<close>

definition crossed :: "string \<Rightarrow> string \<Rightarrow> string \<Rightarrow> (string, lan_peer) dict \<Rightarrow> lan" where
  "crossed pid out_address in_address known =
     (let t = one_link pid out_address
      in t\<lparr>la_heap := la_heap t @ [\<lparr>ln_conn = LANConnection in_address True True, ln_wired = False, ln_peer_id = None\<rparr>],
           la_discovery := (la_discovery t)\<lparr>di_peers := known\<rparr>\<rparr>)"

definition known_peer :: "string \<Rightarrow> string \<Rightarrow> lan_peer" where
  "known_peer pid ip = \<lparr>lp_address = ip, lp_ip = ip, lp_port = 5, lp_peer_id = pid, lp_nickname = ''x'', lp_ssid = [],
     lp_instance_id = [], lp_transport = ''LAN'', lp_last_seen = 0\<rparr>"

lemma crossed_known:
  "crossing (crossed ''aa'' ''10.0.0.2:5'' ''10.0.0.2:6'' [(''10.0.0.2:5'', known_peer ''bb'' ''10.0.0.2'')]) 1 0 ''bb''"
  "crossing (crossed ''bb'' ''10.0.0.1:5'' ''10.0.0.1:6'' [(''10.0.0.1:5'', known_peer ''aa'' ''10.0.0.1'')]) 1 0 ''aa''"
  "crossing (crossed ''aa'' ''10.0.0.2:5'' ''10.0.0.2:6'' []) 1 0 ''10.0.0.2:6''"
  "crossing (crossed ''bb'' ''10.0.0.1:5'' ''10.0.0.1:6'' []) 1 0 ''10.0.0.1:6''"
proof -
  have low: "py_lower ''aa'' = ''aa''" "py_lower ''bb'' = ''bb''" by code_simp+
  have ip: "address_ip ''10.0.0.2:5'' = ''10.0.0.2''" "address_ip ''10.0.0.2:6'' = ''10.0.0.2''"
    "address_ip ''10.0.0.1:5'' = ''10.0.0.1''" "address_ip ''10.0.0.1:6'' = ''10.0.0.1''"
    by (simp_all add: address_ip_def py_before_def)
  note defs = crossing_def Let_def crossed_def one_link_def sample_lan_def LANTransport_def find_existing_connection_def get_peer_key_def
    discovered_peers_def LANDiscovery_def get_remote_id_def link_ready_def link_at_def LANConnection_def conn_is_ready_def known_peer_def low ip py_startswith_def
  show "crossing (crossed ''aa'' ''10.0.0.2:5'' ''10.0.0.2:6'' [(''10.0.0.2:5'', known_peer ''bb'' ''10.0.0.2'')]) 1 0 ''bb''"
    by (simp add: defs)
  show "crossing (crossed ''bb'' ''10.0.0.1:5'' ''10.0.0.1:6'' [(''10.0.0.1:5'', known_peer ''aa'' ''10.0.0.1'')]) 1 0 ''aa''"
    by (simp add: defs)
  show "crossing (crossed ''aa'' ''10.0.0.2:5'' ''10.0.0.2:6'' []) 1 0 ''10.0.0.2:6''"
    by (simp add: defs)
  show "crossing (crossed ''bb'' ''10.0.0.1:5'' ''10.0.0.1:6'' []) 1 0 ''10.0.0.1:6''"
    by (simp add: defs)
qed

lemma crossed_fields: "la_peer_id (crossed pid a b k) = pid" "la_tasks (crossed pid a b k) = []"
  by (simp_all add: crossed_def one_link_def sample_lan_def LANTransport_def Let_def)

lemma crossing_connections_agree_witness:
  "la_tasks (lan_inbound_connection 1 (crossed ''aa'' ''10.0.0.2:5'' ''10.0.0.2:6'' [(''10.0.0.2:5'', known_peer ''bb'' ''10.0.0.2'')])) = [Close_Link 1] \<and>
   la_tasks (lan_inbound_connection 1 (crossed ''bb'' ''10.0.0.1:5'' ''10.0.0.1:6'' [(''10.0.0.1:5'', known_peer ''aa'' ''10.0.0.1'')])) = [Close_Link 0]"
proof -
  have low: "py_lower ''aa'' = ''aa''" "py_lower ''bb'' = ''bb''" "''aa'' < ''bb''" by code_simp+
  show ?thesis
    using crossing_connections_agree [of "crossed ''aa'' ''10.0.0.2:5'' ''10.0.0.2:6'' [(''10.0.0.2:5'', known_peer ''bb'' ''10.0.0.2'')]" 1 0
        "crossed ''bb'' ''10.0.0.1:5'' ''10.0.0.1:6'' [(''10.0.0.1:5'', known_peer ''aa'' ''10.0.0.1'')]" 1 0] crossed_known low
    by (simp add: crossed_fields)
qed

lemma crossing_both_dropped_witness:
  "la_tasks (lan_inbound_connection 1 (crossed ''aa'' ''10.0.0.2:5'' ''10.0.0.2:6'' [])) = [Close_Link 0] \<and>
   la_tasks (lan_inbound_connection 1 (crossed ''bb'' ''10.0.0.1:5'' ''10.0.0.1:6'' [])) = [Close_Link 0]"
proof -
  have "py_lower ''10.0.0.2:6'' \<le> py_lower ''aa''" "py_lower ''10.0.0.1:6'' \<le> py_lower ''bb''" by code_simp+
  then show ?thesis
    using crossing_both_dropped [OF crossed_known(3,4)] by (simp add: crossed_fields)
qed

subsection \<open>Two ways to lose the state\<close>

lemma callback_after_stop:
  assumes "la_connections s = []" "\<not> di_running (la_discovery s)" "ln_wired (la_heap s ! i)"
  shows "la_state (closed_callback i s) = READY"
  using assms by (simp add: closed_callback_def Let_def lan_peer_disconnected_def rest_state_def connected_peers_def lan_call_def)

lemma callback_keeps:
  assumes "la_connections s = []" "\<not> di_running (la_discovery s)"
  shows "la_connections (closed_callback i s) = []" "\<not> di_running (la_discovery (closed_callback i s))" "la_heap (closed_callback i s) = la_heap s"
  using assms
  by (simp_all add: closed_callback_def Let_def lan_peer_disconnected_def rest_state_def connected_peers_def lan_call_def lan_set_state_def)

lemma close_all_ready:
  assumes "la_connections s = []" "\<not> di_running (la_discovery s)"
    "la_state s = READY \<or> (i \<in> set xs \<and> is_connected (link_at s i) \<and> ln_wired (la_heap s ! i))"
  shows "la_state (fold close_now xs s) = READY"
  using assms
proof (induction xs arbitrary: s)
  case (Cons x xs)
  let ?s = "put_link x (conn_close (link_at s x)) s"
  have p: "la_connections ?s = []" "\<not> di_running (la_discovery ?s)" "la_state ?s = la_state s" using Cons.prems by (simp_all add: put_link_def)
  have w: "ln_wired (la_heap ?s ! k) = ln_wired (la_heap s ! k)" for k
    by (cases "k = x \<and> x < length (la_heap s)") (auto simp: put_link_def nth_list_update list_update_beyond)
  show ?case
  proof (cases "is_connected (link_at s x)")
    case False
    then have "la_state s = READY \<or> (i \<in> set xs \<and> is_connected (link_at s i) \<and> ln_wired (la_heap s ! i))" using Cons.prems(3) by auto
    with Cons.IH [OF Cons.prems(1,2)] False show ?thesis by (simp add: close_now_def)
  next
    case True
    have "la_state (closed_callback x ?s) = READY \<or>
      (i \<in> set xs \<and> is_connected (link_at (closed_callback x ?s) i) \<and> ln_wired (la_heap (closed_callback x ?s) ! i))"
    proof (cases "ln_wired (la_heap s ! x)")
      case True
      with w have "ln_wired (la_heap ?s ! x)" by simp
      from callback_after_stop [OF p(1,2) this] show ?thesis ..
    next
      case False
      then have "la_state (closed_callback x ?s) = la_state s" using w [of x] by (simp add: closed_callback_def Let_def p(3))
      then show ?thesis using Cons.prems(3) False callback_keeps(3) [OF p(1,2), of x]
        by (cases "x = i") (auto simp: link_at_def put_link_def)
    qed
    from Cons.IH [OF callback_keeps(1,2) [OF p(1,2)] this] True show ?thesis by (simp add: close_now_def)
  qed
qed simp

lemma close_running: "la_running (close_now i s) = la_running s"
  by (simp add: close_now_def closed_callback_def put_link_def Let_def lan_peer_disconnected_def lan_call_def lan_set_state_def
      remove_connection_references_def split: option.split)

lemma close_all_running: "la_running (fold close_now xs s) = la_running s"
  by (induction xs arbitrary: s) (simp_all add: close_running)



text \<open>
  C25. A defect. \<open>_handle_peer_disconnected\<close> goes by the address, and not by the connection that was
  closed: when the callback of an old connection \<open>i\<close> comes after its address was registered for a new
  connection \<open>j\<close>, it is \<open>j\<close> that the transport forgets and reports as gone, though its socket is open.
\<close>

theorem stale_close_forgets_live:
  assumes "dict_get (la_connections t) (peer_address (link_at t i)) = Some j" and "link_ready t j"
    and "ln_wired (la_heap t ! i)" and "\<not> is_inbound (link_at t i)"
  shows "link_ready (closed_callback i t) j \<and> j \<notin> links (closed_callback i t) \<and> Link_Down (peer_address (link_at t i)) \<in> set (la_calls (closed_callback i t))"
proof -
  let ?t = "remove_connection_references j t"
  have gone: "j \<notin> links ?t" by (force simp: links_def remove_connection_references_def Let_def dict_pop_all_filter)
  have cb: "closed_callback i t = lan_call (Link_Down (peer_address (link_at t i))) (if connected_peers ?t = [] then lan_set_state (rest_state ?t) ?t else ?t)"
    using assms(1,3,4) by (simp add: closed_callback_def Let_def lan_peer_disconnected_def del: map_of_eq_Some_iff)
  have "la_heap ?t = la_heap t" by (simp add: remove_connection_references_def Let_def)
  with gone assms(2) show ?thesis unfolding cb
    by (simp add: lan_call_def link_ready_def link_at_def links_def lan_set_state_def)
qed

lemma stale_close_forgets_live_witness:
  "0 \<notin> links (closed_callback 1 ((one_link ''aa'' ''10.0.0.2:5'')\<lparr>la_heap :=
     [\<lparr>ln_conn = LANConnection ''10.0.0.2:5'' True False, ln_wired = True, ln_peer_id = None\<rparr>,
      \<lparr>ln_conn = LANConnection ''10.0.0.2:5'' False False, ln_wired = True, ln_peer_id = None\<rparr>]\<rparr>))"
  by (rule stale_close_forgets_live [of _ 1 0, THEN conjunct2, THEN conjunct1])
    (simp_all add: one_link_def sample_lan_def LANTransport_def link_at_def LANConnection_def link_ready_def conn_is_ready_def)

end
