(* ===== verification/Lifecycle.thy ===== *)
theory Lifecycle
  imports Coordinator_Inv Lan_Transport
begin

text \<open>
  The life of the coordinator of \<open>app/session_coordinator.py\<close>: its transports, \<open>start\<close>, \<open>stop\<close>,
  \<open>retry_active_transport\<close>, \<open>go_offline\<close> and \<open>switch_transport\<close>. What a transport does while the
  coordinator waits for it is an \<open>effect\<close>: the callbacks it makes, which reach the coordinator only when
  they are attached, the state it ends in, and the exception it raises. Every hook of the user interface
  is taken to be set. The operations under the lock are single steps.
\<close>

definition state_value :: "TransportState \<Rightarrow> string" where
  "state_value s = (case s of OFFLINE \<Rightarrow> ''offline'' | CHECKING \<Rightarrow> ''checking'' | READY \<Rightarrow> ''ready'' | SCANNING \<Rightarrow> ''scanning''
     | PEER_FOUND \<Rightarrow> ''peer_found'' | CONNECTING \<Rightarrow> ''connecting'' | CONNECTED \<Rightarrow> ''connected'' | ERROR \<Rightarrow> ''error''
     | UNAVAILABLE \<Rightarrow> ''unavailable'' | DISABLED \<Rightarrow> ''disabled'')"

text \<open>A callback of a transport, and the exception of an awaited operation with the text \<open>str\<close> gives.\<close>

datatype transport_call =
    Tr_Packet packet string | Tr_Found found_peer | Tr_Up string | Tr_Down string | Tr_State TransportState
  | Tr_Error string | Tr_Warning string

datatype failure = Timed_Out string | Raised string

primrec failure_text :: "failure \<Rightarrow> string" where
  "failure_text (Timed_Out s) = s"
| "failure_text (Raised s) = s"

record transport =
  tp_state :: TransportState
  tp_error :: "string option"
  tp_running :: bool
  tp_attached :: bool
  tp_peer_id :: string
  tp_nickname :: string
  tp_discovered :: "(string, found_peer) dict"

record effect =
  ef_calls :: "transport_call list"
  ef_state :: TransportState
  ef_error :: "string option"
  ef_running :: bool
  ef_raises :: "failure option"

datatype ui_call = Lan_Error_Shown string | Ble_Error_Shown string | Ble_Warning_Shown string

text \<open>The coordinator with the fields its life is about.\<close>

record shell =
  sh_co :: coordinator
  sh_offline_mode :: bool
  sh_error :: "string option"
  sh_notified :: "string option"
  sh_active :: string
  sh_transports :: "(string, transport) dict"
  sh_pruning :: bool
  sh_ui :: "ui_call list"

text \<open>The answers of \<open>get_telemetry\<close> the coordinator looks at.\<close>

record telemetry =
  tm_adapter_on :: bool
  tm_injected :: bool
  tm_scanner_active :: bool
  tm_advertising :: bool
  tm_central :: bool
  tm_peripheral :: bool
  tm_connected :: bool
  tm_discovery_active :: bool
  tm_listening_active :: bool
  tm_error :: "string option"

text \<open>
  What the outside does during one operation: how transports stop, how the active one starts, how it
  stops again when the start was no success, and how a broadcast fails, if it does.
\<close>

record attempt =
  at_env :: env
  at_stop :: "string \<Rightarrow> effect"
  at_start :: effect
  at_release :: effect
  at_broadcast :: "failure option"
  at_text :: "exn \<Rightarrow> string"
  at_telemetry :: telemetry

subsection \<open>Transports\<close>

definition new_transport :: "string \<Rightarrow> string \<Rightarrow> transport" where
  "new_transport pid nick = \<lparr>tp_state = OFFLINE, tp_error = None, tp_running = False, tp_attached = False, tp_peer_id = pid,
     tp_nickname = nick, tp_discovered = []\<rparr>"

text \<open>The active transport is always in the table, so that the default is never used.\<close>

definition transport_of :: "string \<Rightarrow> shell \<Rightarrow> transport" where
  "transport_of name sh = (case dict_get (sh_transports sh) name of Some t \<Rightarrow> t | None \<Rightarrow> new_transport [] [])"

definition put_transport :: "string \<Rightarrow> transport \<Rightarrow> shell \<Rightarrow> shell" where
  "put_transport name t sh = sh\<lparr>sh_transports := dict_set name t (sh_transports sh)\<rparr>"

definition active_transport :: "shell \<Rightarrow> transport" where
  "active_transport sh = transport_of (sh_active sh) sh"

definition wire_transport_callbacks :: "string \<Rightarrow> shell \<Rightarrow> shell" where
  "wire_transport_callbacks name sh = put_transport name ((transport_of name sh)\<lparr>tp_attached := True\<rparr>) sh"

definition detach_transport_callbacks :: "string \<Rightarrow> shell \<Rightarrow> shell" where
  "detach_transport_callbacks name sh = put_transport name ((transport_of name sh)\<lparr>tp_attached := False\<rparr>) sh"

definition identify :: "string \<Rightarrow> string \<Rightarrow> transport \<Rightarrow> transport" where
  "identify pid nick t = t\<lparr>tp_peer_id := pid, tp_nickname := nick\<rparr>"

definition identify_all :: "shell \<Rightarrow> shell" where
  "identify_all sh = sh\<lparr>sh_transports := map (\<lambda>e. (fst e, identify (own_id (sh_co sh)) (co_nickname (sh_co sh)) (snd e))) (sh_transports sh)\<rparr>"

text \<open>\<open>__init__\<close> without an injected transport: Bluetooth and LAN are registered, one of them is active.\<close>

definition new_shell :: "coordinator \<Rightarrow> bool \<Rightarrow> string \<Rightarrow> shell" where
  "new_shell c bt_available initial =
     (let sel = (if py_lower initial = ''auto'' then if bt_available then ''bluetooth'' else ''lan'' else py_lower initial);
          active = (if sel = ''lan'' then ''lan'' else ''bluetooth'')
      in wire_transport_callbacks active
           \<lparr>sh_co = c, sh_offline_mode = False, sh_error = None, sh_notified = None, sh_active = active,
            sh_transports = [(''bluetooth'', new_transport [] []), (''lan'', new_transport (own_id c) (co_nickname c))],
            sh_pruning = False, sh_ui = []\<rparr>)"

subsection \<open>Callbacks\<close>

definition set_status :: "string \<Rightarrow> shell \<Rightarrow> shell" where
  "set_status s sh = sh\<lparr>sh_co := (sh_co sh)\<lparr>co_status := s\<rparr>\<rparr>"

definition set_running :: "bool \<Rightarrow> shell \<Rightarrow> shell" where
  "set_running b sh = sh\<lparr>sh_co := (sh_co sh)\<lparr>co_running := b\<rparr>\<rparr>"

definition handle_transport_state_changed :: "TransportState \<Rightarrow> shell \<Rightarrow> shell" where
  "handle_transport_state_changed s sh =
     (let sh1 = set_status (state_value s) sh in sh1\<lparr>sh_co := notify (Peer_Status ''mesh'' (state_value s)) (sh_co sh1)\<rparr>)"

definition show_error :: "string \<Rightarrow> shell \<Rightarrow> shell" where
  "show_error msg sh = sh\<lparr>sh_ui := sh_ui sh @ [if sh_active sh = ''lan'' then Lan_Error_Shown msg else Ble_Error_Shown msg]\<rparr>"

definition handle_transport_error :: "string \<Rightarrow> shell \<Rightarrow> shell" where
  "handle_transport_error msg sh = show_error msg (sh\<lparr>sh_error := Some msg, sh_notified := Some msg\<rparr>)"

definition handle_transport_warning :: "string \<Rightarrow> shell \<Rightarrow> shell" where
  "handle_transport_warning msg sh = sh\<lparr>sh_ui := sh_ui sh @ [Ble_Warning_Shown msg]\<rparr>"

definition with_co :: "shell \<Rightarrow> coordinator \<Rightarrow> shell" where
  "with_co sh c = sh\<lparr>sh_co := c\<rparr>"

text \<open>One callback; \<open>None\<close> when a handler does not return.\<close>

fun deliver_call :: "env \<Rightarrow> transport_call \<Rightarrow> shell \<Rightarrow> shell option" where
  "deliver_call env (Tr_Packet p a) sh = map_option (\<lambda>r. with_co sh (fst r)) (handle_incoming_packet env p (Some a) (sh_co sh))"
| "deliver_call env (Tr_Found p) sh = Some (with_co sh (handle_peer_discovered env p (sh_co sh)))"
| "deliver_call env (Tr_Up a) sh = Some (with_co sh (handle_peer_connected env a (sh_co sh)))"
| "deliver_call env (Tr_Down a) sh = Some (with_co sh (handle_peer_disconnected env a (sh_co sh)))"
| "deliver_call env (Tr_State s) sh = Some (handle_transport_state_changed s sh)"
| "deliver_call env (Tr_Error msg) sh = Some (handle_transport_error msg sh)"
| "deliver_call env (Tr_Warning msg) sh = Some (handle_transport_warning msg sh)"

fun deliver_calls :: "env \<Rightarrow> transport_call list \<Rightarrow> shell \<Rightarrow> shell option" where
  "deliver_calls env [] sh = Some sh"
| "deliver_calls env (x # xs) sh = Option.bind (deliver_call env x sh) (deliver_calls env xs)"

text \<open>Waiting for \<open>start()\<close> or \<open>stop()\<close> of a transport.\<close>

definition await_transport :: "env \<Rightarrow> string \<Rightarrow> effect \<Rightarrow> shell \<Rightarrow> (shell \<times> failure option) option" where
  "await_transport env name eff sh =
     map_option (\<lambda>sh1. (put_transport name ((transport_of name sh1)\<lparr>tp_state := ef_state eff, tp_error := ef_error eff,
                          tp_running := ef_running eff\<rparr>) sh1, ef_raises eff))
       (if tp_attached (transport_of name sh) then deliver_calls env (ef_calls eff) sh else Some sh)"

definition stop_transport_safely :: "env \<Rightarrow> string \<Rightarrow> effect \<Rightarrow> shell \<Rightarrow> shell option" where
  "stop_transport_safely env name eff sh = map_option fst (await_transport env name eff sh)"

fun stop_transports :: "attempt \<Rightarrow> bool \<Rightarrow> string list \<Rightarrow> shell \<Rightarrow> shell option" where
  "stop_transports aw detach [] sh = Some sh"
| "stop_transports aw detach (name # names) sh =
     Option.bind (stop_transport_safely (at_env aw) name (at_stop aw name) (if detach then detach_transport_callbacks name sh else sh))
       (stop_transports aw detach names)"

subsection \<open>Sessions\<close>

definition close_sessions :: "coordinator \<Rightarrow> coordinator" where
  "close_sessions c =
     (fold (\<lambda>i c. put_session i (session_close (co_heap c ! i)) c) (map snd (co_sessions c)) c)\<lparr>co_sessions := []\<rparr>"

definition cancel_handshake_timeouts :: "coordinator \<Rightarrow> coordinator" where
  "cancel_handshake_timeouts c = c\<lparr>co_timers := []\<rparr>"

definition reset_session_state :: "shell \<Rightarrow> shell" where
  "reset_session_state sh =
     sh\<lparr>sh_co := (close_sessions (cancel_handshake_timeouts (sh_co sh)))\<lparr>co_peer_addresses := [], co_address_to_peer := [],
           co_nicknames := [], co_announced := [], co_pending := []\<rparr>,
        sh_transports := map (\<lambda>e. (fst e, (snd e)\<lparr>tp_discovered := []\<rparr>)) (sh_transports sh)\<rparr>"

subsection \<open>Starting and stopping\<close>

definition down_states :: "TransportState set" where
  "down_states = {UNAVAILABLE, DISABLED, ERROR, OFFLINE, CHECKING}"

definition transport_is_operational :: "telemetry \<Rightarrow> shell \<Rightarrow> bool" where
  "transport_is_operational tm sh =
     (if tp_state (active_transport sh) \<in> down_states then False
      else if sh_active sh = ''bluetooth''
      then if \<not> tm_adapter_on tm then tm_injected tm \<and> (tm_scanner_active tm \<or> tm_advertising tm)
           else (tm_central tm \<and> tm_scanner_active tm) \<or> (tm_peripheral tm \<and> tm_advertising tm)
      else if sh_active sh = ''lan'' then tm_connected tm \<and> tm_discovery_active tm \<and> tm_listening_active tm
      else True)"

definition effective_state :: "TransportState \<Rightarrow> TransportState" where
  "effective_state s = (if s \<in> {UNAVAILABLE, DISABLED, ERROR} then s else UNAVAILABLE)"

definition preserve_failed_transport_state :: "TransportState \<Rightarrow> string \<Rightarrow> shell \<Rightarrow> shell" where
  "preserve_failed_transport_state s msg sh =
     put_transport (sh_active sh) ((active_transport sh)\<lparr>tp_state := effective_state s, tp_error := Some msg\<rparr>) sh"

text \<open>What \<open>start\<close>, \<open>retry_active_transport\<close> and \<open>switch_transport\<close> do after a failure.\<close>

definition give_up :: "attempt \<Rightarrow> TransportState \<Rightarrow> string \<Rightarrow> shell \<Rightarrow> shell option" where
  "give_up aw failed msg sh =
     map_option (\<lambda>sh1. (set_status (state_value (effective_state failed)) (set_running False (preserve_failed_transport_state failed msg sh1)))
                          \<lparr>sh_error := Some msg\<rparr>)
       (stop_transport_safely (at_env aw) (sh_active sh) (at_release aw) sh)"

definition announce_self :: "attempt \<Rightarrow> shell \<Rightarrow> shell \<times> failure option" where
  "announce_self aw sh =
     (case send_announce (at_env aw) None (sh_co sh) of
        (c, Inl e) \<Rightarrow> (with_co sh c, Some (Raised (at_text aw e)))
      | (c, Inr _) \<Rightarrow> (with_co sh c, at_broadcast aw))"

definition start_fails :: "attempt \<Rightarrow> failure \<Rightarrow> shell \<Rightarrow> shell option" where
  "start_fails aw f sh =
     map_option (\<lambda>sh1. if sh_error sh1 \<noteq> sh_notified sh1 then show_error (failure_text f) sh1 else sh1)
       (give_up aw (tp_state (active_transport sh)) (failure_text f) (set_running False sh))"

definition coordinator_start :: "attempt \<Rightarrow> shell \<Rightarrow> shell option" where
  "coordinator_start aw sh =
     (if co_running (sh_co sh) \<or> sh_offline_mode sh then Some sh
      else
        let sh1 = (set_status ''checking'' (set_running True sh))\<lparr>sh_error := None, sh_notified := None\<rparr>;
            t = identify (own_id (sh_co sh1)) (co_nickname (sh_co sh1)) (active_transport sh1);
            sh2 = wire_transport_callbacks (sh_active sh1) (put_transport (sh_active sh1) t sh1)
        in Option.bind (await_transport (at_env aw) (sh_active sh2) (at_start aw) sh2) (\<lambda>(sh3, r).
             case r of
               Some f \<Rightarrow> start_fails aw f sh3
             | None \<Rightarrow>
                 (case announce_self aw (set_status (state_value (tp_state (active_transport sh3))) sh3) of
                    (sh4, Some f) \<Rightarrow> start_fails aw f sh4
                  | (sh4, None) \<Rightarrow> Some (sh4\<lparr>sh_pruning := True\<rparr>))))"

text \<open>The time limit is 30 seconds; a \<open>TimeoutError\<close> of its own counts as reaching it.\<close>

definition retry_fails :: "attempt \<Rightarrow> failure \<Rightarrow> shell \<Rightarrow> (shell \<times> bool) option" where
  "retry_fails aw f sh =
     map_option (\<lambda>sh1. (sh1, False))
       (case f of
          Timed_Out s \<Rightarrow> give_up aw UNAVAILABLE ''Retry timed out after 30s'' sh
        | Raised s \<Rightarrow> give_up aw (tp_state (active_transport sh)) s sh)"

definition retry_active_transport :: "attempt \<Rightarrow> shell \<Rightarrow> (shell \<times> bool) option" where
  "retry_active_transport aw sh =
     Option.bind (stop_transport_safely (at_env aw) (sh_active sh) (at_stop aw (sh_active sh)) ((set_status ''checking'' sh)\<lparr>sh_error := None\<rparr>))
       (\<lambda>sh1. Option.bind (await_transport (at_env aw) (sh_active sh1) (at_start aw) sh1) (\<lambda>(sh2, r).
          case r of
            Some f \<Rightarrow> retry_fails aw f sh2
          | None \<Rightarrow>
              let sh3 = set_status (state_value (tp_state (active_transport sh2))) (set_running True sh2) in
              if \<not> transport_is_operational (at_telemetry aw) sh3
              then map_option (\<lambda>sh4. (sh4, False))
                     (give_up aw (tp_state (active_transport sh3))
                        (case truthy (tm_error (at_telemetry aw)) of Some m \<Rightarrow> m | None \<Rightarrow> ''Transport is not operational'') sh3)
              else (case announce_self aw (sh3\<lparr>sh_offline_mode := False\<rparr>) of
                      (sh4, Some f) \<Rightarrow> retry_fails aw f sh4
                    | (sh4, None) \<Rightarrow> Some (sh4\<lparr>sh_pruning := True\<rparr>, True))))"

definition coordinator_stop :: "attempt \<Rightarrow> shell \<Rightarrow> shell option" where
  "coordinator_stop aw sh =
     (let sh1 = (set_status ''offline'' (set_running False sh))\<lparr>sh_error := None, sh_pruning := False\<rparr>;
          c = (close_sessions (cancel_handshake_timeouts (sh_co sh1)))\<lparr>co_pending := [], co_announced := [], co_tasks := []\<rparr>
      in stop_transports aw True (map fst (sh_transports sh1)) (with_co sh1 c))"

definition go_offline :: "attempt \<Rightarrow> shell \<Rightarrow> shell option" where
  "go_offline aw sh =
     map_option (\<lambda>sh1. (set_status ''offline'' (set_running False (reset_session_state sh1)))\<lparr>sh_error := None\<rparr>)
       (stop_transports aw False (map fst (sh_transports sh)) (sh\<lparr>sh_offline_mode := True\<rparr>))"

definition transport_target :: "string \<Rightarrow> string" where
  "transport_target name =
     (let target = py_strip (py_lower name) in
      if target \<in> {''wifi'', ''wi-fi'', ''lan'', ''ethernet''} then ''lan''
      else if target \<in> {''ble'', ''bluetooth'', ''bt''} then ''bluetooth'' else target)"

text \<open>Steps 1 to 5 of \<open>switch_transport\<close>: leave the old transport, forget its peers, select the new one.\<close>

definition leave_transport :: "attempt \<Rightarrow> string \<Rightarrow> shell \<Rightarrow> shell option" where
  "leave_transport aw target sh =
     map_option (\<lambda>sh1.
       let sh2 = identify_all (reset_session_state (detach_transport_callbacks (sh_active sh1) sh1));
           sh3 = (if target = ''lan'' \<and> \<not> dict_has (sh_transports sh2) ''lan''
                  then put_transport ''lan'' (new_transport (own_id (sh_co sh2)) (co_nickname (sh_co sh2))) sh2 else sh2)
       in wire_transport_callbacks target (sh3\<lparr>sh_active := target\<rparr>))
     (stop_transport_safely (at_env aw) (sh_active sh) (at_stop aw (sh_active sh)) sh)"

definition switch_fails :: "attempt \<Rightarrow> failure \<Rightarrow> shell \<Rightarrow> (shell \<times> bool \<times> string) option" where
  "switch_fails aw f sh =
     map_option (\<lambda>sh1. (sh1, False, ''Failed starting '' @ sh_active sh @ '' transport: '' @ failure_text f))
       (give_up aw (tp_state (active_transport sh)) (failure_text f) sh)"

definition enter_transport :: "attempt \<Rightarrow> shell \<Rightarrow> (shell \<times> bool \<times> string) option" where
  "enter_transport aw sh =
     Option.bind (await_transport (at_env aw) (sh_active sh) (at_start aw) sh) (\<lambda>(sh1, r).
       case r of
         Some f \<Rightarrow> switch_fails aw f sh1
       | None \<Rightarrow>
           if \<not> tp_running (active_transport sh1) \<or> tp_state (active_transport sh1) \<in> down_states
           then switch_fails aw (Raised (case truthy (tm_error (at_telemetry aw)) of Some m \<Rightarrow> m
                  | None \<Rightarrow> sh_active sh1 @ '' transport is not operational'')) sh1
           else (case announce_self aw (set_running True (set_status (state_value (tp_state (active_transport sh1))) sh1)
                         \<lparr>sh_error := None, sh_offline_mode := False\<rparr>) of
                   (sh2, Some f) \<Rightarrow> switch_fails aw f sh2
                 | (sh2, None) \<Rightarrow> Some (sh2\<lparr>sh_pruning := True\<rparr>, True,
                     ''Switched transport to '' @ (if sh_active sh2 = ''lan'' then ''LAN / Wi-Fi'' else ''Bluetooth'') @
                     ''. New secure chat session created. Peer identity: '' @ take 12 (own_id (sh_co sh2)))))"

definition switch_transport :: "attempt \<Rightarrow> string \<Rightarrow> shell \<Rightarrow> (shell \<times> bool \<times> string) option" where
  "switch_transport aw name sh =
     (let target = transport_target name in
      if target \<notin> {''bluetooth'', ''lan''} then Some (sh, False, ''Unknown transport: '' @ target)
      else if target = sh_active sh \<and> tp_running (active_transport sh)
      then Some (sh, True, ''Already active on '' @ target @ '' transport.'')
      else if target = ''bluetooth'' \<and> \<not> dict_has (sh_transports sh) ''bluetooth''
      then Some (sh, False, ''Bluetooth transport not available'')
      else Option.bind (leave_transport aw target sh) (enter_transport aw))"

definition set_nickname :: "string \<Rightarrow> shell \<Rightarrow> shell" where
  "set_nickname nick sh = identify_all (with_co sh ((sh_co sh)\<lparr>co_nickname := nick\<rparr>))"

text \<open>The address \<open>connect_peer\<close> and \<open>disconnect_peer\<close> pass to the transport.\<close>

definition peer_target :: "env \<Rightarrow> string \<Rightarrow> shell \<Rightarrow> string" where
  "peer_target env target sh = (case truthy (resolve_peer_address env target (sh_co sh)) of Some a \<Rightarrow> a | None \<Rightarrow> target)"

subsection \<open>Steps\<close>

text \<open>Events of the coordinator that are not callbacks of a transport.\<close>

fun own_event :: "coordinator_event \<Rightarrow> bool" where
  "own_event (Packet_Arrives p a) = False"
| "own_event (Peer_Found p) = False"
| "own_event (Peer_Connected a) = False"
| "own_event (Peer_Disconnected a) = False"
| "own_event e = True"

datatype shell_event =
    Own env coordinator_event | From_Transport env string transport_call | Start_All attempt | Retry attempt | Stop_All attempt
  | Go_Offline attempt | Switch attempt string | Set_Nickname string

definition transport_calls :: "env \<Rightarrow> string \<Rightarrow> transport_call \<Rightarrow> shell \<Rightarrow> shell option" where
  "transport_calls env name x sh =
     (let t = transport_of name sh;
          sh1 = (case x of
                   Tr_State s \<Rightarrow> put_transport name (t\<lparr>tp_state := s\<rparr>) sh
                 | Tr_Error m \<Rightarrow> put_transport name (t\<lparr>tp_error := Some m\<rparr>) sh
                 | _ \<Rightarrow> sh)
      in if \<not> dict_has (sh_transports sh) name then Some sh
         else if tp_attached t then deliver_call env x sh1 else Some sh1)"

fun shell_next :: "shell \<Rightarrow> shell_event \<Rightarrow> shell option" where
  "shell_next sh (Own env e) =
     (if own_event e then map_option (with_co sh) (fst (coordinator_step (Some (sh_co sh)) (env, e))) else Some sh)"
| "shell_next sh (From_Transport env name x) = transport_calls env name x sh"
| "shell_next sh (Start_All aw) = coordinator_start aw sh"
| "shell_next sh (Retry aw) = map_option fst (retry_active_transport aw sh)"
| "shell_next sh (Stop_All aw) = coordinator_stop aw sh"
| "shell_next sh (Go_Offline aw) = go_offline aw sh"
| "shell_next sh (Switch aw name) = map_option fst (switch_transport aw name sh)"
| "shell_next sh (Set_Nickname nick) = Some (set_nickname nick sh)"

definition shell_step :: "shell option \<Rightarrow> shell_event \<Rightarrow> shell option \<times> unit" where
  "shell_step x e = (Option.bind x (\<lambda>sh. shell_next sh e), ())"

end
