(* ===== verification/Lifecycle_Props.thy ===== *)
theory Lifecycle_Props
  imports Lifecycle Nicknames
begin

text \<open>
  The life of the coordinator: its invariant with that of the transports, what a switch of the transport
  forgets and what it leaves behind, how an attempt to network ends, and that offline means offline.
\<close>

subsection \<open>Callbacks\<close>

text \<open>What handlers may do while the coordinator waits for a transport.\<close>

definition called :: "shell \<Rightarrow> shell \<Rightarrow> bool" where
  "called sh sh' \<longleftrightarrow> sh_transports sh' = sh_transports sh \<and> sh_active sh' = sh_active sh \<and> sh_offline_mode sh' = sh_offline_mode sh \<and>
     co_running (sh_co sh') = co_running (sh_co sh) \<and> co_identity (sh_co sh') = co_identity (sh_co sh) \<and>
     (coordinator_ok (sh_co sh) \<longrightarrow> coordinator_ok (sh_co sh')) \<and> (co_sessions (sh_co sh) = [] \<longrightarrow> co_sessions (sh_co sh') = [])"

lemma called_refl: "called sh sh"
  by (simp add: called_def)

lemma called_trans: "called sh1 sh2 \<Longrightarrow> called sh2 sh3 \<Longrightarrow> called sh1 sh3"
  by (simp add: called_def)

lemma called_core:
  "core c = core (sh_co sh) \<Longrightarrow> co_running c = co_running (sh_co sh) \<Longrightarrow> called sh (with_co sh c)"
  by (simp add: called_def with_co_def) (simp add: core_def)

lemma identity_core: "core c = core c' \<Longrightarrow> co_identity c = co_identity c'"
  by (simp add: core_def)

lemma running_names: "names c = names c' \<Longrightarrow> co_running c = co_running c'"
  by (simp add: names_def)

lemma disconnected_keeps:
  "co_running (handle_peer_disconnected env a c) = co_running c"
  "co_identity (handle_peer_disconnected env a c) = co_identity c"
  "co_sessions c = [] \<Longrightarrow> co_sessions (handle_peer_disconnected env a c) = []"
proof -
  have k: "core c1 = core c" if "keep_discovered env k c = (c1, b)" for k c c1 b using core_peers(3) [of env k c] that by simp
  have d: "co_identity (drop_peer_session k c) = co_identity c" "co_sessions c = [] \<Longrightarrow> co_sessions (drop_peer_session k c) = []" for k c
    by (simp_all add: drop_peer_session_def Let_def cancel_handshake_timeout_def put_session_def split: option.split)
  show "co_running (handle_peer_disconnected env a c) = co_running c" by (rule running_names) (simp add: names_simps)
  show "co_identity (handle_peer_disconnected env a c) = co_identity c"
    by (auto simp: handle_peer_disconnected_def Let_def d notify_def dest!: k core_fields split: option.split prod.split)
  show "co_sessions c = [] \<Longrightarrow> co_sessions (handle_peer_disconnected env a c) = []"
    by (auto simp: handle_peer_disconnected_def Let_def d notify_def dest!: k core_fields split: option.split prod.split)
qed

lemma discovered_running: "co_running (handle_peer_discovered env p c) = co_running c"
proof -
  have l: "co_running (learn_name k n c) = co_running c" for k n c by (simp add: learn_name_def)
  have r: "co_running (rebind_address env p c) = co_running c"
    by (simp add: rebind_address_def Let_def split: option.split)
  show ?thesis by (simp add: handle_peer_discovered_def Let_def l r notify_def)
qed

lemma called_ui: "co_running (sh_co sh') = co_running (sh_co sh) \<Longrightarrow> core (sh_co sh') = core (sh_co sh) \<Longrightarrow> sh_transports sh' = sh_transports sh \<Longrightarrow>
  sh_active sh' = sh_active sh \<Longrightarrow> sh_offline_mode sh' = sh_offline_mode sh \<Longrightarrow> called sh sh'"
  by (simp add: called_def) (simp add: core_def)

lemma call_called:
  assumes "deliver_call env x sh = Some sh'"
  shows "called sh sh'"
proof (cases x)
  case (Tr_Packet p a)
  with assms obtain c r where c: "handle_incoming_packet env p (Some a) (sh_co sh) = Some (c, r)" "sh' = with_co sh c" by auto
  show ?thesis unfolding c(2) by (rule called_core) (use core_incoming [OF c(1)] running_names [OF names_incoming [OF c(1)]] in simp_all)
next
  case (Tr_Found p)
  with assms have "sh' = with_co sh (handle_peer_discovered env p (sh_co sh))" by simp
  then show ?thesis by (simp add: called_core core_simps discovered_running)
next
  case (Tr_Up a)
  with assms have "sh' = with_co sh (handle_peer_connected env a (sh_co sh))" by simp
  then show ?thesis by (simp add: called_core core_simps running_names [OF names_traffic(3)])
next
  case (Tr_Down a)
  with assms have "sh' = with_co sh (handle_peer_disconnected env a (sh_co sh))" by simp
  then show ?thesis by (simp add: called_def with_co_def disconnected_keeps disconnected_ok)
next
  case (Tr_State s)
  with assms have "sh' = handle_transport_state_changed s sh" by simp
  then show ?thesis
    by (auto simp: handle_transport_state_changed_def set_status_def notify_def core_def inbox_def intro: called_ui)
qed (use assms in \<open>auto simp: handle_transport_error_def handle_transport_warning_def show_error_def intro: called_ui\<close>)

lemma calls_called: "deliver_calls env xs sh = Some sh' \<Longrightarrow> called sh sh'"
  by (induction xs arbitrary: sh) (auto simp: called_refl bind_eq_Some_conv dest: call_called intro: called_trans)

subsection \<open>The invariant\<close>

text \<open>
  The coordinator satisfies its own invariant; the active transport is registered; only the active
  transport has the coordinator's callbacks; and offline mode means that the coordinator does not run.
\<close>

definition attached :: "shell \<Rightarrow> string set" where
  "attached sh = {name. \<exists>t. dict_get (sh_transports sh) name = Some t \<and> tp_attached t}"

definition wired_ok :: "shell \<Rightarrow> bool" where
  "wired_ok sh \<longleftrightarrow> coordinator_ok (sh_co sh) \<and> dict_ok (sh_transports sh) \<and> dict_has (sh_transports sh) (sh_active sh) \<and>
     attached sh \<subseteq> {sh_active sh}"

definition shell_ok :: "shell \<Rightarrow> bool" where
  "shell_ok sh \<longleftrightarrow> wired_ok sh \<and> (sh_offline_mode sh \<longrightarrow> \<not> co_running (sh_co sh))"

lemma wired_okI:
  "coordinator_ok (sh_co sh) \<Longrightarrow> dict_ok (sh_transports sh) \<Longrightarrow> dict_has (sh_transports sh) (sh_active sh) \<Longrightarrow>
   attached sh \<subseteq> {sh_active sh} \<Longrightarrow> wired_ok sh"
  unfolding wired_ok_def by blast

lemma wired_okD:
  assumes "wired_ok sh"
  shows "coordinator_ok (sh_co sh)" "dict_ok (sh_transports sh)" "dict_has (sh_transports sh) (sh_active sh)" "attached sh \<subseteq> {sh_active sh}"
  using assms unfolding wired_ok_def by blast+

text \<open>What may have changed after the coordinator waited for a transport.\<close>

definition ids :: "shell \<Rightarrow> string \<Rightarrow> string option" where
  "ids sh name = map_option tp_peer_id (dict_get (sh_transports sh) name)"

definition waited :: "shell \<Rightarrow> shell \<Rightarrow> bool" where
  "waited sh sh' \<longleftrightarrow> ids sh' = ids sh \<and> attached sh' = attached sh \<and> (dict_ok (sh_transports sh) \<longrightarrow> dict_ok (sh_transports sh')) \<and>
     sh_active sh' = sh_active sh \<and> sh_offline_mode sh' = sh_offline_mode sh \<and> co_running (sh_co sh') = co_running (sh_co sh) \<and>
     co_identity (sh_co sh') = co_identity (sh_co sh) \<and> (coordinator_ok (sh_co sh) \<longrightarrow> coordinator_ok (sh_co sh')) \<and>
     (co_sessions (sh_co sh) = [] \<longrightarrow> co_sessions (sh_co sh') = [])"

lemma waited_refl: "waited sh sh" by (simp add: waited_def)

lemma waited_trans: "waited sh1 sh2 \<Longrightarrow> waited sh2 sh3 \<Longrightarrow> waited sh1 sh3"
  by (simp add: waited_def)

lemma has_ids: "dict_has (sh_transports sh) name \<longleftrightarrow> ids sh name \<noteq> None"
  by (simp add: ids_def dict_has_iff del: map_of_eq_Some_iff)

lemma waited_has: "waited sh sh' \<Longrightarrow> dict_has (sh_transports sh') name = dict_has (sh_transports sh) name"
  unfolding has_ids waited_def by simp

lemma wired_waited: "wired_ok sh \<Longrightarrow> waited sh sh' \<Longrightarrow> wired_ok sh'"
  unfolding wired_ok_def has_ids waited_def by (simp del: map_of_eq_Some_iff)

lemma shell_ok_waited: "shell_ok sh \<Longrightarrow> waited sh sh' \<Longrightarrow> shell_ok sh'"
  using wired_waited [of sh sh'] by (auto simp: shell_ok_def waited_def)

lemma waited_called: "called sh sh' \<Longrightarrow> waited sh sh'"
  by (simp add: called_def waited_def ids_def attached_def fun_eq_iff del: map_of_eq_Some_iff)

lemma waited_quiet: "sh_transports sh' = sh_transports sh \<Longrightarrow> sh_active sh' = sh_active sh \<Longrightarrow> sh_offline_mode sh' = sh_offline_mode sh \<Longrightarrow>
  core (sh_co sh') = core (sh_co sh) \<Longrightarrow> co_running (sh_co sh') = co_running (sh_co sh) \<Longrightarrow> waited sh sh'"
  by (rule waited_called) (rule called_ui)

lemma attached_put: "attached (put_transport name t sh) = (if tp_attached t then insert name (attached sh) else attached sh - {name})"
  by (auto simp: attached_def put_transport_def dict_simps simp del: map_of_eq_Some_iff)

lemma ids_put: "ids (put_transport name t sh) = (ids sh)(name \<mapsto> tp_peer_id t)"
  by (simp add: ids_def put_transport_def dict_simps fun_eq_iff del: map_of_eq_Some_iff)

lemma transport_known:
  assumes "dict_has (sh_transports sh) name"
  shows "tp_attached (transport_of name sh) \<longleftrightarrow> name \<in> attached sh" "ids sh name = Some (tp_peer_id (transport_of name sh))"
proof -
  from assms obtain t where "dict_get (sh_transports sh) name = Some t" by (auto simp: dict_has_iff simp del: map_of_eq_Some_iff)
  then show "tp_attached (transport_of name sh) \<longleftrightarrow> name \<in> attached sh" "ids sh name = Some (tp_peer_id (transport_of name sh))"
    by (simp_all add: attached_def transport_of_def ids_def del: map_of_eq_Some_iff)
qed

lemma waited_put:
  assumes "dict_has (sh_transports sh) name" "tp_attached t = tp_attached (transport_of name sh)" "tp_peer_id t = tp_peer_id (transport_of name sh)"
  shows "waited sh (put_transport name t sh)"
proof -
  have "attached (put_transport name t sh) = attached sh" using transport_known(1) [OF assms(1)] assms(2) by (auto simp: attached_put)
  moreover have "ids (put_transport name t sh) = ids sh" using transport_known(2) [OF assms(1)] assms(3) by (simp add: ids_put fun_upd_idem)
  ultimately show ?thesis by (simp add: waited_def) (simp add: put_transport_def distinct_update)
qed

lemma transport_of_put: "transport_of name (put_transport name' t sh) = (if name = name' then t else transport_of name sh)"
  by (simp add: transport_of_def put_transport_def dict_simps)

lemma await_waited:
  assumes "await_transport env name eff sh = Some (sh', r)" "dict_has (sh_transports sh) name"
  shows "waited sh sh' \<and> r = ef_raises eff \<and> tp_state (transport_of name sh') = ef_state eff \<and> tp_running (transport_of name sh') = ef_running eff"
proof -
  from assms(1) obtain sh1 where sh1: "(if tp_attached (transport_of name sh) then deliver_calls env (ef_calls eff) sh else Some sh) = Some sh1"
    and r: "r = ef_raises eff"
    and sh': "sh' = put_transport name ((transport_of name sh1)\<lparr>tp_state := ef_state eff, tp_error := ef_error eff, tp_running := ef_running eff\<rparr>) sh1"
    by (auto simp: await_transport_def)
  have w: "waited sh sh1" using sh1 by (auto simp: waited_refl split: if_splits dest: calls_called waited_called)
  have "dict_has (sh_transports sh1) name" using waited_has [OF w] assms(2) by simp
  then have "waited sh1 sh'" unfolding sh' by (rule waited_put) simp_all
  with waited_trans [OF w] r show ?thesis by (simp add: sh' transport_of_put)
qed

lemma stop_waited: "stop_transport_safely env name eff sh = Some sh' \<Longrightarrow> dict_has (sh_transports sh) name \<Longrightarrow> waited sh sh'"
  by (auto simp: stop_transport_safely_def dest: await_waited)

lemma waited_status: "waited sh (set_status s sh)" "waited sh (sh\<lparr>sh_error := e\<rparr>)" "waited sh (sh\<lparr>sh_notified := e\<rparr>)" "waited sh (sh\<lparr>sh_pruning := b\<rparr>)"
  "waited sh (show_error m sh)"
  by (rule waited_quiet; simp add: set_status_def show_error_def core_def inbox_def)+

lemma waited_running: "waited sh sh' \<Longrightarrow> waited (set_running b sh) (set_running b sh')"
proof -
  assume w: "waited sh sh'"
  have "core (sh_co (set_running b s)) = core (sh_co s)" "sh_transports (set_running b s) = sh_transports s" for s
    by (simp_all add: set_running_def core_def inbox_def)
  moreover from this have "ids (set_running b s) = ids s" "attached (set_running b s) = attached s" for s by (simp_all add: ids_def attached_def fun_eq_iff)
  ultimately show ?thesis using w unfolding waited_def by (simp add: set_running_def)
qed

lemma announce_waited: "announce_self aw sh = (sh', r) \<Longrightarrow> waited sh sh'"
proof -
  assume a: "announce_self aw sh = (sh', r)"
  obtain c z where c: "send_announce (at_env aw) None (sh_co sh) = (c, z)" by (meson surj_pair)
  have "core c = core (sh_co sh)" "co_running c = co_running (sh_co sh)"
    using core_sending(7) [of "at_env aw" None "sh_co sh"] running_names [OF names_sending(6) [of "at_env aw" None "sh_co sh"]] c by simp_all
  then have "waited sh (with_co sh c)" by (auto intro: waited_called called_core)
  with a c show ?thesis by (auto simp: announce_self_def split: sum.splits)
qed

subsection \<open>Closing the sessions\<close>

lemma fold_close:
  assumes "coordinator_ok c"
  shows "coordinator_ok (fold (\<lambda>i c. put_session i (session_close (co_heap c ! i)) c) is c) \<and>
    (let c' = fold (\<lambda>i c. put_session i (session_close (co_heap c ! i)) c) is c in
     co_sessions c' = co_sessions c \<and> co_timers c' = co_timers c \<and> co_identity c' = co_identity c \<and> co_running c' = co_running c \<and>
     co_tasks c' = co_tasks c \<and> length (co_heap c') = length (co_heap c) \<and>
     (\<forall>j. alive (co_heap c' ! j) \<longrightarrow> j < length (co_heap c) \<longrightarrow> alive (co_heap c ! j) \<and> j \<notin> set is))"
  using assms
proof (induction "is" arbitrary: c)
  case (Cons i xs)
  let ?c = "put_session i (session_close (co_heap c ! i)) c"
  have m: "state_ok s \<Longrightarrow> moves s (session_close s)" for s by (simp add: moves_def close_ok)
  have "coordinator_ok ?c"
  proof (cases "i < length (co_heap c)")
    case True
    with m coordinator_okD(4) [OF Cons.prems True] show ?thesis by (auto intro: put_session_ok [OF Cons.prems])
  next
    case False
    then show ?thesis using Cons.prems by (simp add: put_session_def list_update_beyond)
  qed
  note ih = Cons.IH [OF this, unfolded Let_def]
  have h: "alive (co_heap ?c ! j) \<longrightarrow> alive (co_heap c ! j) \<and> j \<noteq> i" if "j < length (co_heap c)" for j
    using that by (cases "j = i") (simp_all add: put_session_def close_ok)
  define d where "d = fold (\<lambda>i c. put_session i (session_close (co_heap c ! i)) c) xs ?c"
  have f: "co_sessions ?c = co_sessions c" "co_timers ?c = co_timers c" "co_identity ?c = co_identity c" "co_running ?c = co_running c"
    "co_tasks ?c = co_tasks c" "length (co_heap ?c) = length (co_heap c)" by (simp_all add: put_session_def)
  have "coordinator_ok d" "co_sessions d = co_sessions c" "co_timers d = co_timers c" "co_identity d = co_identity c" "co_running d = co_running c"
    "co_tasks d = co_tasks c" "length (co_heap d) = length (co_heap c)"
    and a: "\<forall>j. alive (co_heap d ! j) \<longrightarrow> j < length (co_heap c) \<longrightarrow> alive (co_heap ?c ! j) \<and> j \<notin> set xs"
    using ih unfolding d_def [symmetric] f by blast+
  moreover have "\<forall>j. alive (co_heap d ! j) \<longrightarrow> j < length (co_heap c) \<longrightarrow> alive (co_heap c ! j) \<and> j \<notin> set (i # xs)"
    using a h by auto
  ultimately show ?case unfolding Let_def fold_Cons comp_apply d_def [symmetric] by blast
qed simp

lemma close_sessions_ok:
  assumes "coordinator_ok c"
  shows "coordinator_ok (close_sessions (cancel_handshake_timeouts c))" "co_sessions (close_sessions (cancel_handshake_timeouts c)) = []"
    "co_identity (close_sessions (cancel_handshake_timeouts c)) = co_identity c" "co_running (close_sessions (cancel_handshake_timeouts c)) = co_running c"
    "co_tasks (close_sessions (cancel_handshake_timeouts c)) = co_tasks c"
proof -
  let ?c0 = "cancel_handshake_timeouts c"
  have ok0: "coordinator_ok ?c0" using assms by (simp add: core_def core_ok.simps cancel_handshake_timeouts_def inbox_def)
  define c1 where "c1 = fold (\<lambda>i c. put_session i (session_close (co_heap c ! i)) c) (map snd (co_sessions ?c0)) ?c0"
  have eq: "close_sessions ?c0 = c1\<lparr>co_sessions := []\<rparr>" by (simp add: close_sessions_def c1_def)
  have c1: "coordinator_ok c1" "co_sessions c1 = co_sessions c" "co_timers c1 = []" "co_identity c1 = co_identity c" "co_running c1 = co_running c"
    "co_tasks c1 = co_tasks c"
    "\<And>j. alive (co_heap c1 ! j) \<Longrightarrow> j < length (co_heap c1) \<Longrightarrow> j \<notin> snd ` set (co_sessions c)"
    using fold_close [OF ok0, of "map snd (co_sessions ?c0)"] unfolding c1_def Let_def by (auto simp: cancel_handshake_timeouts_def)
  have dead: "\<not> alive (co_heap c1 ! j)" if "j < length (co_heap c1)" for j
  proof
    assume a: "alive (co_heap c1 ! j)"
    with coordinator_okD(5) [OF c1(1) that] have "dict_get (co_sessions c1) (se_remote_peer_id (co_heap c1 ! j)) = Some j" by simp
    then have "j \<in> snd ` set (co_sessions c)" using c1(2) map_of_SomeD by force
    with c1(7) [OF a that] show False ..
  qed
  show "coordinator_ok (close_sessions ?c0)" unfolding eq
    using c1(1,3) dead by (simp add: core_def core_ok.simps inbox_def)
  show "co_sessions (close_sessions ?c0) = []" "co_identity (close_sessions ?c0) = co_identity c" "co_running (close_sessions ?c0) = co_running c"
    "co_tasks (close_sessions ?c0) = co_tasks c"
    by (simp_all add: eq c1)
qed

lemma table_map:
  assumes "\<And>t. tp_attached (f t) = tp_attached t"
  shows "attached (sh\<lparr>sh_transports := map (\<lambda>e. (fst e, f (snd e))) (sh_transports sh)\<rparr>) = attached sh"
    "dict_get (map (\<lambda>e. (fst e, f (snd e))) d) name = map_option f (dict_get d name)"
    "dict_ok (map (\<lambda>e. (fst e, f (snd e))) d) = dict_ok d"
proof -
  show get: "dict_get (map (\<lambda>e. (fst e, f (snd e))) d) name = map_option f (dict_get d name)" for d name
    by (induction d) auto
  show "attached (sh\<lparr>sh_transports := map (\<lambda>e. (fst e, f (snd e))) (sh_transports sh)\<rparr>) = attached sh"
    using assms by (auto simp: attached_def get simp del: map_of_eq_Some_iff)
  show "dict_ok (map (\<lambda>e. (fst e, f (snd e))) d) = dict_ok d" by (simp add: comp_def)
qed

lemma reset_ok:
  assumes "coordinator_ok (sh_co sh)"
  shows "coordinator_ok (sh_co (reset_session_state sh))" "co_sessions (sh_co (reset_session_state sh)) = []"
    "co_identity (sh_co (reset_session_state sh)) = co_identity (sh_co sh)" "co_running (sh_co (reset_session_state sh)) = co_running (sh_co sh)"
    "attached (reset_session_state sh) = attached sh" "ids (reset_session_state sh) = ids sh"
    "dict_ok (sh_transports (reset_session_state sh)) = dict_ok (sh_transports sh)" "co_tasks (sh_co (reset_session_state sh)) = co_tasks (sh_co sh)"
proof -
  have "core (c\<lparr>co_peer_addresses := [], co_address_to_peer := [], co_nicknames := [], co_announced := [], co_pending := []\<rparr>) = core c" for c
    by (simp add: core_def inbox_def)
  with close_sessions_ok [OF assms] show "coordinator_ok (sh_co (reset_session_state sh))" by (simp add: reset_session_state_def)
  show "attached (reset_session_state sh) = attached sh"
    using table_map(1) [of "\<lambda>t. t\<lparr>tp_discovered := []\<rparr>" sh] by (simp add: reset_session_state_def attached_def)
  show "ids (reset_session_state sh) = ids sh"
    by (simp add: reset_session_state_def ids_def fun_eq_iff table_map(2) [of "\<lambda>t. t\<lparr>tp_discovered := []\<rparr>"] option.map_comp comp_def)
  show "dict_ok (sh_transports (reset_session_state sh)) = dict_ok (sh_transports sh)"
    using table_map(3) [of "\<lambda>t. t\<lparr>tp_discovered := []\<rparr>" "sh_transports sh"] by (simp add: reset_session_state_def comp_def)
qed (use close_sessions_ok [OF assms] in \<open>simp_all add: reset_session_state_def\<close>)

subsection \<open>Every operation keeps the invariant\<close>

lemma active_known: "wired_ok sh \<Longrightarrow> dict_has (sh_transports sh) (sh_active sh)"
  by (rule wired_okD(3))

lemma running_frame: "core (sh_co (set_running b sh)) = core (sh_co sh)" "attached (set_running b sh) = attached sh"
  "sh_transports (set_running b sh) = sh_transports sh" "sh_active (set_running b sh) = sh_active sh"
  "sh_offline_mode (set_running b sh) = sh_offline_mode sh" "co_running (sh_co (set_running b sh)) = b"
  by (simp_all add: set_running_def core_def inbox_def attached_def)

lemma wired_running: "wired_ok (set_running b sh) = wired_ok sh"
  unfolding wired_ok_def running_frame ..

lemma wired_mode: "wired_ok (sh\<lparr>sh_offline_mode := b\<rparr>) = wired_ok sh"
  by (simp add: wired_ok_def attached_def del: map_of_eq_Some_iff)

text \<open>The state after a failed attempt, and after a successful one.\<close>

definition went_down :: "shell \<Rightarrow> bool" where
  "went_down sh \<longleftrightarrow> \<not> co_running (sh_co sh) \<and> tp_state (active_transport sh) \<in> {UNAVAILABLE, DISABLED, ERROR} \<and> sh_error sh \<noteq> None \<and>
     co_status (sh_co sh) = state_value (tp_state (active_transport sh)) \<and> sh_error sh = tp_error (active_transport sh)"

definition came_up :: "shell \<Rightarrow> bool" where
  "came_up sh \<longleftrightarrow> co_running (sh_co sh) \<and> \<not> sh_offline_mode sh \<and> sh_pruning sh"

lemma outcome_ok: "wired_ok sh \<Longrightarrow> went_down sh \<or> came_up sh \<Longrightarrow> shell_ok sh"
  by (auto simp: shell_ok_def went_down_def came_up_def)

lemma give_up_down:
  assumes "give_up aw failed msg sh = Some sh'" "wired_ok sh"
  shows "went_down sh'" "waited (set_running False sh) sh'" "wired_ok sh'"
proof -
  from assms(1) obtain sh1 where s: "stop_transport_safely (at_env aw) (sh_active sh) (at_release aw) sh = Some sh1"
    and sh': "sh' = (set_status (state_value (effective_state failed)) (set_running False (preserve_failed_transport_state failed msg sh1)))\<lparr>sh_error := Some msg\<rparr>"
    by (auto simp: give_up_def)
  have w: "waited sh sh1" by (rule stop_waited [OF s active_known [OF assms(2)]])
  have k: "dict_has (sh_transports sh1) (sh_active sh1)" by (rule active_known [OF wired_waited [OF assms(2) w]])
  have p: "waited sh1 (preserve_failed_transport_state failed msg sh1)"
    unfolding preserve_failed_transport_state_def by (rule waited_put [OF k]) (simp_all add: active_transport_def)
  show "waited (set_running False sh) sh'" unfolding sh'
    by (intro waited_trans [OF waited_trans [OF waited_running [OF waited_trans [OF w p]] waited_status(1)] waited_status(2)])
  from wired_waited [OF _ this] show "wired_ok sh'" by (simp add: wired_running assms(2))
  show "went_down sh'"
    by (auto simp: sh' went_down_def active_transport_def preserve_failed_transport_state_def set_status_def set_running_def effective_state_def
        put_transport_def transport_of_def dict_simps)
qed

lemma down_status: "went_down sh \<Longrightarrow> went_down (show_error m sh)"
proof -
  have f: "active_transport (show_error m sh) = active_transport sh" "sh_co (show_error m sh) = sh_co sh" "sh_error (show_error m sh) = sh_error sh"
    by (simp_all add: show_error_def active_transport_def transport_of_def)
  show "went_down sh \<Longrightarrow> went_down (show_error m sh)" unfolding went_down_def f .
qed

text \<open>Failing after the coordinator waited: what changed since \<open>sh0\<close>, up to the flag.\<close>

definition fell :: "shell \<Rightarrow> shell \<Rightarrow> bool" where
  "fell sh0 sh \<longleftrightarrow> wired_ok sh \<and> went_down sh \<and> waited (set_running False sh0) sh"

lemma give_up_fell: "give_up aw failed msg sh = Some sh' \<Longrightarrow> wired_ok sh \<Longrightarrow> fell sh sh'"
  using give_up_down by (simp add: fell_def)

lemma fell_waited: "waited sh0 sh1 \<Longrightarrow> fell sh1 sh \<Longrightarrow> fell sh0 sh"
  unfolding fell_def by (meson waited_running waited_trans)

lemma set_running_twice: "set_running b (set_running b' sh) = set_running b sh"
  by (simp add: set_running_def)

lemma start_fails_fell: "start_fails aw f sh = Some sh' \<Longrightarrow> wired_ok sh \<Longrightarrow> fell sh sh'"
proof -
  assume a: "start_fails aw f sh = Some sh'" and ok: "wired_ok sh"
  from a obtain sh1 where g: "give_up aw (tp_state (active_transport sh)) (failure_text f) (set_running False sh) = Some sh1"
    and sh': "sh' = (if sh_error sh1 \<noteq> sh_notified sh1 then show_error (failure_text f) sh1 else sh1)" by (auto simp: start_fails_def)
  have "fell sh sh1" using give_up_fell [OF g] ok by (simp add: wired_running fell_def set_running_twice)
  then have "fell sh (show_error m sh1)" for m
    unfolding fell_def using down_status wired_waited waited_trans waited_status(5) by blast
  with \<open>fell sh sh1\<close> show ?thesis by (simp add: sh')
qed

lemma retry_fails_fell: "retry_fails aw f sh = Some (sh', b) \<Longrightarrow> wired_ok sh \<Longrightarrow> fell sh sh' \<and> \<not> b"
  by (auto simp: retry_fails_def dest!: give_up_fell split: failure.splits)

lemma switch_fails_fell: "switch_fails aw f sh = Some (sh', b, m) \<Longrightarrow> wired_ok sh \<Longrightarrow> fell sh sh' \<and> \<not> b"
  by (auto simp: switch_fails_def dest!: give_up_fell)

lemma fell_ok: "fell sh0 sh \<Longrightarrow> shell_ok sh \<and> went_down sh"
  by (auto simp: fell_def intro: outcome_ok)

lemma up_ok:
  assumes "wired_ok sh0" "waited sh0 sh" "co_running (sh_co sh0)" "\<not> sh_offline_mode sh0"
  shows "shell_ok (sh\<lparr>sh_pruning := True\<rparr>) \<and> came_up (sh\<lparr>sh_pruning := True\<rparr>) \<and> waited sh0 (sh\<lparr>sh_pruning := True\<rparr>)"
proof -
  have w: "waited sh0 (sh\<lparr>sh_pruning := True\<rparr>)" by (rule waited_trans [OF assms(2) waited_status(4)])
  then have "came_up (sh\<lparr>sh_pruning := True\<rparr>)" using assms(3,4) by (simp add: waited_def came_up_def)
  with w wired_waited [OF assms(1) w] show ?thesis by (auto intro: outcome_ok)
qed

text \<open>\<open>start\<close>, when it does anything: the transport ends attached or the attempt failed.\<close>

lemma start_outcome:
  assumes "coordinator_start aw sh = Some sh'" "wired_ok sh" "\<not> co_running (sh_co sh)" "\<not> sh_offline_mode sh"
  shows "shell_ok sh' \<and> attached sh' = {sh_active sh'} \<and> (came_up sh' \<or> went_down sh')"
proof -
  define sh1 where "sh1 = (set_status ''checking'' (set_running True sh))\<lparr>sh_error := None, sh_notified := None\<rparr>"
  define t where "t = identify (own_id (sh_co sh1)) (co_nickname (sh_co sh1)) (active_transport sh1)"
  define sh2 where "sh2 = wire_transport_callbacks (sh_active sh1) (put_transport (sh_active sh1) t sh1)"
  have "waited (set_running True sh) sh1" unfolding sh1_def
    by (rule waited_quiet) (simp_all add: set_status_def core_def inbox_def)
  then have ok1: "wired_ok sh1" by (rule wired_waited [rotated]) (simp add: wired_running assms(2))
  have act: "sh_active sh2 = sh_active sh1" "co_running (sh_co sh2)" "\<not> sh_offline_mode sh2"
    using assms(4) by (simp_all add: sh2_def sh1_def wire_transport_callbacks_def put_transport_def set_status_def set_running_def)
  have att: "attached sh2 = {sh_active sh2}"
    using wired_okD(4) [OF ok1] unfolding act(1) by (auto simp: sh2_def wire_transport_callbacks_def attached_put)
  have ok2: "wired_ok sh2"
  proof (rule wired_okI)
    show "coordinator_ok (sh_co sh2)" "dict_ok (sh_transports sh2)" "dict_has (sh_transports sh2) (sh_active sh2)"
      using wired_okD [OF ok1] by (simp_all add: sh2_def wire_transport_callbacks_def put_transport_def distinct_update dict_has_iff dict_simps del: map_of_eq_Some_iff)
  qed (simp add: att)
  have eq: "coordinator_start aw sh = Option.bind (await_transport (at_env aw) (sh_active sh2) (at_start aw) sh2) (\<lambda>(sh3, r).
             case r of
               Some f \<Rightarrow> start_fails aw f sh3
             | None \<Rightarrow>
                 (case announce_self aw (set_status (state_value (tp_state (active_transport sh3))) sh3) of
                    (sh4, Some f) \<Rightarrow> start_fails aw f sh4
                  | (sh4, None) \<Rightarrow> Some (sh4\<lparr>sh_pruning := True\<rparr>)))"
    using assms(3,4) by (simp add: coordinator_start_def Let_def sh2_def t_def sh1_def)
  from assms(1) obtain sh3 r where a: "await_transport (at_env aw) (sh_active sh2) (at_start aw) sh2 = Some (sh3, r)"
    unfolding eq by (auto simp: bind_eq_Some_conv)
  have w3: "waited sh2 sh3" using await_waited [OF a active_known [OF ok2]] by blast
  have fails: "shell_ok sh' \<and> attached sh' = {sh_active sh'} \<and> went_down sh'" if "start_fails aw f s = Some sh'" "waited sh2 s" for f s
  proof -
    have f: "fell sh2 sh'" by (rule fell_waited [OF that(2) start_fails_fell [OF that(1) wired_waited [OF ok2 that(2)]]])
    then have "attached sh' = {sh_active sh'}" using att by (simp add: fell_def waited_def running_frame)
    with fell_ok [OF f] show ?thesis by blast
  qed
  show ?thesis
  proof (cases r)
    case (Some f)
    with assms(1) a have "start_fails aw f sh3 = Some sh'" unfolding eq by simp
    from fails [OF this w3] show ?thesis by blast
  next
    case None
    obtain sh4 z where n: "announce_self aw (set_status (state_value (tp_state (active_transport sh3))) sh3) = (sh4, z)" by (meson surj_pair)
    have w4: "waited sh2 sh4" by (rule waited_trans [OF w3 waited_trans [OF waited_status(1) announce_waited [OF n]]])
    show ?thesis
    proof (cases z)
      case (Some f)
      with assms(1) a n None have "start_fails aw f sh4 = Some sh'" unfolding eq by simp
      from fails [OF this w4] show ?thesis by blast
    next
      case z: None
      with assms(1) a n None have sh': "sh' = sh4\<lparr>sh_pruning := True\<rparr>" unfolding eq by simp
      with up_ok [OF ok2 w4 act(2,3)] att show ?thesis by (auto simp: waited_def)
    qed
  qed
qed

lemma retry_outcome:
  assumes r: "retry_active_transport aw sh = Some (sh', b)" and ok: "wired_ok sh"
  shows "shell_ok sh' \<and> (if b then came_up sh' else went_down sh')"
proof -
  define sh0 where "sh0 = (set_status ''checking'' sh)\<lparr>sh_error := None\<rparr>"
  have ok0: "wired_ok sh0" unfolding sh0_def by (intro wired_waited [OF wired_waited [OF ok waited_status(1)] waited_status(2)])
  have act: "sh_active sh = sh_active sh0" by (simp add: sh0_def set_status_def)
  define next_step where "next_step = (\<lambda>(sh2, r). case r of
            Some f \<Rightarrow> retry_fails aw f sh2
          | None \<Rightarrow>
              let sh3 = set_status (state_value (tp_state (active_transport sh2))) (set_running True sh2) in
              if \<not> transport_is_operational (at_telemetry aw) sh3
              then map_option (\<lambda>sh4. (sh4, False))
                     (give_up aw (tp_state (active_transport sh3))
                        (case truthy (tm_error (at_telemetry aw)) of Some m \<Rightarrow> m | None \<Rightarrow> ''Transport is not operational'') sh3)
              else (case announce_self aw (sh3\<lparr>sh_offline_mode := False\<rparr>) of
                      (sh4, Some f) \<Rightarrow> retry_fails aw f sh4
                    | (sh4, None) \<Rightarrow> Some (sh4\<lparr>sh_pruning := True\<rparr>, True)))"
  have "Option.bind (stop_transport_safely (at_env aw) (sh_active sh0) (at_stop aw (sh_active sh0)) sh0)
      (\<lambda>sh1. Option.bind (await_transport (at_env aw) (sh_active sh1) (at_start aw) sh1) next_step) = Some (sh', b)"
    using r unfolding retry_active_transport_def next_step_def sh0_def [symmetric] act .
  then obtain sh1 sh2 x where s: "stop_transport_safely (at_env aw) (sh_active sh0) (at_stop aw (sh_active sh0)) sh0 = Some sh1"
    and a: "await_transport (at_env aw) (sh_active sh1) (at_start aw) sh1 = Some (sh2, x)" and n: "next_step (sh2, x) = Some (sh', b)"
    by (auto simp: bind_eq_Some_conv)
  have ok1: "wired_ok sh1" by (rule wired_waited [OF ok0 stop_waited [OF s active_known [OF ok0]]])
  have ok2: "wired_ok sh2" using wired_waited [OF ok1] await_waited [OF a active_known [OF ok1]] by blast
  show ?thesis
  proof (cases x)
    case (Some f)
    with n have "retry_fails aw f sh2 = Some (sh', b)" by (simp add: next_step_def)
    from retry_fails_fell [OF this ok2] fell_ok show ?thesis by auto
  next
    case None
    define sh3 where "sh3 = set_status (state_value (tp_state (active_transport sh2))) (set_running True sh2)"
    have ok3: "wired_ok sh3" unfolding sh3_def by (rule wired_waited [OF _ waited_status(1)]) (simp add: wired_running ok2)
    show ?thesis
    proof (cases "transport_is_operational (at_telemetry aw) sh3")
      case False
      with n None have "give_up aw (tp_state (active_transport sh3))
          (case truthy (tm_error (at_telemetry aw)) of Some m \<Rightarrow> m | None \<Rightarrow> ''Transport is not operational'') sh3 = Some sh'" "\<not> b"
        by (auto simp: next_step_def sh3_def [symmetric] Let_def)
      from fell_ok [OF give_up_fell [OF this(1) ok3]] this(2) show ?thesis by simp
    next
      case True
      define sh3' where "sh3' = sh3\<lparr>sh_offline_mode := False\<rparr>"
      have ok3': "wired_ok sh3'" using ok3 by (simp add: sh3'_def wired_mode)
      obtain sh4 z where an: "announce_self aw sh3' = (sh4, z)" by (meson surj_pair)
      note w = announce_waited [OF an]
      have n': "(case z of Some f \<Rightarrow> retry_fails aw f sh4 | None \<Rightarrow> Some (sh4\<lparr>sh_pruning := True\<rparr>, True)) = Some (sh', b)"
        using n None True an by (simp add: next_step_def sh3_def [symmetric] sh3'_def Let_def)
      show ?thesis
      proof (cases z)
        case (Some f)
        with n' have "retry_fails aw f sh4 = Some (sh', b)" by simp
        from retry_fails_fell [OF this wired_waited [OF ok3' w]] fell_ok show ?thesis by auto
      next
        case z: None
        have "co_running (sh_co sh3')" "\<not> sh_offline_mode sh3'" by (simp_all add: sh3'_def sh3_def set_status_def set_running_def)
        from up_ok [OF ok3' w this] n' z show ?thesis by auto
      qed
    qed
  qed
qed

subsection \<open>Stopping and switching\<close>

lemma detach_keeps: "sh_co (detach_transport_callbacks name sh) = sh_co sh" "sh_active (detach_transport_callbacks name sh) = sh_active sh"
  "sh_offline_mode (detach_transport_callbacks name sh) = sh_offline_mode sh" "attached (detach_transport_callbacks name sh) = attached sh - {name}"
  "dict_ok (sh_transports sh) \<Longrightarrow> dict_ok (sh_transports (detach_transport_callbacks name sh))"
  by (simp_all add: detach_transport_callbacks_def attached_put) (simp_all add: put_transport_def distinct_update)

lemma detach_ids: "dict_has (sh_transports sh) name \<Longrightarrow> ids (detach_transport_callbacks name sh) = ids sh"
  using transport_known(2) [of sh name] by (simp add: detach_transport_callbacks_def ids_put fun_upd_idem del: dict_has_iff)

lemma detach_wired: "wired_ok sh \<Longrightarrow> dict_has (sh_transports sh) name \<Longrightarrow> wired_ok (detach_transport_callbacks name sh)"
  unfolding wired_ok_def detach_keeps has_ids using detach_keeps(5) [of sh name] detach_ids [of sh name] unfolding has_ids by auto

text \<open>Stopping transports one after the other changes what waiting changes, and may detach them.\<close>

definition stopped :: "shell \<Rightarrow> shell \<Rightarrow> bool" where
  "stopped sh sh' \<longleftrightarrow> wired_ok sh' \<and> ids sh' = ids sh \<and> attached sh' \<subseteq> attached sh \<and> sh_active sh' = sh_active sh \<and>
     sh_offline_mode sh' = sh_offline_mode sh \<and> co_running (sh_co sh') = co_running (sh_co sh) \<and> co_identity (sh_co sh') = co_identity (sh_co sh) \<and>
     (co_sessions (sh_co sh) = [] \<longrightarrow> co_sessions (sh_co sh') = [])"

lemma stopped_waited: "wired_ok sh \<Longrightarrow> waited sh sh' \<Longrightarrow> stopped sh sh'"
  using wired_waited [of sh sh'] by (simp add: stopped_def waited_def)

lemma stopped_trans: "stopped sh1 sh2 \<Longrightarrow> stopped sh2 sh3 \<Longrightarrow> stopped sh1 sh3"
  by (auto simp: stopped_def)

lemma stopped_detach: "wired_ok sh \<Longrightarrow> dict_has (sh_transports sh) name \<Longrightarrow> stopped sh (detach_transport_callbacks name sh)"
  using detach_wired [of sh name] detach_ids [of sh name] unfolding stopped_def detach_keeps by blast

lemma stop_transports_stopped:
  "stop_transports aw b xs sh = Some sh' \<Longrightarrow> wired_ok sh \<Longrightarrow> \<forall>n \<in> set xs. dict_has (sh_transports sh) n \<Longrightarrow> stopped sh sh'"
proof (induction xs arbitrary: sh)
  case Nil
  then show ?case by (simp add: stopped_waited waited_refl)
next
  case (Cons n ns)
  define sh0 where "sh0 = (if b then detach_transport_callbacks n sh else sh)"
  from Cons.prems obtain sh1 where s: "stop_transport_safely (at_env aw) n (at_stop aw n) sh0 = Some sh1" and r: "stop_transports aw b ns sh1 = Some sh'"
    by (auto simp: sh0_def bind_eq_Some_conv)
  have s0: "stopped sh sh0" using Cons.prems by (auto simp: sh0_def intro: stopped_detach stopped_waited waited_refl)
  have k: "dict_has (sh_transports sh0) m = dict_has (sh_transports sh) m" for m
    using s0 unfolding has_ids stopped_def by simp
  have ok0: "wired_ok sh0" using s0 by (simp add: stopped_def)
  have w: "waited sh0 sh1" by (rule stop_waited [OF s]) (use Cons.prems(3) k in simp)
  have "stopped sh1 sh'" by (rule Cons.IH [OF r wired_waited [OF ok0 w]]) (use Cons.prems(3) k waited_has [OF w] in auto)
  from stopped_trans [OF stopped_trans [OF s0 stopped_waited [OF ok0 w]] this] show ?case .
qed

lemma names_known: "n \<in> set (map fst d) \<Longrightarrow> dict_has d n"
  by (induction d) (auto simp: dict_has_iff)

lemma all_known: "sh_transports sh' = d \<Longrightarrow> \<forall>n \<in> set (map fst d). dict_has (sh_transports sh') n"
  by (rule ballI) (simp only: names_known not_False_eq_True)

lemma stop_outcome:
  assumes "coordinator_stop aw sh = Some sh'" "wired_ok sh"
  shows "shell_ok sh' \<and> \<not> co_running (sh_co sh') \<and> co_sessions (sh_co sh') = [] \<and> sh_offline_mode sh' = sh_offline_mode sh"
proof -
  define sh1 where "sh1 = (set_status ''offline'' (set_running False sh))\<lparr>sh_error := None, sh_pruning := False\<rparr>"
  define c where "c = (close_sessions (cancel_handshake_timeouts (sh_co sh1)))\<lparr>co_pending := [], co_announced := [], co_tasks := []\<rparr>"
  have run: "stop_transports aw True (map fst (sh_transports sh1)) (with_co sh1 c) = Some sh'"
    using assms(1) by (simp add: coordinator_stop_def Let_def sh1_def c_def)
  have "waited (set_running False sh) sh1" unfolding sh1_def by (rule waited_quiet) (simp_all add: set_status_def core_def inbox_def)
  then have ok1: "wired_ok sh1" by (rule wired_waited [rotated]) (simp add: wired_running assms(2))
  note cl = close_sessions_ok [OF wired_okD(1) [OF ok1]]
  have "coordinator_ok c" using cl(1) by (simp add: c_def core_def core_ok.simps inbox_def)
  then have ok2: "wired_ok (with_co sh1 c)" using wired_okD [OF ok1]
    by (intro wired_okI) (simp_all add: with_co_def attached_def del: map_of_eq_Some_iff)
  have st: "stopped (with_co sh1 c) sh'" by (rule stop_transports_stopped [OF run ok2 all_known]) (simp add: with_co_def)
  have "co_sessions c = []" "\<not> co_running c" using cl(2,4) by (simp_all add: c_def sh1_def set_status_def set_running_def)
  moreover have "sh_offline_mode sh1 = sh_offline_mode sh" by (simp add: sh1_def set_status_def set_running_def)
  ultimately show ?thesis using st by (auto simp: stopped_def shell_ok_def with_co_def)
qed

lemma quiet_status: "wired_ok sh \<Longrightarrow> wired_ok ((set_status s sh)\<lparr>sh_error := e\<rparr>)"
  by (intro wired_waited [OF wired_waited [OF _ waited_status(1)] waited_status(2)])

lemma reset_wired: "wired_ok sh \<Longrightarrow> wired_ok (reset_session_state sh)"
proof -
  assume ok: "wired_ok sh"
  note r = reset_ok [OF wired_okD(1) [OF ok]]
  have "sh_active (reset_session_state sh) = sh_active sh" by (simp add: reset_session_state_def)
  then show ?thesis using r wired_okD [OF ok] unfolding wired_ok_def has_ids by simp
qed

lemma offline_outcome:
  assumes "go_offline aw sh = Some sh'" "wired_ok sh"
  shows "shell_ok sh' \<and> sh_offline_mode sh' \<and> \<not> co_running (sh_co sh') \<and> co_sessions (sh_co sh') = []"
proof -
  from assms(1) obtain sh1 where s: "stop_transports aw False (map fst (sh_transports sh)) (sh\<lparr>sh_offline_mode := True\<rparr>) = Some sh1"
    and sh': "sh' = (set_status ''offline'' (set_running False (reset_session_state sh1)))\<lparr>sh_error := None\<rparr>" by (auto simp: go_offline_def)
  have "stopped (sh\<lparr>sh_offline_mode := True\<rparr>) sh1"
    by (rule stop_transports_stopped [OF s _ all_known]) (use assms(2) in \<open>simp_all add: wired_mode\<close>)
  then have ok1: "wired_ok sh1" "sh_offline_mode sh1" by (simp_all add: stopped_def)
  have "wired_ok sh'" unfolding sh' by (intro quiet_status) (simp add: wired_running reset_wired ok1(1))
  moreover have "sh_offline_mode sh'" "\<not> co_running (sh_co sh')" "co_sessions (sh_co sh') = []"
    using ok1 reset_ok(2) [OF wired_okD(1) [OF ok1(1)]]
    by (simp_all add: sh' set_status_def set_running_def) (simp add: reset_session_state_def)
  ultimately show ?thesis by (simp add: shell_ok_def)
qed

text \<open>What an attempt keeps of the state it starts from.\<close>

definition kept :: "shell \<Rightarrow> shell \<Rightarrow> bool" where
  "kept sh sh' \<longleftrightarrow> ids sh' = ids sh \<and> attached sh' = attached sh \<and> sh_active sh' = sh_active sh \<and>
     co_identity (sh_co sh') = co_identity (sh_co sh) \<and> (co_sessions (sh_co sh) = [] \<longrightarrow> co_sessions (sh_co sh') = [])"

lemma kept_waited: "waited sh sh' \<Longrightarrow> kept sh sh'"
  by (simp add: kept_def waited_def)

lemma kept_trans: "kept sh1 sh2 \<Longrightarrow> kept sh2 sh3 \<Longrightarrow> kept sh1 sh3"
  by (simp add: kept_def)

lemma kept_quiet: "kept sh (set_running b sh)" "kept sh (sh\<lparr>sh_error := e, sh_offline_mode := m\<rparr>)"
  by (simp_all add: kept_def set_running_def ids_def attached_def fun_eq_iff)

lemma kept_fell: "fell sh sh' \<Longrightarrow> kept sh sh'"
  using kept_trans [OF kept_quiet(1) [of sh False] kept_waited] by (simp add: fell_def)

lemma enter_outcome:
  assumes "enter_transport aw sh = Some (sh', b, msg)" "wired_ok sh"
  shows "wired_ok sh' \<and> kept sh sh' \<and> (if b then came_up sh' \<and> tp_state (active_transport sh') = ef_state (at_start aw) else went_down sh')"
proof -
  from assms(1) obtain sh1 r where a: "await_transport (at_env aw) (sh_active sh) (at_start aw) sh = Some (sh1, r)"
    by (auto simp: enter_transport_def bind_eq_Some_conv)
  have w1: "waited sh sh1" using await_waited [OF a active_known [OF assms(2)]] by blast
  have ok1: "wired_ok sh1" by (rule wired_waited [OF assms(2) w1])
  have fails: "wired_ok sh' \<and> kept sh sh' \<and> went_down sh' \<and> \<not> b" if "switch_fails aw f s = Some (sh', b, msg)" "wired_ok s" "kept sh s" for f s
    using switch_fails_fell [OF that(1,2)] kept_trans [OF that(3) kept_fell] by (auto simp: fell_def)
  define base where "base = set_running True (set_status (state_value (tp_state (active_transport sh1))) sh1)\<lparr>sh_error := None, sh_offline_mode := False\<rparr>"
  have okb: "wired_ok base" unfolding base_def
    using wired_waited [OF ok1 waited_status(1) [of sh1 "state_value (tp_state (active_transport sh1))"]] wired_running [of True "set_status (state_value (tp_state (active_transport sh1))) sh1"]
    by (simp add: wired_ok_def attached_def del: map_of_eq_Some_iff)
  have kb: "kept sh base" unfolding base_def
    by (rule kept_trans [OF kept_waited [OF w1] kept_trans [OF kept_waited [OF waited_status(1)] kept_trans [OF kept_quiet(1) kept_quiet(2)]]])
  have eq: "enter_transport aw sh = (case r of
         Some f \<Rightarrow> switch_fails aw f sh1
       | None \<Rightarrow>
           if \<not> tp_running (active_transport sh1) \<or> tp_state (active_transport sh1) \<in> down_states
           then switch_fails aw (Raised (case truthy (tm_error (at_telemetry aw)) of Some m \<Rightarrow> m
                  | None \<Rightarrow> sh_active sh1 @ '' transport is not operational'')) sh1
           else (case announce_self aw base of
                   (sh2, Some f) \<Rightarrow> switch_fails aw f sh2
                 | (sh2, None) \<Rightarrow> Some (sh2\<lparr>sh_pruning := True\<rparr>, True,
                     ''Switched transport to '' @ (if sh_active sh2 = ''lan'' then ''LAN / Wi-Fi'' else ''Bluetooth'') @
                     ''. New secure chat session created. Peer identity: '' @ take 12 (own_id (sh_co sh2)))))"
    by (simp only: enter_transport_def a Option.bind.simps prod.case base_def)
  show ?thesis
  proof (cases r)
    case (Some f)
    with assms(1) have "switch_fails aw f sh1 = Some (sh', b, msg)" unfolding eq by simp
    from fails [OF this ok1 kept_waited [OF w1]] show ?thesis by simp
  next
    case None
    show ?thesis
    proof (cases "\<not> tp_running (active_transport sh1) \<or> tp_state (active_transport sh1) \<in> down_states")
      case True
      with assms(1) None have "switch_fails aw (Raised (case truthy (tm_error (at_telemetry aw)) of Some m \<Rightarrow> m
                  | None \<Rightarrow> sh_active sh1 @ '' transport is not operational'')) sh1 = Some (sh', b, msg)" unfolding eq by (simp only: option.case if_True)
      from fails [OF this ok1 kept_waited [OF w1]] show ?thesis by simp
    next
      case False
      obtain sh2 z where an: "announce_self aw base = (sh2, z)" by (meson surj_pair)
      note w = announce_waited [OF an]
      show ?thesis
      proof (cases z)
        case (Some f)
        with assms(1) None False an have "switch_fails aw f sh2 = Some (sh', b, msg)" unfolding eq by simp
        from fails [OF this wired_waited [OF okb w] kept_trans [OF kb kept_waited [OF w]]] show ?thesis by simp
      next
        case z: None
        with assms(1) None False an have sh': "sh' = sh2\<lparr>sh_pruning := True\<rparr>" and b unfolding eq by simp_all
        have "co_running (sh_co base)" "\<not> sh_offline_mode base" by (simp_all add: base_def set_running_def)
        note u = up_ok [OF okb w this]
        have tr: "sh_transports sh2 = sh_transports base \<and> sh_active sh2 = sh_active base"
          using an by (auto simp: announce_self_def with_co_def split: prod.splits sum.splits)
        have "sh_transports base = sh_transports sh1 \<and> sh_active base = sh_active sh1" by (simp add: base_def set_running_def set_status_def)
        with tr have "active_transport sh' = active_transport sh1" by (simp add: sh' active_transport_def transport_of_def)
        moreover have "sh_active sh1 = sh_active sh" using w1 by (simp add: waited_def)
        then have "tp_state (active_transport sh1) = ef_state (at_start aw)"
          using await_waited [OF a active_known [OF assms(2)]] by (simp add: active_transport_def)
        ultimately show ?thesis using u kept_trans [OF kb kept_waited] wired_waited [OF okb] \<open>b\<close> by (auto simp: sh')
      qed
    qed
  qed
qed

lemma identify_all_keeps:
  "attached (identify_all sh) = attached sh" "ids (identify_all sh) n = (case ids sh n of None \<Rightarrow> None | Some i \<Rightarrow> Some (own_id (sh_co sh)))"
  "dict_ok (sh_transports (identify_all sh)) = dict_ok (sh_transports sh)" "sh_co (identify_all sh) = sh_co sh" "sh_active (identify_all sh) = sh_active sh"
  "sh_offline_mode (identify_all sh) = sh_offline_mode sh"
proof -
  let ?f = "identify (own_id (sh_co sh)) (co_nickname (sh_co sh))"
  have f: "tp_attached (?f t) = tp_attached t" "tp_peer_id (?f t) = own_id (sh_co sh)" for t by (simp_all add: identify_def)
  show "attached (identify_all sh) = attached sh" using table_map(1) [of ?f sh] f by (simp add: identify_all_def attached_def)
  show "ids (identify_all sh) n = (case ids sh n of None \<Rightarrow> None | Some i \<Rightarrow> Some (own_id (sh_co sh)))"
    using table_map(2) [of ?f "sh_transports sh" n] f by (simp add: identify_all_def ids_def option.map_comp comp_def del: map_of_eq_Some_iff split: option.split)
  show "dict_ok (sh_transports (identify_all sh)) = dict_ok (sh_transports sh)"
    using table_map(3) [of ?f "sh_transports sh"] f by (simp add: identify_all_def comp_def)
qed (simp_all add: identify_all_def)

lemma leave_outcome:
  assumes "leave_transport aw target sh = Some sh'" "wired_ok sh" "target = ''lan'' \<or> dict_has (sh_transports sh) target"
  shows "wired_ok sh'" "sh_active sh' = target" "attached sh' = {target}" "co_sessions (sh_co sh') = []"
    "co_identity (sh_co sh') = co_identity (sh_co sh)" "\<forall>n pid. ids sh' n = Some pid \<longrightarrow> pid = own_id (sh_co sh)"
proof -
  from assms(1) obtain sh1 where s: "stop_transport_safely (at_env aw) (sh_active sh) (at_stop aw (sh_active sh)) sh = Some sh1"
    by (auto simp: leave_transport_def)
  define sh0 where "sh0 = detach_transport_callbacks (sh_active sh1) sh1"
  define sh2 where "sh2 = identify_all (reset_session_state sh0)"
  define sh3 where "sh3 = (if target = ''lan'' \<and> \<not> dict_has (sh_transports sh2) ''lan''
                  then put_transport ''lan'' (new_transport (own_id (sh_co sh2)) (co_nickname (sh_co sh2))) sh2 else sh2)"
  have sh': "sh' = wire_transport_callbacks target (sh3\<lparr>sh_active := target\<rparr>)"
    using assms(1) s by (simp only: leave_transport_def option.map sh3_def sh2_def sh0_def Let_def option.inject)
  have w: "waited sh sh1" by (rule stop_waited [OF s active_known [OF assms(2)]])
  have ok1: "wired_ok sh1" by (rule wired_waited [OF assms(2) w])
  have ok0: "wired_ok sh0" unfolding sh0_def by (rule detach_wired [OF ok1 active_known [OF ok1]])
  have att0: "attached sh0 = {}" using wired_okD(4) [OF ok1] by (auto simp: sh0_def detach_keeps)
  note r = reset_ok [OF wired_okD(1) [OF ok0]]
  have id: "co_identity (sh_co sh2) = co_identity (sh_co sh)" "co_sessions (sh_co sh2) = []" "coordinator_ok (sh_co sh2)" "attached sh2 = {}"
    "dict_ok (sh_transports sh2)"
    using r w att0 wired_okD(2) [OF ok0] by (simp_all add: sh2_def identify_all_keeps waited_def) (simp_all add: sh0_def detach_keeps)
  have ids2: "ids sh2 n = (case ids sh n of None \<Rightarrow> None | Some i \<Rightarrow> Some (own_id (sh_co sh)))" for n
  proof -
    have "ids sh0 = ids sh" unfolding sh0_def using detach_ids [OF active_known [OF ok1]] w by (simp add: waited_def)
    moreover have "own_id (sh_co (reset_session_state sh0)) = own_id (sh_co sh)"
      using r(3) w by (simp add: sh0_def detach_keeps waited_def)
    ultimately show ?thesis unfolding sh2_def identify_all_keeps r(6) by (simp only:)
  qed
  have co3: "sh_co sh3 = sh_co sh2" by (simp add: sh3_def put_transport_def)
  have att3: "attached sh3 = {}" using id(4) by (simp add: sh3_def attached_put new_transport_def)
  have ok3: "dict_ok (sh_transports sh3)" using id(5) by (simp add: sh3_def put_transport_def distinct_update)
  have ids3: "\<forall>n pid. ids sh3 n = Some pid \<longrightarrow> pid = own_id (sh_co sh)"
    using ids2 id(1) by (auto simp: sh3_def ids_put new_transport_def split: option.splits if_splits)
  have has3: "ids sh3 target \<noteq> None"
    using assms(3) unfolding has_ids sh3_def by (cases "target = ''lan''") (auto simp: ids_put ids2 split: option.split)
  have f: "attached (sh3\<lparr>sh_active := target\<rparr>) = {}" "ids (sh3\<lparr>sh_active := target\<rparr>) = ids sh3"
    "transport_of target (sh3\<lparr>sh_active := target\<rparr>) = transport_of target sh3"
    using att3 by (simp_all add: attached_def ids_def fun_eq_iff transport_of_def)
  have "dict_has (sh_transports sh3) target" unfolding has_ids by (rule has3)
  then have pid: "ids sh3 target = Some (tp_peer_id (transport_of target sh3))" by (rule transport_known(2))
  show "attached sh' = {target}" "sh_active sh' = target" unfolding sh' by (simp_all add: wire_transport_callbacks_def attached_put f) (simp add: put_transport_def)
  show ids': "\<forall>n pid. ids sh' n = Some pid \<longrightarrow> pid = own_id (sh_co sh)"
  proof -
    have "ids sh' = ids sh3" using pid by (simp add: sh' wire_transport_callbacks_def ids_put f fun_upd_idem)
    with ids3 show ?thesis by (simp only:)
  qed
  have co': "sh_co sh' = sh_co sh2" by (simp add: sh' wire_transport_callbacks_def put_transport_def co3)
  show "co_sessions (sh_co sh') = []" "co_identity (sh_co sh') = co_identity (sh_co sh)" unfolding co' by (simp_all add: id)
  show "wired_ok sh'"
  proof (rule wired_okI)
    show "coordinator_ok (sh_co sh')" unfolding co' by (rule id(3))
    show "dict_ok (sh_transports sh')" using ok3 by (simp add: sh' wire_transport_callbacks_def put_transport_def distinct_update)
    show "dict_has (sh_transports sh') (sh_active sh')" unfolding has_ids \<open>sh_active sh' = target\<close> by (simp add: sh' wire_transport_callbacks_def ids_put)
  qed (simp add: \<open>attached sh' = {target}\<close> \<open>sh_active sh' = target\<close>)
qed

text \<open>A switch that is neither refused nor for the transport that already runs.\<close>

definition really_switches :: "string \<Rightarrow> shell \<Rightarrow> bool" where
  "really_switches name sh \<longleftrightarrow>
     (transport_target name = ''lan'' \<or> (transport_target name = ''bluetooth'' \<and> dict_has (sh_transports sh) ''bluetooth'')) \<and>
     \<not> (transport_target name = sh_active sh \<and> tp_running (active_transport sh))"

lemma switch_outcome:
  assumes s: "switch_transport aw name sh = Some (sh', b, msg)" and ok: "wired_ok sh" and r: "really_switches name sh"
  shows "wired_ok sh'" "sh_active sh' = transport_target name" "attached sh' = {sh_active sh'}" "co_sessions (sh_co sh') = []"
    "co_identity (sh_co sh') = co_identity (sh_co sh)" "\<forall>n pid. ids sh' n = Some pid \<longrightarrow> pid = own_id (sh_co sh)"
    "if b then came_up sh' \<and> tp_state (active_transport sh') = ef_state (at_start aw) else went_down sh'"
proof -
  define target where "target = transport_target name"
  have t: "target \<in> {''bluetooth'', ''lan''}" "\<not> (target = sh_active sh \<and> tp_running (active_transport sh))"
    "\<not> (target = ''bluetooth'' \<and> \<not> dict_has (sh_transports sh) ''bluetooth'')" "target = ''lan'' \<or> dict_has (sh_transports sh) target"
    using r by (auto simp: really_switches_def target_def)
  have "switch_transport aw name sh = Option.bind (leave_transport aw target sh) (enter_transport aw)"
    using t(1-3) unfolding switch_transport_def Let_def target_def [symmetric] by (simp only: not_not if_False simp_thms)
  with s obtain sh1 where l: "leave_transport aw target sh = Some sh1" and e: "enter_transport aw sh1 = Some (sh', b, msg)"
    by (auto simp: bind_eq_Some_conv)
  note lo = leave_outcome [OF l ok t(4)] and eo = enter_outcome [OF e]
  have k: "wired_ok sh'" "kept sh1 sh'" "if b then came_up sh' \<and> tp_state (active_transport sh') = ef_state (at_start aw) else went_down sh'"
    using eo [OF lo(1)] by blast+
  show "wired_ok sh'" "if b then came_up sh' \<and> tp_state (active_transport sh') = ef_state (at_start aw) else went_down sh'" using k by blast+
  show "sh_active sh' = transport_target name" "attached sh' = {sh_active sh'}" "co_sessions (sh_co sh') = []"
    "co_identity (sh_co sh') = co_identity (sh_co sh)" using k(2) lo(2-5) by (simp_all add: kept_def target_def)
  have "ids sh' = ids sh1" using k(2) by (simp add: kept_def)
  with lo(6) show "\<forall>n pid. ids sh' n = Some pid \<longrightarrow> pid = own_id (sh_co sh)" by (simp only:)
qed

lemma switch_idle: "switch_transport aw name sh = Some (sh', b, msg) \<Longrightarrow> \<not> really_switches name sh \<Longrightarrow> sh' = sh"
  by (auto simp: switch_transport_def really_switches_def Let_def split: if_splits)

lemma switch_ok: "switch_transport aw name sh = Some (sh', b, msg) \<Longrightarrow> shell_ok sh \<Longrightarrow> shell_ok sh'"
proof -
  assume s: "switch_transport aw name sh = Some (sh', b, msg)" and ok: "shell_ok sh"
  show ?thesis
  proof (cases "really_switches name sh")
    case True
    note o = switch_outcome [OF s _ True]
    from ok have "wired_ok sh" by (simp add: shell_ok_def)
    from o(1,7) [OF this] show ?thesis by (cases b) (auto intro: outcome_ok)
  next
    case False
    with switch_idle [OF s] ok show ?thesis by simp
  qed
qed

lemma nickname_ok: "shell_ok sh \<Longrightarrow> shell_ok (set_nickname nick sh)"
proof -
  assume ok: "shell_ok sh"
  let ?sh = "with_co sh ((sh_co sh)\<lparr>co_nickname := nick\<rparr>)"
  have "called sh ?sh" by (rule called_core) (simp_all add: core_def inbox_def)
  then have 1: "shell_ok ?sh" by (rule shell_ok_waited [OF ok waited_called])
  have "ids (identify_all ?sh) n = None \<longleftrightarrow> ids ?sh n = None" for n unfolding identify_all_keeps by (simp split: option.split)
  then show ?thesis using 1 unfolding shell_ok_def wired_ok_def has_ids set_nickname_def identify_all_keeps by simp
qed

lemma calls_ok: "transport_calls env name x sh = Some sh' \<Longrightarrow> wired_ok sh \<Longrightarrow> waited sh sh'"
proof -
  assume a: "transport_calls env name x sh = Some sh'" and ok: "wired_ok sh"
  define sh1 where "sh1 = (case x of
                   Tr_State s \<Rightarrow> put_transport name ((transport_of name sh)\<lparr>tp_state := s\<rparr>) sh
                 | Tr_Error m \<Rightarrow> put_transport name ((transport_of name sh)\<lparr>tp_error := Some m\<rparr>) sh
                 | _ \<Rightarrow> sh)"
  have w: "waited sh sh1" if "dict_has (sh_transports sh) name"
    using waited_put [OF that] by (simp add: sh1_def waited_refl split: transport_call.split)
  have "sh' = (if \<not> dict_has (sh_transports sh) name then sh else sh1) \<or> (dict_has (sh_transports sh) name \<and> deliver_call env x sh1 = Some sh')"
    using a by (auto simp: transport_calls_def Let_def sh1_def split: if_splits)
  then show ?thesis using w waited_refl waited_trans [OF w waited_called [OF call_called]] by auto
qed

lemmas running_simps = names_effects [THEN running_names] names_sending [THEN running_names] names_sessions [THEN running_names]
  names_handshakes [THEN running_names] names_traffic [THEN running_names]

lemmas running_dests = names_relay [THEN running_names] names_incoming [THEN running_names] names_server_data [THEN running_names]

lemma own_running:
  assumes "fst (coordinator_step (Some c) (env, e)) = Some c'"
  shows "co_running c' = co_running c"
proof -
  have p: "co_running (process_packet_async env p a c) = co_running c" for p a c
  proof -
    have an: "co_running (on_announce env p c) = co_running c" for c
      by (simp add: on_announce_def Let_def running_simps)
    have "co_running (dispatch_packet env p c) = co_running c" for c
      by (cases "message_type p") (simp_all add: dispatch_packet_def an running_simps)
    then show ?thesis by (simp add: process_packet_async_def running_simps)
  qed
  have task: "run_task env t c = Some c' \<Longrightarrow> co_running c' = co_running c" for t c c'
    by (cases t) (auto simp: p running_simps dest!: running_dests)
  have failing: "fail_task env t c = Some c' \<Longrightarrow> co_running c' = co_running c" for t c c'
    by (cases t) (auto simp: running_simps dest!: running_dests)
  have taken: "co_running (take_task n c) = co_running c" for n by (simp add: take_task_def)
  show ?thesis
    using assms by (cases e) (auto simp: running_simps discovered_running dest!: task failing running_dests split: if_splits)
qed

lemma own_ok: "shell_next sh (Own env e) = Some sh' \<Longrightarrow> shell_ok sh \<Longrightarrow> shell_ok sh'"
proof -
  assume a: "shell_next sh (Own env e) = Some sh'" and ok: "shell_ok sh"
  show ?thesis
  proof (cases "own_event e")
    case True
    with a obtain c where c: "fst (coordinator_step (Some (sh_co sh)) (env, e)) = Some c" "sh' = with_co sh c" by auto
    have "coordinator_ok c"
      using coordinator_step_ok [of "Some (sh_co sh)" "(env, e)"] ok c(1) by (simp add: stable_def shell_ok_def wired_ok_def)
    with ok own_running [OF c(1)] show ?thesis
      unfolding c(2) shell_ok_def wired_ok_def with_co_def attached_def by (simp del: map_of_eq_Some_iff)
  qed (use a ok in simp)
qed

definition all_ok :: "shell option \<Rightarrow> bool" where
  "all_ok x \<longleftrightarrow> (case x of None \<Rightarrow> True | Some sh \<Rightarrow> shell_ok sh)"

lemma shell_next_ok:
  assumes "shell_next sh e = Some sh'" "shell_ok sh"
  shows "shell_ok sh'"
proof (cases e)
  case (Own env x)
  with own_ok assms show ?thesis by blast
next
  case (From_Transport env name x)
  then have c: "transport_calls env name x sh = Some sh'" using assms(1) by simp
  have "wired_ok sh" using assms(2) by (simp only: shell_ok_def)
  from shell_ok_waited [OF assms(2) calls_ok [OF c this]] show ?thesis .
next
  case (Start_All aw)
  then have s: "coordinator_start aw sh = Some sh'" using assms(1) by simp
  show ?thesis
  proof (cases "co_running (sh_co sh) \<or> sh_offline_mode sh")
    case True
    with s assms(2) show ?thesis by (auto simp: coordinator_start_def)
  next
    case False
    with start_outcome [OF s] assms(2) show ?thesis by (simp add: shell_ok_def)
  qed
next
  case (Retry aw)
  with assms(1) obtain b where "retry_active_transport aw sh = Some (sh', b)" by auto
  from retry_outcome [OF this] assms(2) show ?thesis by (simp add: shell_ok_def)
next
  case (Stop_All aw)
  with assms(1) have "coordinator_stop aw sh = Some sh'" by simp
  from stop_outcome [OF this] assms(2) show ?thesis by (simp add: shell_ok_def)
next
  case (Go_Offline aw)
  with assms(1) have "go_offline aw sh = Some sh'" by simp
  from offline_outcome [OF this] assms(2) show ?thesis by (simp add: shell_ok_def)
next
  case (Switch aw name)
  with assms(1) obtain b m where "switch_transport aw name sh = Some (sh', b, m)" by auto
  from switch_ok [OF this assms(2)] show ?thesis .
next
  case (Set_Nickname nick)
  with assms(1) have "sh' = set_nickname nick sh" by simp
  then show ?thesis using nickname_ok [OF assms(2)] by simp
qed

interpretation shells: machine shell_step all_ok
proof
  fix x e assume ok: "all_ok x"
  show "all_ok (fst (shell_step x e))"
  proof (cases x)
    case (Some sh)
    with ok have "shell_ok sh" by (simp only: all_ok_def option.case)
    from shell_next_ok [OF _ this, of e] Some show ?thesis
      by (cases "shell_next sh e") (simp_all add: shell_step_def all_ok_def)
  qed (simp add: shell_step_def all_ok_def)
qed

subsection \<open>The properties\<close>

lemma new_shell_ok: "shell_ok (new_shell (SessionCoordinator ident storage nick rt) bt initial)"
proof -
  let ?c = "SessionCoordinator ident storage nick rt"
  have ok: "coordinator_ok ?c" by (rule coordinator_new_ok)
  have off: "\<not> co_running ?c" by (simp add: SessionCoordinator_def)
  have "wired_ok (wire_transport_callbacks active
           \<lparr>sh_co = ?c, sh_offline_mode = m, sh_error = e, sh_notified = e', sh_active = active,
            sh_transports = [(''bluetooth'', new_transport [] []), (''lan'', new_transport pid n)], sh_pruning = b, sh_ui = ui\<rparr>)"
    if "active = ''lan'' \<or> active = ''bluetooth''" for active m e e' b ui pid n
  proof -
    let ?sh = "\<lparr>sh_co = ?c, sh_offline_mode = m, sh_error = e, sh_notified = e', sh_active = active,
            sh_transports = [(''bluetooth'', new_transport [] []), (''lan'', new_transport pid n)], sh_pruning = b, sh_ui = ui\<rparr>"
    have "attached ?sh = {}" by (auto simp: attached_def new_transport_def split: if_splits)
    then have "attached (wire_transport_callbacks active ?sh) \<subseteq> {active}" by (simp add: wire_transport_callbacks_def attached_put)
    moreover have "dict_ok (sh_transports (wire_transport_callbacks active ?sh))"
      using that by (elim disjE) (simp_all add: wire_transport_callbacks_def put_transport_def distinct_update)
    moreover have "dict_has (sh_transports (wire_transport_callbacks active ?sh)) active"
      unfolding has_ids by (simp add: wire_transport_callbacks_def ids_put)
    ultimately show ?thesis using ok by (intro wired_okI) (simp_all add: wire_transport_callbacks_def put_transport_def del: map_of_eq_Some_iff)
  qed
  with off show ?thesis
    by (auto simp: shell_ok_def new_shell_def Let_def) (simp_all add: wire_transport_callbacks_def put_transport_def)
qed



text \<open>Transports that make no callbacks while they are awaited.\<close>

definition calm :: "attempt \<Rightarrow> bool" where
  "calm aw \<longleftrightarrow> (\<forall>name. ef_calls (at_stop aw name) = []) \<and> ef_calls (at_start aw) = [] \<and> ef_calls (at_release aw) = []"

lemma await_calm: "ef_calls eff = [] \<Longrightarrow> await_transport env name eff sh =
  Some (put_transport name ((transport_of name sh)\<lparr>tp_state := ef_state eff, tp_error := ef_error eff, tp_running := ef_running eff\<rparr>) sh, ef_raises eff)"
  by (simp add: await_transport_def)

lemma switch_returns: "calm aw \<Longrightarrow> switch_transport aw name sh \<noteq> None"
proof -
  assume c: "calm aw"
  then have g: "give_up aw s m sh \<noteq> None" for s m sh by (simp add: give_up_def stop_transport_safely_def await_calm calm_def)
  have e: "enter_transport aw sh \<noteq> None" for sh
    using c g by (auto simp: enter_transport_def switch_fails_def await_calm calm_def split: option.split prod.split)
  have l: "leave_transport aw target sh \<noteq> None" for target using c by (simp add: leave_transport_def stop_transport_safely_def await_calm calm_def)
  have r: "Option.bind (leave_transport aw target sh) (enter_transport aw) \<noteq> None" for target
    using l [of target] e by (cases "leave_transport aw target sh") simp_all
  have k: "(if a then Some x else w) \<noteq> None" if "w \<noteq> None" for a x and w :: "(shell \<times> bool \<times> string) option" using that by (cases x) simp
  show ?thesis unfolding switch_transport_def Let_def by (intro k r)
qed


definition sample_shell :: shell where
  "sample_shell = new_shell (SessionCoordinator (sample_identity 1) None ''alice'' None) True ''bluetooth''"

definition quiet_effect :: "TransportState \<Rightarrow> effect" where
  "quiet_effect s = \<lparr>ef_calls = [], ef_state = s, ef_error = None, ef_running = (s \<noteq> OFFLINE), ef_raises = None\<rparr>"

definition sample_attempt :: attempt where
  "sample_attempt = \<lparr>at_env = sample_env 1, at_stop = (\<lambda>name. quiet_effect OFFLINE), at_start = quiet_effect SCANNING,
     at_release = quiet_effect OFFLINE, at_broadcast = None, at_text = (\<lambda>e. ''error''), 
     at_telemetry = \<lparr>tm_adapter_on = True, tm_injected = False, tm_scanner_active = False, tm_advertising = False, tm_central = False,
       tm_peripheral = False, tm_connected = True, tm_discovery_active = True, tm_listening_active = True, tm_error = None\<rparr>\<rparr>"

lemma sample_calm: "calm (sample_attempt)"
  by (simp add: calm_def sample_attempt_def quiet_effect_def)

lemma sample_shell_ok: "shell_ok sample_shell"
  unfolding sample_shell_def by (rule new_shell_ok)

lemma sample_bluetooth: "sh_active sample_shell = ''bluetooth''" "\<not> sh_offline_mode sample_shell" "\<not> co_running (sh_co sample_shell)"
  unfolding sample_shell_def by (simp_all add: new_shell_def wire_transport_callbacks_def put_transport_def SessionCoordinator_def Let_def py_lower_def)

lemma sample_target: "transport_target ''wifi'' = ''lan''"
  by code_simp

lemma sample_switches: "really_switches ''wifi'' sample_shell"
  by (simp add: really_switches_def sample_target sample_bluetooth)


text \<open>
  C17. How an attempt to network ends. \<open>start\<close> (unless it is already running or offline mode is on),
  \<open>retry_active_transport\<close> and \<open>switch_transport\<close> either succeed, and then the coordinator runs, offline
  mode is off and the caches are pruned, or they fail, and then it does not run, the active transport
  is left in a failed state that the status shows, and the error is kept for the user; the answer of
  the last two says which.
\<close>

theorem networking_outcome:
  assumes "shell_ok sh"
  shows "(coordinator_start aw sh = Some sh1 \<and> \<not> co_running (sh_co sh) \<and> \<not> sh_offline_mode sh \<longrightarrow> came_up sh1 \<or> went_down sh1) \<and>
    (retry_active_transport aw sh = Some (sh2, b) \<longrightarrow> (if b then came_up sh2 else went_down sh2)) \<and>
    (switch_transport aw name sh = Some (sh3, b', msg) \<and> really_switches name sh \<longrightarrow> (if b' then came_up sh3 else went_down sh3))"
proof -
  have ok: "wired_ok sh" using assms by (simp only: shell_ok_def)
  show ?thesis
    using start_outcome [OF _ ok] retry_outcome [OF _ ok] switch_outcome(7) [OF _ ok] by (auto split: if_splits)
qed

lemma networking_outcome_witness:
  "\<exists>sh' b msg. switch_transport sample_attempt ''wifi'' sample_shell = Some (sh', b, msg) \<and>
     (if b then came_up sh' else went_down sh')"
proof -
  obtain sh' b msg where s: "switch_transport sample_attempt ''wifi'' sample_shell = Some (sh', b, msg)"
    using switch_returns [OF sample_calm, of "''wifi''" sample_shell] by auto
  have "switch_transport sample_attempt ''wifi'' sample_shell = Some (sh', b, msg) \<and> really_switches ''wifi'' sample_shell"
    using s sample_switches ..
  then have "if b then came_up sh' else went_down sh'"
    by (rule networking_outcome [OF sample_shell_ok, THEN conjunct2, THEN conjunct2, THEN mp])
  then have "switch_transport sample_attempt ''wifi'' sample_shell = Some (sh', b, msg) \<and> (if b then came_up sh' else went_down sh')"
    by (rule conjI [OF s])
  then show ?thesis by (intro exI)
qed

text \<open>The events with which the user asks for the network again.\<close>

fun asks_for_network :: "shell_event \<Rightarrow> bool" where
  "asks_for_network (Retry aw) = True"
| "asks_for_network (Switch aw name) = True"
| "asks_for_network e = False"

lemma offline_next:
  assumes "shell_next sh e = Some sh'" "shell_ok sh" "sh_offline_mode sh" "\<not> asks_for_network e"
  shows "sh_offline_mode sh'"
proof -
  have ok: "wired_ok sh" using assms(2) by (simp only: shell_ok_def)
  show ?thesis
  proof (cases e)
    case (From_Transport env name x)
    with assms(1) have "transport_calls env name x sh = Some sh'" by simp
    from calls_ok [OF this ok] assms(3) show ?thesis by (simp add: waited_def)
  next
    case (Stop_All aw)
    with assms(1) have "coordinator_stop aw sh = Some sh'" by simp
    from stop_outcome [OF this ok] assms(3) show ?thesis by simp
  next
    case (Go_Offline aw)
    with assms(1) have "go_offline aw sh = Some sh'" by simp
    from offline_outcome [OF this ok] show ?thesis by simp
  qed (use assms in \<open>auto simp: coordinator_start_def set_nickname_def identify_all_keeps with_co_def split: if_splits\<close>)
qed

text \<open>
  C19. Offline means offline: once offline mode is on, nothing but a retry or a switch of the transport
  turns it off, whatever tasks, callbacks, starts, stops and changes of the name follow, and the
  coordinator does not run meanwhile.
\<close>

theorem offline_until_asked:
  assumes "shell_ok sh" and "sh_offline_mode sh" and "\<forall>e \<in> set evs. \<not> asks_for_network e" and "fst (run shell_step (Some sh) evs) = Some sh'"
  shows "sh_offline_mode sh' \<and> \<not> co_running (sh_co sh')"
  using assms
proof (induction evs arbitrary: sh)
  case Nil
  then show ?case by (simp add: shell_ok_def)
next
  case (Cons e evs)
  have dead: "fst (run shell_step None evs) = None" for evs by (induction evs) (simp_all add: shell_step_def split: prod.split)
  have "fst (shell_step (Some sh) e) = shell_next sh e" by (simp add: shell_step_def)
  with Cons.prems(4) have r: "fst (run shell_step (shell_next sh e) evs) = Some sh'" by (simp only: run_Cons)
  then obtain sh1 where s: "shell_next sh e = Some sh1" using dead by (cases "shell_next sh e") auto
  have "sh_offline_mode sh1" by (rule offline_next [OF s Cons.prems(1,2)]) (use Cons.prems(3) in simp)
  from Cons.IH [OF shell_next_ok [OF s Cons.prems(1)] this] Cons.prems(3) r s show ?case by simp
qed

lemma offline_until_asked_witness:
  "\<exists>sh'. fst (run shell_step (Some (sample_shell\<lparr>sh_offline_mode := True\<rparr>)) [Set_Nickname ''bob'', Start_All sample_attempt]) = Some sh' \<and>
     sh_offline_mode sh' \<and> \<not> co_running (sh_co sh')"
proof -
  let ?sh = "sample_shell\<lparr>sh_offline_mode := True\<rparr>"
  let ?evs = "[Set_Nickname ''bob'', Start_All sample_attempt]"
  have ok: "shell_ok ?sh" using sample_shell_ok sample_bluetooth(3) by (simp add: shell_ok_def wired_mode)
  have "fst (run shell_step (Some ?sh) ?evs) = Some (set_nickname ''bob'' ?sh)"
    by (simp add: shell_step_def coordinator_start_def set_nickname_def identify_all_def with_co_def)
  with offline_until_asked [OF ok, of ?evs "set_nickname ''bob'' ?sh"] show ?thesis by simp
qed

end
