(* ===== verification/Spec2Isabelle.thy ===== *)
theory Spec2Isabelle
  imports Reassembly Router Framing Commands Conversation Handshake_Limits Nicknames Lan_Props Lifecycle_Props
begin

text \<open>
  A verification development for bitchat-python, a peer-to-peer chat program that runs over
  Bluetooth and local networks without a server. The sources are under \<open>src/src/bitchat/\<close>; every
  path below is relative to that directory.

  \<^bold>\<open>The program and the theories.\<close> A message travels through the parts in this order, and each
  part is modelled by one theory, whose definitions keep the names of the code.

  \<^item> \<^verbatim>\<open>protocol/constants.py, packet.py\<close> (\<open>Packet\<close>): the packet record with its validating
    constructor; message types. \<^verbatim>\<open>encoder.py, decoder.py\<close> (\<open>Codec\<close>): the binary format with its optional
    padding. \<^verbatim>\<open>fragmentation.py\<close> (\<open>Fragmentation\<close>) and \<^verbatim>\<open>reassembly.py\<close> (\<open>Reassembly\<close>): splitting a
    packet that is too large for a link, and putting the pieces together with limits on memory.
  \<^item> \<^verbatim>\<open>mesh/dedup.py\<close> (\<open>Dedup\<close>, with the hash function of \<open>Sha256\<close>): packet identifiers and the cache
    of those already seen. \<^verbatim>\<open>mesh/store_forward.py\<close> (\<open>Store_Forward\<close>): queues for peers that are away.
    \<^verbatim>\<open>mesh/router.py\<close> (\<open>Rate_Limit\<close>, \<open>Router\<close>): what to do with an incoming packet.
  \<^item> \<^verbatim>\<open>network/framing.py, connection.py\<close> (\<open>Framing\<close>): packets on a TCP stream.
    \<^verbatim>\<open>network/discovery.py, models.py\<close> (\<open>Discovery\<close>, over the JSON values of \<open>Json\<close>): UDP beacons and the
    registry of peers on the local network.
  \<^item> \<^verbatim>\<open>crypto/x25519.py, ed25519.py, aes_gcm.py, hkdf.py, pbkdf2.py, identity.py\<close> (\<open>Primitives\<close>): the
    checks around the primitives and the local identity. \<^verbatim>\<open>crypto/noise.py\<close> (\<open>Noise\<close> for the cipher and
    symmetric states, \<open>Handshake\<close> for the XX pattern) and \<^verbatim>\<open>crypto/sessions.py\<close> (\<open>Sessions\<close>): the
    encrypted sessions.
  \<^item> \<^verbatim>\<open>commands/parser.py\<close> (\<open>Commands\<close>): what the user types. \<^verbatim>\<open>storage/config.py, models/peer.py\<close>
    (\<open>Config\<close>): settings, contacts and the stored identity.
  \<^item> \<^verbatim>\<open>network/transport.py, server.py, adapter.py\<close> (\<open>Lan_Transport\<close>, its properties in \<open>Lan_Props\<close>): the
    registry of TCP connections, the choice between two connections with one peer, broadcasting, the life
    of the services. Connections are shared objects, so they live in a heap and tables hold indices.
  \<^item> \<^verbatim>\<open>app/session_coordinator.py\<close> (\<open>Coordinator\<close> for its state, sessions, timers and sending; \<open>Dispatch\<close>
    for packets, peer events, tasks and the event loop): a handler that waits is cut there, and what is left
    of it is a task of the state, so that every interleaving of tasks, timers and packets is a run of
    \<open>coordinator_step\<close>. \<open>Coordinator_Inv\<close> holds its invariant, \<open>Coordinator_Props\<close>, \<open>Handshake_Limits\<close>,
    \<open>Nicknames\<close> and \<open>Conversation\<close> the properties, \<open>Samples\<close> and \<open>Sha_Bits\<close> concrete devices to evaluate on.
    \<open>Lifecycle\<close> models how it starts, stops, retries, goes offline and switches its transports; what a transport
    does while it is awaited (callbacks, final state, exception) is an input. Its properties are in \<open>Lifecycle_Props\<close>.
  \<^item> \<^verbatim>\<open>exceptions.py\<close> (\<open>Errors\<close>): the exception classes. \<open>Prelude\<close>, \<open>Py_Str\<close> and \<open>Interfaces\<close> hold what
    the components share: octet strings and dictionaries, Python's string operations, and the locales.

  \<^bold>\<open>How code becomes definitions.\<close> An object is a record; a method is a function that returns the new
  record and its result. A method that may raise returns a sum, \<open>Inl\<close> the exception; state changed
  before the exception stays changed, as in Python. Python integers are \<open>int\<close>, sizes are \<open>nat\<close>,
  octets are 8-bit words, clocks are \<open>real\<close>, strings are lists of characters (code points below 256), a
  dictionary is an association list in insertion order. Whatever a method reads from outside (the clock,
  random octets, the result of a system call) is an argument. Loops are structural recursions, apart
  from two eviction loops of the store-and-forward queue, which can run for ever: they use
  \<open>while_option\<close>, and \<open>None\<close> is divergence. There is no fuel anywhere.

  \<^bold>\<open>Parameters.\<close> The \<open>cryptography\<close> package is a record of functions (\<open>crypto_lib\<close>). The laws assumed of
  it are named predicates: \<open>x25519_laws\<close> (the exchange commutes), \<open>ed25519_laws\<close> and \<open>aead_laws\<close>,
  \<open>chacha_ok\<close> (opening what was sealed gives it back, sealing adds 16 octets), and \<open>sample_lib\<close> satisfies
  them. JSON parsing and printing, the representation \<open>repr\<close>, and \<open>os.urandom\<close> are functions passed in.
  SHA-256 is defined and computed.

  \<^bold>\<open>Interfaces.\<close> \<open>machine\<close>: steps that keep an invariant, so that runs do; \<open>remembering_cache\<close>: at most
  one acceptance per identity; \<open>sliding_window\<close>: bounded rates; \<open>one_shot\<close>: identities that are spent
  once; \<open>message_codec\<close>: round trips. Each is interpreted on the model's own operations, in the theory
  that defines them, and the properties follow from the interpretations.

  \<^bold>\<open>What is shown.\<close> Codec: decoding inverts encoding, and accepts exactly the well-formed packets.
  Fragments: any arrival order gives the packet back, senders cannot disturb each other, memory is
  bounded. Router: a packet is accepted once, rates are bounded, relaying ends. Queue: enqueueing returns
  and dequeueing gives what was stored, as long as the eviction does not hit the target's own queue.
  Streams: framing survives any cutting of the stream. Noise: honest handshakes agree, messages arrive in
  any order within the window, no replay is accepted and no nonce used twice, established sessions are
  bound to the peer's identifier. Discovery: one record per peer, never the device itself. Commands: the
  parser is total and keeps texts. Configuration: trust on first use, settings survive a restart, one
  identity per device. LAN transport: the tables stay
  consistent, a broadcast reaches every peer once, two ends of crossing connections keep the same one.
  Coordinator: sessions, timers and tasks stay consistent under every interleaving, no handshake is pending
  for ever, names are unique, a private text sent to an unknown peer arrives after the handshake it needs,
  and what is shown as private was decrypted in a session with the peer it is shown for. Starting, retrying and switching end either
  running or in a failed state that the user sees, a switch leaves no peer of the old transport behind, and
  offline mode stays on until the user asks for the network. Several theorems state defects of the code as it is; each says so.

  \<^bold>\<open>Not modelled.\<close> Of the coordinator and the LAN transport:
  telemetry for display and the probing of the host. Bluetooth (\<^verbatim>\<open>ble/\<close>,
  \<^verbatim>\<open>transport/bluetooth.py\<close>), the terminal interface (\<^verbatim>\<open>tui/\<close>), platform probes (\<^verbatim>\<open>platform/\<close>), logging,
  start-up and packaging call operating-system and user-interface libraries and have little logic of
  their own. Log messages, file permissions, atomic replacement and locking of files, and the
  texts of exceptions are left out everywhere.
\<close>

end
